(* ===== verification/Mp_Prelude.thy ===== *)
theory Mp_Prelude
  imports Complex_Main "HOL-Library.Word" "HOL-Library.AList"
begin

section \<open>Prelude: machine types, containers and shared automation\<close>

text \<open>
  What every component of the model uses: names for the fixed-width integers of the C++
  source, \<open>std::unordered_map\<close> as an association list with distinct keys, the vector loops
  that touch the first element with a given id, floating-point arithmetic as a record of
  operations (C++ leaves the accuracy of floating point to the implementation, so the
  arithmetic is a parameter and its exact rational instance is \<open>rat_fops\<close>), and the rule
  collections the component proofs share.
\<close>

type_synonym u8 = "8 word"
type_synonym u16 = "16 word"
type_synonym u32 = "32 word"
type_synonym u64 = "64 word"
type_synonym bytes = "u8 list"

named_theorems wire_elims \<open>elimination rules that consume one read from a buffer\<close>
named_theorems wire_reads \<open>the same for a deserializer that hands on the rest of the buffer\<close>
named_theorems inv_intros \<open>invariant preservation, one rule per operation\<close>

subsection \<open>Unordered maps\<close>

text \<open>
  A \<open>std::unordered_map\<close> is an association list with distinct keys. The iteration order of
  the container is unspecified in C++; here it is the order of the list, and properties of
  loops over a map are stated up to that order.
\<close>

type_synonym ('k, 'v) umap = "('k \<times> 'v) list"

definition um_find :: "('k, 'v) umap \<Rightarrow> 'k \<Rightarrow> 'v option" where
  "um_find m k = map_of m k"

definition um_put :: "'k \<Rightarrow> 'v \<Rightarrow> ('k, 'v) umap \<Rightarrow> ('k, 'v) umap" where
  "um_put k v m = AList.update k v m"

definition um_erase :: "'k \<Rightarrow> ('k, 'v) umap \<Rightarrow> ('k, 'v) umap" where
  "um_erase k m = AList.delete k m"

definition um_wf :: "('k, 'v) umap \<Rightarrow> bool" where
  "um_wf m \<longleftrightarrow> distinct (map fst m)"

lemma um_find_Nil [simp]: "um_find [] k = None"
  by (simp add: um_find_def)

lemma um_find_put [simp]: "um_find (um_put k v m) k' = (if k' = k then Some v else um_find m k')"
  by (simp add: um_find_def um_put_def update_conv)

lemma um_find_erase [simp]: "um_find (um_erase k m) k' = (if k' = k then None else um_find m k')"
  by (simp add: um_find_def um_erase_def delete_conv)

lemma um_wf_Nil [simp]: "um_wf []"
  by (simp add: um_wf_def)

lemma um_wf_put [simp]: "um_wf m \<Longrightarrow> um_wf (um_put k v m)"
  by (simp add: um_wf_def um_put_def distinct_update)

lemma um_wf_erase [simp]: "um_wf m \<Longrightarrow> um_wf (um_erase k m)"
  by (simp add: um_wf_def um_erase_def distinct_delete)

lemma um_find_None: "um_find m k = None \<longleftrightarrow> k \<notin> fst ` set m"
  by (simp add: um_find_def map_of_eq_None_iff)

lemma um_find_in: "um_find m k = Some v \<Longrightarrow> (k, v) \<in> set m"
  by (simp add: um_find_def map_of_SomeD)

lemma um_in_find: "um_wf m \<Longrightarrow> (k, v) \<in> set m \<Longrightarrow> um_find m k = Some v"
  by (simp add: um_find_def um_wf_def)

lemma um_in_iff: "um_wf m \<Longrightarrow> (k, v) \<in> set m \<longleftrightarrow> um_find m k = Some v"
  using um_find_in um_in_find by metis

lemma um_put_known: "um_find m k = Some w \<Longrightarrow> length (um_put k v m) = length m"
  unfolding um_put_def um_find_def by (induction m) (auto split: if_splits)

lemma um_put_fresh: "um_find m k = None \<Longrightarrow> um_put k v m = m @ [(k, v)]"
  unfolding um_put_def um_find_def by (induction m) (auto split: if_splits)

lemma um_len_put_fresh: "um_find m k = None \<Longrightarrow> length (um_put k v m) = Suc (length m)"
  by (simp add: um_put_fresh)

lemma um_keys_put: "um_find m k = Some w \<Longrightarrow> map fst (um_put k v m) = map fst m"
  unfolding um_put_def um_find_def by (induction m) (auto split: if_splits)

lemma um_filter_put:
  "um_find m k = Some w \<Longrightarrow> filter (\<lambda>(k', v). k' \<noteq> k \<and> P v) (um_put k v m) =
    filter (\<lambda>(k', v). k' \<noteq> k \<and> P v) m"
  unfolding um_put_def um_find_def
proof (induction m)
  case (Cons x m)
  have "filter (\<lambda>(k', v). k' \<noteq> k \<and> P v) (AList.update k v m) = filter (\<lambda>(k', v). k' \<noteq> k \<and> P v) m" for m
    by (induction m) auto
  then show ?case by (cases x) simp
qed simp

lemma um_set_put: "um_wf m \<Longrightarrow> set (um_put k v m) = {(k, v)} \<union> {x \<in> set m. fst x \<noteq> k}"
  unfolding um_put_def um_wf_def by (induction m) force+

lemma um_set_erase: "set (um_erase k m) = {x \<in> set m. fst x \<noteq> k}"
  unfolding um_erase_def by (auto simp: AList.delete_eq)

lemma um_len_erase: "length (um_erase k m) \<le> length m"
  unfolding um_erase_def by (simp add: AList.delete_eq)

subsection \<open>Vector loops over the first match\<close>

text \<open>
  \<open>for (auto& x : v) if (P(x)) { x = f(x); break; }\<close> and the same loop with
  \<open>erase(it); break;\<close>.
\<close>

fun update_first :: "('a \<Rightarrow> bool) \<Rightarrow> ('a \<Rightarrow> 'a) \<Rightarrow> 'a list \<Rightarrow> 'a list" where
  "update_first P f [] = []"
| "update_first P f (x # xs) = (if P x then f x # xs else x # update_first P f xs)"

fun erase_first :: "('a \<Rightarrow> bool) \<Rightarrow> 'a list \<Rightarrow> 'a list" where
  "erase_first P [] = []"
| "erase_first P (x # xs) = (if P x then xs else x # erase_first P xs)"

lemma length_update_first [simp]: "length (update_first P f xs) = length xs"
  by (induction xs) auto

lemma map_update_first:
  "(\<And>x. P x \<Longrightarrow> g (f x) = g x) \<Longrightarrow> map g (update_first P f xs) = map g xs"
  by (induction xs) auto

lemma set_erase_first: "set (erase_first P xs) \<subseteq> set xs"
  by (induction xs) auto

lemma length_erase_first: "length (erase_first P xs) \<le> length xs"
  by (induction xs) auto

lemma distinct_erase_first: "distinct (map g xs) \<Longrightarrow> distinct (map g (erase_first P xs))"
  by (induction xs) (use set_erase_first in \<open>fastforce\<close>)+

lemma erase_first_id: "\<not> list_ex P xs \<Longrightarrow> erase_first P xs = xs"
  by (induction xs) auto

lemma erase_first_distinct:
  "distinct (map g xs) \<Longrightarrow> erase_first (\<lambda>x. g x = k) xs = filter (\<lambda>x. g x \<noteq> k) xs"
proof (induction xs)
  case Nil
  then show ?case by simp
next
  case (Cons a xs)
  have "filter (\<lambda>x. g x \<noteq> g a) xs = xs"
    using Cons.prems by (auto simp: filter_id_conv rev_image_eqI)
  with Cons show ?case by auto
qed

lemma find_SomeD: "List.find P xs = Some x \<Longrightarrow> x \<in> set xs \<and> P x"
  by (auto simp: find_Some_iff)

lemma find_distinct_key:
  "distinct (map g xs) \<Longrightarrow> x \<in> set xs \<Longrightarrow> List.find (\<lambda>y. g y = g x) xs = Some x"
proof (induction xs)
  case (Cons a xs)
  then show ?case by (cases "a = x") (auto simp: rev_image_eqI)
qed simp

lemma find_None_filter: "List.find P xs = None \<Longrightarrow> filter P xs = []"
  by (induction xs) (auto split: if_splits)

subsection \<open>Generic list facts\<close>

lemma filter_replicate_len: "length (filter P xs) \<le> length xs"
  by simp

lemma take_all_len: "length xs = n \<Longrightarrow> take n (xs @ ys) = xs"
  by simp

lemma drop_all_len: "length xs = n \<Longrightarrow> drop n (xs @ ys) = ys"
  by simp

lemma in_remove1D: "x \<in> set (remove1 y xs) \<Longrightarrow> x \<in> set xs"
  using set_remove1_subset by fastforce

lemma fold_snoc: "fold (\<lambda>x acc. acc @ [f x]) xs ys = ys @ map f xs"
  by (induction xs arbitrary: ys) auto

lemma sum_list_map_le:
  "(\<And>x. x \<in> set xs \<Longrightarrow> f x \<le> (c :: int)) \<Longrightarrow> sum_list (map f xs) \<le> int (length xs) * c"
  by (induction xs) (auto simp: algebra_simps add_mono)

lemma sum_list_map_ge:
  "(\<And>x. x \<in> set xs \<Longrightarrow> (c :: int) \<le> f x) \<Longrightarrow> int (length xs) * c \<le> sum_list (map f xs)"
  by (induction xs) (auto simp: algebra_simps add_mono)

subsection \<open>Floating-point arithmetic as a parameter\<close>

record 'f fops =
  fadd :: "'f \<Rightarrow> 'f \<Rightarrow> 'f"
  fsub :: "'f \<Rightarrow> 'f \<Rightarrow> 'f"
  fmul :: "'f \<Rightarrow> 'f \<Rightarrow> 'f"
  fdiv :: "'f \<Rightarrow> 'f \<Rightarrow> 'f"
  flt :: "'f \<Rightarrow> 'f \<Rightarrow> bool"
  fle :: "'f \<Rightarrow> 'f \<Rightarrow> bool"
  flit :: "rat \<Rightarrow> 'f"
  ftrunc :: "'f \<Rightarrow> int"

definition rat_fops :: "rat fops" where
  "rat_fops = \<lparr>fadd = (+), fsub = (-), fmul = (*), fdiv = (/), flt = (<), fle = (\<le>), flit = (\<lambda>q. q),
     ftrunc = (\<lambda>q. if q < 0 then - \<lfloor>- q\<rfloor> else \<lfloor>q\<rfloor>)\<rparr>"

lemma rat_fops_simps [simp]:
  "fadd rat_fops = (+)" "fsub rat_fops = (-)" "fmul rat_fops = (*)" "fdiv rat_fops = (/)"
  "flt rat_fops = (<)" "fle rat_fops = (\<le>)" "flit rat_fops = (\<lambda>q. q)"
  "ftrunc rat_fops = (\<lambda>q. if q < 0 then - \<lfloor>- q\<rfloor> else \<lfloor>q\<rfloor>)"
  by (simp_all add: rat_fops_def)

text \<open>\<open>std::min(a, b)\<close> is \<open>b < a ? b : a\<close> and \<open>std::max(a, b)\<close> is \<open>a < b ? b : a\<close>.\<close>

definition fmin :: "'f fops \<Rightarrow> 'f \<Rightarrow> 'f \<Rightarrow> 'f" where
  "fmin fl a b = (if flt fl b a then b else a)"

definition fmax :: "'f fops \<Rightarrow> 'f \<Rightarrow> 'f \<Rightarrow> 'f" where
  "fmax fl a b = (if flt fl a b then b else a)"

lemma fmin_rat [simp]: "fmin rat_fops a b = min a b"
  by (auto simp: fmin_def min_def)

lemma fmax_rat [simp]: "fmax rat_fops a b = max a b"
  by (auto simp: fmax_def max_def)

subsection \<open>Reachability and invariants of step systems\<close>

inductive reachable :: "('s \<Rightarrow> bool) \<Rightarrow> ('s \<Rightarrow> 's \<Rightarrow> bool) \<Rightarrow> 's \<Rightarrow> bool"
  for init step where
  reach_init: "init s \<Longrightarrow> reachable init step s"
| reach_step: "reachable init step s \<Longrightarrow> step s s' \<Longrightarrow> reachable init step s'"

locale step_system =
  fixes init :: "'s \<Rightarrow> bool" and step :: "'s \<Rightarrow> 's \<Rightarrow> bool" and inv :: "'s \<Rightarrow> bool"
  assumes inv_init: "init s \<Longrightarrow> inv s"
    and inv_step: "inv s \<Longrightarrow> step s s' \<Longrightarrow> inv s'"
begin

lemma inv_reachable: "reachable init step s \<Longrightarrow> inv s"
  by (induction rule: reachable.induct) (auto intro: inv_init inv_step)

end

end
