(* ===== verification/Znet_Buffer.thy ===== *)
theory Znet_Buffer
  imports Mp_Prelude
begin

section \<open>The buffer the serializers write to and read from\<close>

text \<open>
  Every serializer of the plugin writes to and reads from a \<open>znet::Buffer\<close>. znet is fetched
  at configure time and its code is not part of this repository, so the buffer is a parameter:
  the record \<open>bufops\<close> of the operations the serializers call, and the locale \<open>znet_buffer\<close> of
  what they rely on. A buffer holds unread bytes (\<open>pend\<close>) and a last-error flag (\<open>bad\<close>); a
  write appends the encoding of its value, a read of a value that was written returns it and
  consumes its encoding. The encodings themselves (byte order, string and varint format) are
  parameters too, in the record \<open>wire\<close>. At the end, a small byte-list buffer with
  little-endian integers and LEB128 lengths satisfies every law.
\<close>

record ('b, 'f) bufops =
  wrInt :: "nat \<Rightarrow> 'b \<Rightarrow> nat \<Rightarrow> 'b"
  rdInt :: "nat \<Rightarrow> 'b \<Rightarrow> nat \<times> 'b"
  wrFloat :: "'b \<Rightarrow> 'f \<Rightarrow> 'b"
  rdFloat :: "'b \<Rightarrow> 'f \<times> 'b"
  wrString :: "'b \<Rightarrow> string \<Rightarrow> 'b"
  rdString :: "'b \<Rightarrow> string \<times> 'b"
  wrBool :: "'b \<Rightarrow> bool \<Rightarrow> 'b"
  rdBool :: "'b \<Rightarrow> bool \<times> 'b"
  wrVarInt :: "'b \<Rightarrow> nat \<Rightarrow> 'b"
  rdVarInt :: "'b \<Rightarrow> nat \<times> 'b"
  wrBytes :: "'b \<Rightarrow> bytes \<Rightarrow> 'b"
  rdBytes :: "nat \<Rightarrow> 'b \<Rightarrow> bytes \<times> 'b"
  readable_bytes :: "'b \<Rightarrow> nat"
  getAndClearLastError :: "'b \<Rightarrow> bool \<times> 'b"

record 'f wire =
  eInt :: "nat \<Rightarrow> nat \<Rightarrow> bytes"
  eFloat :: "'f \<Rightarrow> bytes"
  eString :: "string \<Rightarrow> bytes"
  eBool :: "bool \<Rightarrow> bytes"
  eVarInt :: "nat \<Rightarrow> bytes"

subsection \<open>The typed reads and writes of the source\<close>

text \<open>\<open>WriteInt<std::uint32_t>(x)\<close> writes four bytes, \<open>WriteInt<int>\<close> the bytes of the
  two's complement of its argument.\<close>

definition wU8 :: "('b, 'f) bufops \<Rightarrow> u8 \<Rightarrow> 'b \<Rightarrow> 'b" where
  "wU8 z v b = wrInt z 1 b (unat v)"

definition wU16 :: "('b, 'f) bufops \<Rightarrow> u16 \<Rightarrow> 'b \<Rightarrow> 'b" where
  "wU16 z v b = wrInt z 2 b (unat v)"

definition wU32 :: "('b, 'f) bufops \<Rightarrow> u32 \<Rightarrow> 'b \<Rightarrow> 'b" where
  "wU32 z v b = wrInt z 4 b (unat v)"

definition wU64 :: "('b, 'f) bufops \<Rightarrow> u64 \<Rightarrow> 'b \<Rightarrow> 'b" where
  "wU64 z v b = wrInt z 8 b (unat v)"

definition rU8 :: "('b, 'f) bufops \<Rightarrow> 'b \<Rightarrow> u8 \<times> 'b" where
  "rU8 z b = (case rdInt z 1 b of (n, b') \<Rightarrow> (word_of_nat n, b'))"

definition rU16 :: "('b, 'f) bufops \<Rightarrow> 'b \<Rightarrow> u16 \<times> 'b" where
  "rU16 z b = (case rdInt z 2 b of (n, b') \<Rightarrow> (word_of_nat n, b'))"

definition rU32 :: "('b, 'f) bufops \<Rightarrow> 'b \<Rightarrow> u32 \<times> 'b" where
  "rU32 z b = (case rdInt z 4 b of (n, b') \<Rightarrow> (word_of_nat n, b'))"

definition rU64 :: "('b, 'f) bufops \<Rightarrow> 'b \<Rightarrow> u64 \<times> 'b" where
  "rU64 z b = (case rdInt z 8 b of (n, b') \<Rightarrow> (word_of_nat n, b'))"

definition wFloat :: "('b, 'f) bufops \<Rightarrow> 'f \<Rightarrow> 'b \<Rightarrow> 'b" where
  "wFloat z v b = wrFloat z b v"

definition wString :: "('b, 'f) bufops \<Rightarrow> string \<Rightarrow> 'b \<Rightarrow> 'b" where
  "wString z v b = wrString z b v"

definition wBool :: "('b, 'f) bufops \<Rightarrow> bool \<Rightarrow> 'b \<Rightarrow> 'b" where
  "wBool z v b = wrBool z b v"

definition wVarInt :: "('b, 'f) bufops \<Rightarrow> nat \<Rightarrow> 'b \<Rightarrow> 'b" where
  "wVarInt z v b = wrVarInt z b v"

definition wBytes :: "('b, 'f) bufops \<Rightarrow> bytes \<Rightarrow> 'b \<Rightarrow> 'b" where
  "wBytes z v b = wrBytes z b v"

text \<open>\<open>WriteInt(flag ? 1 : 0)\<close> deduces \<open>int\<close>, so a flag takes four bytes;
  \<open>ReadInt<int>() != 0\<close> reads it back.\<close>

definition wIntFlag :: "('b, 'f) bufops \<Rightarrow> bool \<Rightarrow> 'b \<Rightarrow> 'b" where
  "wIntFlag z f b = wU32 z (if f then 1 else 0) b"

definition rIntFlag :: "('b, 'f) bufops \<Rightarrow> 'b \<Rightarrow> bool \<times> 'b" where
  "rIntFlag z b = (case rU32 z b of (n, b') \<Rightarrow> (n \<noteq> 0, b'))"

abbreviation eU8 :: "'f wire \<Rightarrow> u8 \<Rightarrow> bytes" where "eU8 w v \<equiv> eInt w 1 (unat v)"
abbreviation eU16 :: "'f wire \<Rightarrow> u16 \<Rightarrow> bytes" where "eU16 w v \<equiv> eInt w 2 (unat v)"
abbreviation eU32 :: "'f wire \<Rightarrow> u32 \<Rightarrow> bytes" where "eU32 w v \<equiv> eInt w 4 (unat v)"
abbreviation eU64 :: "'f wire \<Rightarrow> u64 \<Rightarrow> bytes" where "eU64 w v \<equiv> eInt w 8 (unat v)"
abbreviation eFlag :: "'f wire \<Rightarrow> bool \<Rightarrow> bytes" where
  "eFlag w f \<equiv> eU32 w (if f then 1 else 0)"

subsection \<open>Values on the wire\<close>

text \<open>
  \<open>carries n put get v\<close>: \<open>put\<close> appends an encoding of at least \<open>n\<close> bytes and never fails, and
  \<open>get\<close> reads that encoding, whatever follows it, as \<open>v\<close> and consumes exactly it.
\<close>

definition carries ::
  "('b \<Rightarrow> bytes) \<Rightarrow> ('b \<Rightarrow> bool) \<Rightarrow> nat \<Rightarrow> ('b \<Rightarrow> 'b) \<Rightarrow> ('b \<Rightarrow> 'p \<times> 'b) \<Rightarrow> 'p \<Rightarrow> bool" where
  "carries pend bad n put get v \<longleftrightarrow> (\<exists>e. n \<le> length e \<and>
     (\<forall>b. pend (put b) = pend b @ e \<and> bad (put b) = bad b) \<and>
     (\<forall>b r. pend b = e @ r \<longrightarrow> (\<exists>b'. get b = (v, b') \<and> pend b' = r \<and> bad b' = bad b)))"

lemma carriesI:
  assumes "\<And>b. pend (put b) = pend b @ e \<and> bad (put b) = bad b" and "n \<le> length e"
    and "\<And>b r. pend b = e @ r \<Longrightarrow> \<exists>b'. get b = (v, b') \<and> pend b' = r \<and> bad b' = bad b"
  shows "carries pend bad n put get v"
  using assms unfolding carries_def by blast

lemma carriesE:
  assumes "carries pend bad n put get v"
  obtains e where "\<And>b. pend (put b) = pend b @ e" "\<And>b. bad (put b) = bad b" "n \<le> length e"
    "\<And>b r. pend b = e @ r \<Longrightarrow> \<exists>b'. get b = (v, b') \<and> pend b' = r \<and> bad b' = bad b"
  using assms unfolding carries_def by blast

fun read_n :: "('b \<Rightarrow> 'p \<times> 'b) \<Rightarrow> nat \<Rightarrow> 'b \<Rightarrow> 'p list \<times> 'b" where
  "read_n get 0 b = ([], b)"
| "read_n get (Suc n) b = (let (x, b) = get b; (xs, b) = read_n get n b in (x # xs, b))"

lemma read_n_length: "length (fst (read_n get n b)) = n"
  by (induction n arbitrary: b) (auto simp: Let_def split_beta)

text \<open>The contract of one entry of a vector on the wire, where the reader sees \<open>seen x\<close> of an entry
  \<open>x\<close>, and what follows for the vector.\<close>

locale entry_codec =
  fixes pend :: "'b \<Rightarrow> bytes" and bad :: "'b \<Rightarrow> bool"
    and put :: "'p \<Rightarrow> 'b \<Rightarrow> 'b" and get :: "'b \<Rightarrow> 'q \<times> 'b" and seen :: "'p \<Rightarrow> 'q"
  assumes entry: "carries pend bad 1 (put x) get (seen x)"
begin

lemma vector: "carries pend bad (length xs) (fold put xs) (read_n get (length xs)) (map seen xs)"
proof (induction xs)
  case Nil
  then show ?case by (auto simp: carries_def)
next
  case (Cons x xs)
  from entry [of x] obtain e where e: "\<And>b. pend (put x b) = pend b @ e"
    "\<And>b. bad (put x b) = bad b" "1 \<le> length e"
    "\<And>b r. pend b = e @ r \<Longrightarrow> \<exists>b'. get b = (seen x, b') \<and> pend b' = r \<and> bad b' = bad b"
    by (rule carriesE) blast
  from Cons obtain es where es: "\<And>b. pend (fold put xs b) = pend b @ es"
    "\<And>b. bad (fold put xs b) = bad b" "length xs \<le> length es"
    "\<And>b r. pend b = es @ r \<Longrightarrow>
      \<exists>b'. read_n get (length xs) b = (map seen xs, b') \<and> pend b' = r \<and> bad b' = bad b"
    by (rule carriesE) blast
  have "\<exists>b'. read_n get (Suc (length xs)) b = (seen x # map seen xs, b') \<and> pend b' = r \<and> bad b' = bad b"
    if "pend b = (e @ es) @ r" for b r
  proof -
    from e(4) [of b "es @ r"] that obtain b1 where b1: "get b = (seen x, b1)" "pend b1 = es @ r" "bad b1 = bad b"
      by auto
    from es(4) [OF b1(2)] obtain b2 where "read_n get (length xs) b1 = (map seen xs, b2)" "pend b2 = r" "bad b2 = bad b1"
      by auto
    with b1 show ?thesis by simp
  qed
  then show ?case
    using e(1-3) es(1-3) by (intro carriesI [where e = "e @ es"]) simp_all
qed

end

subsection \<open>What the serializers rely on\<close>

locale znet_buffer =
  fixes z :: "('b, 'f) bufops" and pend :: "'b \<Rightarrow> bytes" and bad :: "'b \<Rightarrow> bool" and w :: "'f wire"
  assumes readable: "readable_bytes z b = length (pend b)"
    and error_read: "fst (getAndClearLastError z b) = bad b"
    and error_pend: "pend (snd (getAndClearLastError z b)) = pend b"
    and error_clear: "\<not> bad (snd (getAndClearLastError z b))"
    and wrInt: "pend (wrInt z k b n) = pend b @ eInt w k n" "bad (wrInt z k b n) = bad b"
    and wrFloat: "pend (wrFloat z b x) = pend b @ eFloat w x" "bad (wrFloat z b x) = bad b"
    and wrString: "pend (wrString z b s) = pend b @ eString w s" "bad (wrString z b s) = bad b"
    and wrBool: "pend (wrBool z b f) = pend b @ eBool w f" "bad (wrBool z b f) = bad b"
    and wrVarInt: "pend (wrVarInt z b n) = pend b @ eVarInt w n" "bad (wrVarInt z b n) = bad b"
    and wrBytes: "pend (wrBytes z b bs) = pend b @ bs" "bad (wrBytes z b bs) = bad b"
    and eInt_length: "length (eInt w k n) = k"
    and eString_length: "0 < length (eString w s)"
    and rdInt: "n < 256 ^ k \<Longrightarrow> pend b = eInt w k n @ r \<Longrightarrow>
      \<exists>b'. rdInt z k b = (n, b') \<and> pend b' = r \<and> bad b' = bad b"
    and rdFloat: "pend b = eFloat w x @ r \<Longrightarrow>
      \<exists>b'. rdFloat z b = (x, b') \<and> pend b' = r \<and> bad b' = bad b"
    and rdString: "pend b = eString w s @ r \<Longrightarrow>
      \<exists>b'. rdString z b = (s, b') \<and> pend b' = r \<and> bad b' = bad b"
    and rdBool: "pend b = eBool w f @ r \<Longrightarrow>
      \<exists>b'. rdBool z b = (f, b') \<and> pend b' = r \<and> bad b' = bad b"
    and rdVarInt: "pend b = eVarInt w n @ r \<Longrightarrow>
      \<exists>b'. rdVarInt z b = (n, b') \<and> pend b' = r \<and> bad b' = bad b"
    and rdBytes: "pend b = bs @ r \<Longrightarrow>
      \<exists>b'. rdBytes z (length bs) b = (bs, b') \<and> pend b' = r \<and> bad b' = bad b"
begin

lemma pend_writes [simp]:
  "pend (wU8 z v8 b) = pend b @ eU8 w v8"
  "pend (wU16 z v16 b) = pend b @ eU16 w v16"
  "pend (wU32 z v32 b) = pend b @ eU32 w v32"
  "pend (wU64 z v64 b) = pend b @ eU64 w v64"
  "pend (wFloat z x b) = pend b @ eFloat w x"
  "pend (wString z s b) = pend b @ eString w s"
  "pend (wBool z f b) = pend b @ eBool w f"
  "pend (wVarInt z n b) = pend b @ eVarInt w n"
  "pend (wBytes z bs b) = pend b @ bs"
  "pend (wIntFlag z f b) = pend b @ eFlag w f"
  by (simp_all add: wU8_def wU16_def wU32_def wU64_def wFloat_def wString_def wBool_def
      wVarInt_def wBytes_def wIntFlag_def wrInt wrFloat wrString wrBool wrVarInt wrBytes)

lemma bad_writes [simp]:
  "bad (wU8 z v8 b) = bad b"
  "bad (wU16 z v16 b) = bad b"
  "bad (wU32 z v32 b) = bad b"
  "bad (wU64 z v64 b) = bad b"
  "bad (wFloat z x b) = bad b"
  "bad (wString z s b) = bad b"
  "bad (wBool z f b) = bad b"
  "bad (wVarInt z n b) = bad b"
  "bad (wBytes z bs b) = bad b"
  "bad (wIntFlag z f b) = bad b"
  by (simp_all add: wU8_def wU16_def wU32_def wU64_def wFloat_def wString_def wBool_def
      wVarInt_def wBytes_def wIntFlag_def wrInt wrFloat wrString wrBool wrVarInt wrBytes)

text \<open>
  The reads in elimination form: the encoding at the head of the pending bytes is consumed and
  the rest of the deserializer runs on what follows. A deserializer with any number of fields
  is proved against its serializer by eliminating one field after the other.
\<close>

lemma rU8E:
  assumes "pend b = eU8 w v @ r"
    and "\<And>b'. pend b' = r \<Longrightarrow> bad b' = bad b \<Longrightarrow> P (f v b')"
  shows "P (case rU8 z b of (x, b') \<Rightarrow> f x b')"
proof -
  have "unat v < 256 ^ 1" by (rule order.strict_trans2 [OF unsigned_less]) simp
  from rdInt [OF this assms(1)] assms(2) show ?thesis by (auto simp: rU8_def)
qed

lemma rU16E:
  assumes "pend b = eU16 w v @ r"
    and "\<And>b'. pend b' = r \<Longrightarrow> bad b' = bad b \<Longrightarrow> P (f v b')"
  shows "P (case rU16 z b of (x, b') \<Rightarrow> f x b')"
proof -
  have "unat v < 256 ^ 2" by (rule order.strict_trans2 [OF unsigned_less]) simp
  from rdInt [OF this assms(1)] assms(2) show ?thesis by (auto simp: rU16_def)
qed

lemma rU32E:
  assumes "pend b = eU32 w v @ r"
    and "\<And>b'. pend b' = r \<Longrightarrow> bad b' = bad b \<Longrightarrow> P (f v b')"
  shows "P (case rU32 z b of (x, b') \<Rightarrow> f x b')"
proof -
  have "unat v < 256 ^ 4" by (rule order.strict_trans2 [OF unsigned_less]) simp
  from rdInt [OF this assms(1)] assms(2) show ?thesis by (auto simp: rU32_def)
qed

lemma rU64E:
  assumes "pend b = eU64 w v @ r"
    and "\<And>b'. pend b' = r \<Longrightarrow> bad b' = bad b \<Longrightarrow> P (f v b')"
  shows "P (case rU64 z b of (x, b') \<Rightarrow> f x b')"
proof -
  have "unat v < 256 ^ 8" by (rule order.strict_trans2 [OF unsigned_less]) simp
  from rdInt [OF this assms(1)] assms(2) show ?thesis by (auto simp: rU64_def)
qed

lemma rIntFlagE:
  assumes "pend b = eFlag w v @ r"
    and "\<And>b'. pend b' = r \<Longrightarrow> bad b' = bad b \<Longrightarrow> P (f v b')"
  shows "P (case rIntFlag z b of (x, b') \<Rightarrow> f x b')"
proof -
  have "P (case rU32 z b of (x, b') \<Rightarrow> f (x \<noteq> 0) b')"
    by (rule rU32E [OF assms(1)]) (use assms(2) in auto)
  then show ?thesis by (simp add: rIntFlag_def case_prod_beta)
qed

lemma rdFloatE:
  assumes "pend b = eFloat w v @ r"
    and "\<And>b'. pend b' = r \<Longrightarrow> bad b' = bad b \<Longrightarrow> P (f v b')"
  shows "P (case rdFloat z b of (x, b') \<Rightarrow> f x b')"
  using rdFloat [OF assms(1)] assms(2) by auto

lemma rdStringE:
  assumes "pend b = eString w v @ r"
    and "\<And>b'. pend b' = r \<Longrightarrow> bad b' = bad b \<Longrightarrow> P (f v b')"
  shows "P (case rdString z b of (x, b') \<Rightarrow> f x b')"
  using rdString [OF assms(1)] assms(2) by auto

lemma rdBoolE:
  assumes "pend b = eBool w v @ r"
    and "\<And>b'. pend b' = r \<Longrightarrow> bad b' = bad b \<Longrightarrow> P (f v b')"
  shows "P (case rdBool z b of (x, b') \<Rightarrow> f x b')"
  using rdBool [OF assms(1)] assms(2) by auto

lemma rdVarIntE:
  assumes "pend b = eVarInt w v @ r"
    and "\<And>b'. pend b' = r \<Longrightarrow> bad b' = bad b \<Longrightarrow> P (f v b')"
  shows "P (case rdVarInt z b of (x, b') \<Rightarrow> f x b')"
  using rdVarInt [OF assms(1)] assms(2) by auto

lemma rdBytesE:
  assumes "pend b = v @ r" and "length v = n"
    and "\<And>b'. pend b' = r \<Longrightarrow> bad b' = bad b \<Longrightarrow> P (f v b')"
  shows "P (case rdBytes z n b of (x, b') \<Rightarrow> f x b')"
  using rdBytes [OF assms(1)] assms(2,3) by auto

lemmas readE = rU8E rU16E rU32E rU64E rIntFlagE rdFloatE rdStringE rdBoolE rdVarIntE

lemmas wire_elims [wire_elims] = readE [where P = "\<lambda>x. x = res" for res]

lemmas wire_reads [wire_reads] =
  readE [where P = "\<lambda>x. \<exists>b'. x = (v', b') \<and> pend b' = r' \<and> bad b' = e" for v' r' e]

lemma no_error [simp]:
  "\<not> bad b \<Longrightarrow> (case getAndClearLastError z b of (e, b') \<Rightarrow> f e b') =
     f False (snd (getAndClearLastError z b))"
  using error_read [of b] by (cases "getAndClearLastError z b") auto

lemma eString_Suc [simp]: "Suc 0 \<le> length (eString w s)"
  using eString_length [of s] by (simp add: Suc_le_eq)

lemmas error_simps [simp] = readable error_pend error_clear eInt_length

end

subsection \<open>A buffer that satisfies the laws\<close>

text \<open>
  A byte list and an error flag. Integers are little endian, a varint is LEB128, a string is
  its length as a varint followed by its characters, a float is the four bytes of its pattern.
  Reading past the end returns zero and raises the flag.
\<close>

type_synonym mem_buffer = "bytes \<times> bool"

fun le_bytes :: "nat \<Rightarrow> nat \<Rightarrow> bytes" where
  "le_bytes 0 n = []"
| "le_bytes (Suc k) n = word_of_nat (n mod 256) # le_bytes k (n div 256)"

fun le_value :: "bytes \<Rightarrow> nat" where
  "le_value [] = 0"
| "le_value (x # xs) = unat x + 256 * le_value xs"

fun leb_bytes :: "nat \<Rightarrow> bytes" where
  "leb_bytes n = (if n < 128 then [word_of_nat n] else word_of_nat (128 + n mod 128) # leb_bytes (n div 128))"

declare leb_bytes.simps [simp del]

fun leb_value :: "bytes \<Rightarrow> (nat \<times> bytes) option" where
  "leb_value [] = None"
| "leb_value (x # xs) = (if unat x < 128 then Some (unat x, xs)
     else map_option (\<lambda>(n, r). (unat x - 128 + 128 * n, r)) (leb_value xs))"

definition char_byte :: "char \<Rightarrow> u8" where
  "char_byte c = word_of_nat (of_char c)"

definition byte_char :: "u8 \<Rightarrow> char" where
  "byte_char x = char_of (unat x)"

definition mem_read :: "nat \<Rightarrow> mem_buffer \<Rightarrow> bytes \<times> mem_buffer" where
  "mem_read k b = (if k \<le> length (fst b) then (take k (fst b), (drop k (fst b), snd b))
     else ([], ([], True)))"

definition mem_rdVar :: "mem_buffer \<Rightarrow> nat \<times> mem_buffer" where
  "mem_rdVar b = (case leb_value (fst b) of None \<Rightarrow> (0, ([], True)) | Some (n, r) \<Rightarrow> (n, (r, snd b)))"

definition mem_wire :: "u32 wire" where
  "mem_wire = \<lparr>eInt = le_bytes, eFloat = (\<lambda>x. le_bytes 4 (unat x)),
     eString = (\<lambda>s. leb_bytes (length s) @ map char_byte s),
     eBool = (\<lambda>f. [if f then 1 else 0]), eVarInt = leb_bytes\<rparr>"

definition mem_ops :: "(mem_buffer, u32) bufops" where
  "mem_ops = \<lparr>wrInt = (\<lambda>k b n. (fst b @ le_bytes k n, snd b)),
     rdInt = (\<lambda>k b. case mem_read k b of (bs, b') \<Rightarrow> (le_value bs, b')),
     wrFloat = (\<lambda>b x. (fst b @ le_bytes 4 (unat x), snd b)),
     rdFloat = (\<lambda>b. case mem_read 4 b of (bs, b') \<Rightarrow> (word_of_nat (le_value bs), b')),
     wrString = (\<lambda>b s. (fst b @ leb_bytes (length s) @ map char_byte s, snd b)),
     rdString = (\<lambda>b. case mem_rdVar b of (n, b') \<Rightarrow>
        (case mem_read n b' of (bs, b'') \<Rightarrow> (map byte_char bs, b''))),
     wrBool = (\<lambda>b f. (fst b @ [if f then 1 else 0], snd b)),
     rdBool = (\<lambda>b. case mem_read 1 b of (bs, b') \<Rightarrow> (bs = [1], b')),
     wrVarInt = (\<lambda>b n. (fst b @ leb_bytes n, snd b)),
     rdVarInt = mem_rdVar,
     wrBytes = (\<lambda>b bs. (fst b @ bs, snd b)),
     rdBytes = mem_read,
     readable_bytes = (\<lambda>b. length (fst b)),
     getAndClearLastError = (\<lambda>b. (snd b, (fst b, False)))\<rparr>"

lemma le_bytes_length [simp]: "length (le_bytes k n) = k"
  by (induction k arbitrary: n) auto

lemma le_value_bytes: "n < 256 ^ k \<Longrightarrow> le_value (le_bytes k n) = n"
proof (induction k arbitrary: n)
  case (Suc k)
  have "n div 256 < 256 ^ k" using Suc.prems by (simp add: less_mult_imp_div_less mult.commute)
  with Suc.IH show ?case by (simp add: unsigned_of_nat take_bit_eq_mod)
qed simp

lemma leb_bytes_nonempty [simp]: "leb_bytes n \<noteq> []"
  by (subst leb_bytes.simps) simp

lemma leb_value_bytes: "leb_value (leb_bytes n @ r) = Some (n, r)"
proof (induction n rule: leb_bytes.induct)
  case (1 n)
  show ?case
  proof (cases "n < 128")
    case True
    then show ?thesis by (subst leb_bytes.simps) (simp add: unsigned_of_nat take_bit_eq_mod)
  next
    case False
    have "unat (word_of_nat (128 + n mod 128) :: u8) = 128 + n mod 128"
      by (simp add: unsigned_of_nat take_bit_nat_eq_self del: of_nat_add)
    with False 1 show ?thesis
      by (subst leb_bytes.simps) (simp del: of_nat_add)
  qed
qed

lemma byte_char_byte [simp]: "byte_char (char_byte c) = c"
  by (simp add: byte_char_def char_byte_def unsigned_of_nat take_bit_eq_mod)

lemma mem_read_append: "length xs = k \<Longrightarrow> fst b = xs @ r \<Longrightarrow> mem_read k b = (xs, (r, snd b))"
  by (simp add: mem_read_def)

interpretation mem: znet_buffer mem_ops fst snd mem_wire
proof (unfold_locales, goal_cases)
  case (19 n k b r)
  then show ?case
    by (simp add: mem_ops_def mem_wire_def mem_read_append [of "le_bytes k n"] le_value_bytes)
next
  case (20 b x r)
  have "unat x < 256 ^ 4" by (rule order.strict_trans2 [OF unsigned_less]) simp
  with 20 show ?case
    by (simp add: mem_ops_def mem_wire_def mem_read_append [of "le_bytes 4 (unat x)"] le_value_bytes)
next
  case (21 b s r)
  then show ?case
    by (simp add: mem_ops_def mem_wire_def mem_rdVar_def leb_value_bytes
        mem_read_append [of "map char_byte s"] comp_def)
next
  case (22 b f r)
  then show ?case
    by (simp add: mem_ops_def mem_wire_def mem_read_append [of "[if f then 1 else 0]"])
next
  case (23 b n r)
  then show ?case by (simp add: mem_ops_def mem_wire_def mem_rdVar_def leb_value_bytes)
next
  case (24 b bs r)
  then show ?case by (simp add: mem_ops_def mem_read_append)
qed (simp_all add: mem_ops_def mem_wire_def)

end
