(* ===== verification/GamePackets.thy ===== *)
theory GamePackets
  imports Znet_Buffer
begin

section \<open>The game protocol\<close>

text \<open>
  \<open>GamePackets.h\<close> and \<open>gipMultiplayerTypes.h\<close>: every packet the game exchanges, with its
  serializer and deserializer. The deserializers of this protocol check nothing, so they
  return a packet and the rest of the buffer. \<open>LobbyStatePacket\<close> and \<open>PlayerPingSnapshotPacket\<close>
  hold parallel vectors; their serializers index one vector with the size of another, which is
  undefined when they differ, and is \<open>None\<close> here.
\<close>

record RoomPlayerInfo =
  rp_id :: u32
  rp_name :: string
  rp_team :: u8
  rp_isReady :: bool

definition CHAT_ALL :: u8 where "CHAT_ALL = 0"
definition CHAT_TEAM :: u8 where "CHAT_TEAM = 1"
definition CHAT_PRIVATE :: u8 where "CHAT_PRIVATE = 2"
definition CHAT_SYSTEM :: u8 where "CHAT_SYSTEM = 3"
definition CHAT_KILL :: u8 where "CHAT_KILL = 4"

subsection \<open>Packets of fixed layout\<close>

record PingPacket =
  pi_timestamp :: u64
  pi_reportedPing :: u32

definition Ping_serialize :: "('b, 'f) bufops \<Rightarrow> PingPacket \<Rightarrow> 'b \<Rightarrow> 'b" where
  "Ping_serialize z p b =
     (let b = wU64 z (pi_timestamp p) b;
          b = wU32 z (pi_reportedPing p) b in b)"

definition Ping_deserialize :: "('b, 'f) bufops \<Rightarrow> 'b \<Rightarrow> PingPacket \<times> 'b" where
  "Ping_deserialize z b =
     (let (timestamp, b) = rU64 z b;
          (reportedPing, b) = rU32 z b
      in (\<lparr>pi_timestamp = timestamp, pi_reportedPing = reportedPing\<rparr>, b))"

record PongPacket =
  po_timestamp :: u64

definition Pong_serialize :: "('b, 'f) bufops \<Rightarrow> PongPacket \<Rightarrow> 'b \<Rightarrow> 'b" where
  "Pong_serialize z p b =
     (let b = wU64 z (po_timestamp p) b in b)"

definition Pong_deserialize :: "('b, 'f) bufops \<Rightarrow> 'b \<Rightarrow> PongPacket \<times> 'b" where
  "Pong_deserialize z b =
     (let (timestamp, b) = rU64 z b
      in (\<lparr>po_timestamp = timestamp\<rparr>, b))"

record 'f NodeStatePacket =
  ns_netid :: u32
  ns_x :: "'f"
  ns_y :: "'f"
  ns_z :: "'f"
  ns_yaw :: "'f"
  ns_team :: u8
  ns_animState :: u8

definition NodeState_serialize :: "('b, 'f) bufops \<Rightarrow> 'f NodeStatePacket \<Rightarrow> 'b \<Rightarrow> 'b" where
  "NodeState_serialize z p b =
     (let b = wU32 z (ns_netid p) b;
          b = wFloat z (ns_x p) b;
          b = wFloat z (ns_y p) b;
          b = wFloat z (ns_z p) b;
          b = wFloat z (ns_yaw p) b;
          b = wU8 z (ns_team p) b;
          b = wU8 z (ns_animState p) b in b)"

definition NodeState_deserialize :: "('b, 'f) bufops \<Rightarrow> 'b \<Rightarrow> 'f NodeStatePacket \<times> 'b" where
  "NodeState_deserialize z b =
     (let (netid, b) = rU32 z b;
          (x, b) = rdFloat z b;
          (y, b) = rdFloat z b;
          (zpos, b) = rdFloat z b;
          (yaw, b) = rdFloat z b;
          (team, b) = rU8 z b;
          (animState, b) = rU8 z b
      in (\<lparr>ns_netid = netid, ns_x = x, ns_y = y, ns_z = zpos, ns_yaw = yaw, ns_team = team, ns_animState = animState\<rparr>, b))"

record NodeLeavePacket =
  nl_netid :: u32

definition NodeLeave_serialize :: "('b, 'f) bufops \<Rightarrow> NodeLeavePacket \<Rightarrow> 'b \<Rightarrow> 'b" where
  "NodeLeave_serialize z p b =
     (let b = wU32 z (nl_netid p) b in b)"

definition NodeLeave_deserialize :: "('b, 'f) bufops \<Rightarrow> 'b \<Rightarrow> NodeLeavePacket \<times> 'b" where
  "NodeLeave_deserialize z b =
     (let (netid, b) = rU32 z b
      in (\<lparr>nl_netid = netid\<rparr>, b))"

record 'f PlayerFirePacket =
  pf_shooterId :: u32
  pf_gunType :: u8
  pf_originX :: "'f"
  pf_originY :: "'f"
  pf_originZ :: "'f"
  pf_dirX :: "'f"
  pf_dirY :: "'f"
  pf_dirZ :: "'f"

definition PlayerFire_serialize :: "('b, 'f) bufops \<Rightarrow> 'f PlayerFirePacket \<Rightarrow> 'b \<Rightarrow> 'b" where
  "PlayerFire_serialize z p b =
     (let b = wU32 z (pf_shooterId p) b;
          b = wU8 z (pf_gunType p) b;
          b = wFloat z (pf_originX p) b;
          b = wFloat z (pf_originY p) b;
          b = wFloat z (pf_originZ p) b;
          b = wFloat z (pf_dirX p) b;
          b = wFloat z (pf_dirY p) b;
          b = wFloat z (pf_dirZ p) b in b)"

definition PlayerFire_deserialize :: "('b, 'f) bufops \<Rightarrow> 'b \<Rightarrow> 'f PlayerFirePacket \<times> 'b" where
  "PlayerFire_deserialize z b =
     (let (shooterId, b) = rU32 z b;
          (gunType, b) = rU8 z b;
          (originX, b) = rdFloat z b;
          (originY, b) = rdFloat z b;
          (originZ, b) = rdFloat z b;
          (dirX, b) = rdFloat z b;
          (dirY, b) = rdFloat z b;
          (dirZ, b) = rdFloat z b
      in (\<lparr>pf_shooterId = shooterId, pf_gunType = gunType, pf_originX = originX, pf_originY = originY, pf_originZ = originZ, pf_dirX = dirX, pf_dirY = dirY, pf_dirZ = dirZ\<rparr>, b))"

record 'f PlayerHitPacket =
  ph_attackerId :: u32
  ph_victimId :: u32
  ph_damage :: "'f"

definition PlayerHit_serialize :: "('b, 'f) bufops \<Rightarrow> 'f PlayerHitPacket \<Rightarrow> 'b \<Rightarrow> 'b" where
  "PlayerHit_serialize z p b =
     (let b = wU32 z (ph_attackerId p) b;
          b = wU32 z (ph_victimId p) b;
          b = wFloat z (ph_damage p) b in b)"

definition PlayerHit_deserialize :: "('b, 'f) bufops \<Rightarrow> 'b \<Rightarrow> 'f PlayerHitPacket \<times> 'b" where
  "PlayerHit_deserialize z b =
     (let (attackerId, b) = rU32 z b;
          (victimId, b) = rU32 z b;
          (damage, b) = rdFloat z b
      in (\<lparr>ph_attackerId = attackerId, ph_victimId = victimId, ph_damage = damage\<rparr>, b))"

record PlayerKilledPacket =
  pk_killerId :: u32
  pk_victimId :: u32

definition PlayerKilled_serialize :: "('b, 'f) bufops \<Rightarrow> PlayerKilledPacket \<Rightarrow> 'b \<Rightarrow> 'b" where
  "PlayerKilled_serialize z p b =
     (let b = wU32 z (pk_killerId p) b;
          b = wU32 z (pk_victimId p) b in b)"

definition PlayerKilled_deserialize :: "('b, 'f) bufops \<Rightarrow> 'b \<Rightarrow> PlayerKilledPacket \<times> 'b" where
  "PlayerKilled_deserialize z b =
     (let (killerId, b) = rU32 z b;
          (victimId, b) = rU32 z b
      in (\<lparr>pk_killerId = killerId, pk_victimId = victimId\<rparr>, b))"

record ServerQueryResPacket =
  sq_lobbyName :: string
  sq_format :: string
  sq_sizeStr :: string
  sq_isDedicated :: bool
  sq_matchInProgress :: bool

definition ServerQueryRes_serialize :: "('b, 'f) bufops \<Rightarrow> ServerQueryResPacket \<Rightarrow> 'b \<Rightarrow> 'b" where
  "ServerQueryRes_serialize z p b =
     (let b = wString z (sq_lobbyName p) b;
          b = wString z (sq_format p) b;
          b = wString z (sq_sizeStr p) b;
          b = wIntFlag z (sq_isDedicated p) b;
          b = wIntFlag z (sq_matchInProgress p) b in b)"

definition ServerQueryRes_deserialize :: "('b, 'f) bufops \<Rightarrow> 'b \<Rightarrow> ServerQueryResPacket \<times> 'b" where
  "ServerQueryRes_deserialize z b =
     (let (lobbyName, b) = rdString z b;
          (format', b) = rdString z b;
          (sizeStr, b) = rdString z b;
          (isDedicated, b) = rIntFlag z b;
          (matchInProgress, b) = rIntFlag z b
      in (\<lparr>sq_lobbyName = lobbyName, sq_format = format', sq_sizeStr = sizeStr, sq_isDedicated = isDedicated, sq_matchInProgress = matchInProgress\<rparr>, b))"

record LobbyJoinPacket =
  lj_senderId :: u32
  lj_playerName :: string
  lj_password :: string

definition LobbyJoin_serialize :: "('b, 'f) bufops \<Rightarrow> LobbyJoinPacket \<Rightarrow> 'b \<Rightarrow> 'b" where
  "LobbyJoin_serialize z p b =
     (let b = wU32 z (lj_senderId p) b;
          b = wString z (lj_playerName p) b;
          b = wString z (lj_password p) b in b)"

definition LobbyJoin_deserialize :: "('b, 'f) bufops \<Rightarrow> 'b \<Rightarrow> LobbyJoinPacket \<times> 'b" where
  "LobbyJoin_deserialize z b =
     (let (senderId, b) = rU32 z b;
          (playerName, b) = rdString z b;
          (password, b) = rdString z b
      in (\<lparr>lj_senderId = senderId, lj_playerName = playerName, lj_password = password\<rparr>, b))"

record ToggleReadyPacket =
  tr_senderId :: u32

definition ToggleReady_serialize :: "('b, 'f) bufops \<Rightarrow> ToggleReadyPacket \<Rightarrow> 'b \<Rightarrow> 'b" where
  "ToggleReady_serialize z p b =
     (let b = wU32 z (tr_senderId p) b in b)"

definition ToggleReady_deserialize :: "('b, 'f) bufops \<Rightarrow> 'b \<Rightarrow> ToggleReadyPacket \<times> 'b" where
  "ToggleReady_deserialize z b =
     (let (senderId, b) = rU32 z b
      in (\<lparr>tr_senderId = senderId\<rparr>, b))"

record SwitchTeamPacket =
  sw_senderId :: u32
  sw_teamId :: u8

definition SwitchTeam_serialize :: "('b, 'f) bufops \<Rightarrow> SwitchTeamPacket \<Rightarrow> 'b \<Rightarrow> 'b" where
  "SwitchTeam_serialize z p b =
     (let b = wU32 z (sw_senderId p) b;
          b = wU8 z (sw_teamId p) b in b)"

definition SwitchTeam_deserialize :: "('b, 'f) bufops \<Rightarrow> 'b \<Rightarrow> SwitchTeamPacket \<times> 'b" where
  "SwitchTeam_deserialize z b =
     (let (senderId, b) = rU32 z b;
          (teamId, b) = rU8 z b
      in (\<lparr>sw_senderId = senderId, sw_teamId = teamId\<rparr>, b))"

record LobbyKickPacket =
  lk_reason :: string

definition LobbyKick_serialize :: "('b, 'f) bufops \<Rightarrow> LobbyKickPacket \<Rightarrow> 'b \<Rightarrow> 'b" where
  "LobbyKick_serialize z p b =
     (let b = wString z (lk_reason p) b in b)"

definition LobbyKick_deserialize :: "('b, 'f) bufops \<Rightarrow> 'b \<Rightarrow> LobbyKickPacket \<times> 'b" where
  "LobbyKick_deserialize z b =
     (let (reason, b) = rdString z b
      in (\<lparr>lk_reason = reason\<rparr>, b))"

record ChatMessagePacket =
  ch_senderId :: u32
  ch_targetId :: u32
  ch_channel :: u8
  ch_senderName :: string
  ch_text :: string

definition ChatMessage_serialize :: "('b, 'f) bufops \<Rightarrow> ChatMessagePacket \<Rightarrow> 'b \<Rightarrow> 'b" where
  "ChatMessage_serialize z p b =
     (let b = wU32 z (ch_senderId p) b;
          b = wU32 z (ch_targetId p) b;
          b = wU8 z (ch_channel p) b;
          b = wString z (ch_senderName p) b;
          b = wString z (ch_text p) b in b)"

definition ChatMessage_deserialize :: "('b, 'f) bufops \<Rightarrow> 'b \<Rightarrow> ChatMessagePacket \<times> 'b" where
  "ChatMessage_deserialize z b =
     (let (senderId, b) = rU32 z b;
          (targetId, b) = rU32 z b;
          (channel, b) = rU8 z b;
          (senderName, b) = rdString z b;
          (text, b) = rdString z b
      in (\<lparr>ch_senderId = senderId, ch_targetId = targetId, ch_channel = channel, ch_senderName = senderName, ch_text = text\<rparr>, b))"

text \<open>Packets without fields. A server query carries one dummy byte.\<close>

definition KeepAlive_serialize :: "('b, 'f) bufops \<Rightarrow> 'b \<Rightarrow> 'b" where
  "KeepAlive_serialize z b = b"

definition KeepAlive_deserialize :: "('b, 'f) bufops \<Rightarrow> 'b \<Rightarrow> 'b" where
  "KeepAlive_deserialize z b = b"

definition StartMatch_serialize :: "('b, 'f) bufops \<Rightarrow> 'b \<Rightarrow> 'b" where
  "StartMatch_serialize z b = b"

definition StartMatch_deserialize :: "('b, 'f) bufops \<Rightarrow> 'b \<Rightarrow> 'b" where
  "StartMatch_deserialize z b = b"

definition ServerQueryReq_serialize :: "('b, 'f) bufops \<Rightarrow> 'b \<Rightarrow> 'b" where
  "ServerQueryReq_serialize z b = wU8 z 1 b"

definition ServerQueryReq_deserialize :: "('b, 'f) bufops \<Rightarrow> 'b \<Rightarrow> 'b" where
  "ServerQueryReq_deserialize z b = (let (_, b) = rU8 z b in b)"

subsection \<open>Lobby state\<close>

record LobbyStatePacket =
  ls_isGlobalServer :: bool
  ls_matchInProgress :: bool
  ls_roomCode :: string
  ls_playerIds :: "u32 list"
  ls_playerNames :: "string list"
  ls_playerTeams :: "u8 list"
  ls_playerReadys :: "u8 list"

fun write_lobby_entries ::
  "('b, 'f) bufops \<Rightarrow> u32 list \<Rightarrow> string list \<Rightarrow> u8 list \<Rightarrow> u8 list \<Rightarrow> 'b \<Rightarrow> 'b option" where
  "write_lobby_entries z [] names teams readys b = Some b"
| "write_lobby_entries z (i # ids) (n # names) (t # teams) (r # readys) b =
     (let b = wU32 z i b; b = wString z n b; b = wU8 z t b; b = wU8 z r b
      in write_lobby_entries z ids names teams readys b)"
| "write_lobby_entries z (i # ids) names teams readys b = None"

definition LobbyState_serialize :: "('b, 'f) bufops \<Rightarrow> LobbyStatePacket \<Rightarrow> 'b \<Rightarrow> 'b option" where
  "LobbyState_serialize z p b =
     (let b = wBool z (ls_isGlobalServer p) b;
          b = wBool z (ls_matchInProgress p) b;
          b = wString z (ls_roomCode p) b;
          b = wVarInt z (length (ls_playerIds p)) b
      in write_lobby_entries z (ls_playerIds p) (ls_playerNames p) (ls_playerTeams p)
           (ls_playerReadys p) b)"

fun read_lobby_entries ::
  "('b, 'f) bufops \<Rightarrow> nat \<Rightarrow> LobbyStatePacket \<Rightarrow> 'b \<Rightarrow> LobbyStatePacket \<times> 'b" where
  "read_lobby_entries z 0 p b = (p, b)"
| "read_lobby_entries z (Suc n) p b =
     (let (i, b) = rU32 z b; (name, b) = rdString z b; (team, b) = rU8 z b; (ready, b) = rU8 z b
      in read_lobby_entries z n (p\<lparr>ls_playerIds := ls_playerIds p @ [i],
           ls_playerNames := ls_playerNames p @ [name], ls_playerTeams := ls_playerTeams p @ [team],
           ls_playerReadys := ls_playerReadys p @ [ready]\<rparr>) b)"

definition LobbyState_deserialize :: "('b, 'f) bufops \<Rightarrow> 'b \<Rightarrow> LobbyStatePacket \<times> 'b" where
  "LobbyState_deserialize z b =
     (let (isGlobalServer, b) = rdBool z b;
          (matchInProgress, b) = rdBool z b;
          (roomCode, b) = rdString z b;
          (count, b) = rdVarInt z b;
          p = \<lparr>ls_isGlobalServer = isGlobalServer, ls_matchInProgress = matchInProgress,
            ls_roomCode = roomCode, ls_playerIds = [], ls_playerNames = [], ls_playerTeams = [],
            ls_playerReadys = []\<rparr>
      in if count > readable_bytes z b then (p, b) else read_lobby_entries z count p b)"

subsection \<open>Ping snapshot\<close>

record PlayerPingSnapshotPacket =
  pp_playerIds :: "u32 list"
  pp_playerPings :: "u32 list"

fun write_ping_entries :: "('b, 'f) bufops \<Rightarrow> u32 list \<Rightarrow> u32 list \<Rightarrow> 'b \<Rightarrow> 'b option" where
  "write_ping_entries z [] pings b = Some b"
| "write_ping_entries z (i # ids) (g # pings) b =
     (let b = wU32 z i b; b = wU32 z g b in write_ping_entries z ids pings b)"
| "write_ping_entries z (i # ids) [] b = None"

definition PlayerPingSnapshot_serialize ::
  "('b, 'f) bufops \<Rightarrow> PlayerPingSnapshotPacket \<Rightarrow> 'b \<Rightarrow> 'b option" where
  "PlayerPingSnapshot_serialize z p b =
     (let b = wVarInt z (length (pp_playerIds p)) b
      in write_ping_entries z (pp_playerIds p) (pp_playerPings p) b)"

fun read_ping_entries ::
  "('b, 'f) bufops \<Rightarrow> nat \<Rightarrow> PlayerPingSnapshotPacket \<Rightarrow> 'b \<Rightarrow> PlayerPingSnapshotPacket \<times> 'b" where
  "read_ping_entries z 0 p b = (p, b)"
| "read_ping_entries z (Suc n) p b =
     (let (i, b) = rU32 z b; (g, b) = rU32 z b
      in read_ping_entries z n (p\<lparr>pp_playerIds := pp_playerIds p @ [i],
           pp_playerPings := pp_playerPings p @ [g]\<rparr>) b)"

definition PlayerPingSnapshot_deserialize ::
  "('b, 'f) bufops \<Rightarrow> 'b \<Rightarrow> PlayerPingSnapshotPacket \<times> 'b" where
  "PlayerPingSnapshot_deserialize z b =
     (let (count, b) = rdVarInt z b;
          p = \<lparr>pp_playerIds = [], pp_playerPings = []\<rparr>
      in if count > readable_bytes z b then (p, b) else read_ping_entries z count p b)"

subsection \<open>The protocol as one type\<close>

datatype 'f game_packet =
  NodeState "'f NodeStatePacket" | NodeLeave NodeLeavePacket | PlayerFire "'f PlayerFirePacket"
| PlayerHit "'f PlayerHitPacket" | PlayerKilled PlayerKilledPacket | ServerQueryReq
| ServerQueryRes ServerQueryResPacket | LobbyJoin LobbyJoinPacket | LobbyState LobbyStatePacket
| ToggleReady ToggleReadyPacket | SwitchTeam SwitchTeamPacket | StartMatch
| LobbyKick LobbyKickPacket | KeepAlive | Ping PingPacket | Pong PongPacket
| ChatMessage ChatMessagePacket | PlayerPingSnapshot PlayerPingSnapshotPacket

text \<open>The ids are the positions in the source's enumeration.\<close>

fun packet_id :: "'f game_packet \<Rightarrow> u64" where
  "packet_id (NodeState _) = 0"
| "packet_id (NodeLeave _) = 1"
| "packet_id (PlayerFire _) = 2"
| "packet_id (PlayerHit _) = 3"
| "packet_id (PlayerKilled _) = 4"
| "packet_id ServerQueryReq = 5"
| "packet_id (ServerQueryRes _) = 6"
| "packet_id (LobbyJoin _) = 7"
| "packet_id (LobbyState _) = 8"
| "packet_id (ToggleReady _) = 9"
| "packet_id (SwitchTeam _) = 10"
| "packet_id StartMatch = 11"
| "packet_id (LobbyKick _) = 12"
| "packet_id KeepAlive = 13"
| "packet_id (Ping _) = 14"
| "packet_id (Pong _) = 15"
| "packet_id (ChatMessage _) = 16"
| "packet_id (PlayerPingSnapshot _) = 17"

text \<open>A codec holds one serializer per packet id; this is the table the backends register.\<close>

fun game_serialize :: "('b, 'f) bufops \<Rightarrow> 'f game_packet \<Rightarrow> 'b \<Rightarrow> 'b option" where
  "game_serialize z (NodeState p) b = Some (NodeState_serialize z p b)"
| "game_serialize z (NodeLeave p) b = Some (NodeLeave_serialize z p b)"
| "game_serialize z (PlayerFire p) b = Some (PlayerFire_serialize z p b)"
| "game_serialize z (PlayerHit p) b = Some (PlayerHit_serialize z p b)"
| "game_serialize z (PlayerKilled p) b = Some (PlayerKilled_serialize z p b)"
| "game_serialize z ServerQueryReq b = Some (ServerQueryReq_serialize z b)"
| "game_serialize z (ServerQueryRes p) b = Some (ServerQueryRes_serialize z p b)"
| "game_serialize z (LobbyJoin p) b = Some (LobbyJoin_serialize z p b)"
| "game_serialize z (LobbyState p) b = LobbyState_serialize z p b"
| "game_serialize z (ToggleReady p) b = Some (ToggleReady_serialize z p b)"
| "game_serialize z (SwitchTeam p) b = Some (SwitchTeam_serialize z p b)"
| "game_serialize z StartMatch b = Some (StartMatch_serialize z b)"
| "game_serialize z (LobbyKick p) b = Some (LobbyKick_serialize z p b)"
| "game_serialize z KeepAlive b = Some (KeepAlive_serialize z b)"
| "game_serialize z (Ping p) b = Some (Ping_serialize z p b)"
| "game_serialize z (Pong p) b = Some (Pong_serialize z p b)"
| "game_serialize z (ChatMessage p) b = Some (ChatMessage_serialize z p b)"
| "game_serialize z (PlayerPingSnapshot p) b = PlayerPingSnapshot_serialize z p b"

definition game_deserialize :: "('b, 'f) bufops \<Rightarrow> u64 \<Rightarrow> 'b \<Rightarrow> ('f game_packet \<times> 'b) option" where
  "game_deserialize z pid b =
     (if pid = 0 then Some (map_prod NodeState id (NodeState_deserialize z b))
      else if pid = 1 then Some (map_prod NodeLeave id (NodeLeave_deserialize z b))
      else if pid = 2 then Some (map_prod PlayerFire id (PlayerFire_deserialize z b))
      else if pid = 3 then Some (map_prod PlayerHit id (PlayerHit_deserialize z b))
      else if pid = 4 then Some (map_prod PlayerKilled id (PlayerKilled_deserialize z b))
      else if pid = 5 then Some (ServerQueryReq, ServerQueryReq_deserialize z b)
      else if pid = 6 then Some (map_prod ServerQueryRes id (ServerQueryRes_deserialize z b))
      else if pid = 7 then Some (map_prod LobbyJoin id (LobbyJoin_deserialize z b))
      else if pid = 8 then Some (map_prod LobbyState id (LobbyState_deserialize z b))
      else if pid = 9 then Some (map_prod ToggleReady id (ToggleReady_deserialize z b))
      else if pid = 10 then Some (map_prod SwitchTeam id (SwitchTeam_deserialize z b))
      else if pid = 11 then Some (StartMatch, StartMatch_deserialize z b)
      else if pid = 12 then Some (map_prod LobbyKick id (LobbyKick_deserialize z b))
      else if pid = 13 then Some (KeepAlive, KeepAlive_deserialize z b)
      else if pid = 14 then Some (map_prod Ping id (Ping_deserialize z b))
      else if pid = 15 then Some (map_prod Pong id (Pong_deserialize z b))
      else if pid = 16 then Some (map_prod ChatMessage id (ChatMessage_deserialize z b))
      else if pid = 17 then Some (map_prod PlayerPingSnapshot id (PlayerPingSnapshot_deserialize z b))
      else None)"

subsection \<open>Round trips\<close>

text \<open>One entry of the two vectors, and the loops as loops over entries.\<close>

fun put_lobby_entry :: "('b, 'f) bufops \<Rightarrow> u32 \<times> string \<times> u8 \<times> u8 \<Rightarrow> 'b \<Rightarrow> 'b" where
  "put_lobby_entry z (i, n, t, r) b = wU8 z r (wU8 z t (wString z n (wU32 z i b)))"

definition get_lobby_entry :: "('b, 'f) bufops \<Rightarrow> 'b \<Rightarrow> (u32 \<times> string \<times> u8 \<times> u8) \<times> 'b" where
  "get_lobby_entry z b = (let (i, b) = rU32 z b; (n, b) = rdString z b; (t, b) = rU8 z b;
     (r, b) = rU8 z b in ((i, n, t, r), b))"

fun put_ping_entry :: "('b, 'f) bufops \<Rightarrow> u32 \<times> u32 \<Rightarrow> 'b \<Rightarrow> 'b" where
  "put_ping_entry z (i, g) b = wU32 z g (wU32 z i b)"

definition get_ping_entry :: "('b, 'f) bufops \<Rightarrow> 'b \<Rightarrow> (u32 \<times> u32) \<times> 'b" where
  "get_ping_entry z b = (let (i, b) = rU32 z b; (g, b) = rU32 z b in ((i, g), b))"

definition lobby_wf :: "LobbyStatePacket \<Rightarrow> bool" where
  "lobby_wf p \<longleftrightarrow> length (ls_playerNames p) = length (ls_playerIds p) \<and>
     length (ls_playerTeams p) = length (ls_playerIds p) \<and>
     length (ls_playerReadys p) = length (ls_playerIds p)"

definition pings_wf :: "PlayerPingSnapshotPacket \<Rightarrow> bool" where
  "pings_wf p \<longleftrightarrow> length (pp_playerPings p) = length (pp_playerIds p)"

lemma write_lobby_entries_fold:
  "write_lobby_entries z (map fst es) (map (fst \<circ> snd) es) (map (fst \<circ> snd \<circ> snd) es)
     (map (snd \<circ> snd \<circ> snd) es) b = Some (fold (put_lobby_entry z) es b)"
  by (induction es arbitrary: b) auto

lemma read_lobby_entries_read_n:
  "read_lobby_entries z n p b = (case read_n (get_lobby_entry z) n b of (es, b') \<Rightarrow>
     (p\<lparr>ls_playerIds := ls_playerIds p @ map fst es, ls_playerNames := ls_playerNames p @ map (fst \<circ> snd) es,
        ls_playerTeams := ls_playerTeams p @ map (fst \<circ> snd \<circ> snd) es,
        ls_playerReadys := ls_playerReadys p @ map (snd \<circ> snd \<circ> snd) es\<rparr>, b'))"
  by (induction n arbitrary: p b)
    (auto simp: get_lobby_entry_def Let_def split: prod.splits)

lemma write_ping_entries_fold:
  "write_ping_entries z (map fst es) (map snd es) b = Some (fold (put_ping_entry z) es b)"
  by (induction es arbitrary: b) auto

lemma read_ping_entries_read_n:
  "read_ping_entries z n p b = (case read_n (get_ping_entry z) n b of (es, b') \<Rightarrow>
     (p\<lparr>pp_playerIds := pp_playerIds p @ map fst es, pp_playerPings := pp_playerPings p @ map snd es\<rparr>, b'))"
  by (induction n arbitrary: p b) (auto simp: get_ping_entry_def Let_def split: prod.splits)

lemma lobby_entries:
  assumes "lobby_wf p"
  obtains es where "ls_playerIds p = map fst es" "ls_playerNames p = map (fst \<circ> snd) es"
    "ls_playerTeams p = map (fst \<circ> snd \<circ> snd) es" "ls_playerReadys p = map (snd \<circ> snd \<circ> snd) es"
proof
  let ?es = "zip (ls_playerIds p) (zip (ls_playerNames p) (zip (ls_playerTeams p) (ls_playerReadys p)))"
  show "ls_playerIds p = map fst ?es" "ls_playerNames p = map (fst \<circ> snd) ?es"
    "ls_playerTeams p = map (fst \<circ> snd \<circ> snd) ?es" "ls_playerReadys p = map (snd \<circ> snd \<circ> snd) ?es"
    using assms by (simp_all add: lobby_wf_def map_map [symmetric] del: map_map)
qed

context znet_buffer
begin

lemmas fixed_packet_defs =
  Ping_serialize_def Ping_deserialize_def
  Pong_serialize_def Pong_deserialize_def
  NodeState_serialize_def NodeState_deserialize_def
  NodeLeave_serialize_def NodeLeave_deserialize_def
  PlayerFire_serialize_def PlayerFire_deserialize_def
  PlayerHit_serialize_def PlayerHit_deserialize_def
  PlayerKilled_serialize_def PlayerKilled_deserialize_def
  ServerQueryRes_serialize_def ServerQueryRes_deserialize_def
  LobbyJoin_serialize_def LobbyJoin_deserialize_def
  ToggleReady_serialize_def ToggleReady_deserialize_def
  SwitchTeam_serialize_def SwitchTeam_deserialize_def
  LobbyKick_serialize_def LobbyKick_deserialize_def
  ChatMessage_serialize_def ChatMessage_deserialize_def

lemma fixed_packets_carry:
  "carries pend bad 1 (Ping_serialize z p0) (Ping_deserialize z) p0"
  "carries pend bad 1 (Pong_serialize z p1) (Pong_deserialize z) p1"
  "carries pend bad 1 (NodeState_serialize z p2) (NodeState_deserialize z) p2"
  "carries pend bad 1 (NodeLeave_serialize z p3) (NodeLeave_deserialize z) p3"
  "carries pend bad 1 (PlayerFire_serialize z p4) (PlayerFire_deserialize z) p4"
  "carries pend bad 1 (PlayerHit_serialize z p5) (PlayerHit_deserialize z) p5"
  "carries pend bad 1 (PlayerKilled_serialize z p6) (PlayerKilled_deserialize z) p6"
  "carries pend bad 1 (ServerQueryRes_serialize z p7) (ServerQueryRes_deserialize z) p7"
  "carries pend bad 1 (LobbyJoin_serialize z p8) (LobbyJoin_deserialize z) p8"
  "carries pend bad 1 (ToggleReady_serialize z p9) (ToggleReady_deserialize z) p9"
  "carries pend bad 1 (SwitchTeam_serialize z p10) (SwitchTeam_deserialize z) p10"
  "carries pend bad 1 (LobbyKick_serialize z p11) (LobbyKick_deserialize z) p11"
  "carries pend bad 1 (ChatMessage_serialize z p12) (ChatMessage_deserialize z) p12"
  unfolding fixed_packet_defs Let_def
  by (rule carriesI, simp del: One_nat_def, simp, (simp only: append_assoc)?, (erule wire_reads)+, simp)+

sublocale lobby_entry: entry_codec pend bad "put_lobby_entry z" "get_lobby_entry z" "\<lambda>x. x"
proof
  show "carries pend bad 1 (put_lobby_entry z x) (get_lobby_entry z) x" for x
    by (cases x, unfold get_lobby_entry_def Let_def, rule carriesI, simp del: One_nat_def, simp,
      (simp only: append_assoc)?, (erule wire_reads)+, simp)
qed

sublocale ping_entry: entry_codec pend bad "put_ping_entry z" "get_ping_entry z" "\<lambda>x. x"
proof
  show "carries pend bad 1 (put_ping_entry z x) (get_ping_entry z) x" for x
    by (cases x, unfold get_ping_entry_def Let_def, rule carriesI, simp del: One_nat_def, simp,
      (simp only: append_assoc)?, (erule wire_reads)+, simp)
qed

lemma LobbyState_carries:
  assumes "lobby_wf p"
  shows "\<exists>put. (\<forall>b. LobbyState_serialize z p b = Some (put b)) \<and>
    carries pend bad 1 put (LobbyState_deserialize z) p"
proof -
  obtain es where es: "ls_playerIds p = map fst es" "ls_playerNames p = map (fst \<circ> snd) es"
    "ls_playerTeams p = map (fst \<circ> snd \<circ> snd) es" "ls_playerReadys p = map (snd \<circ> snd \<circ> snd) es"
    by (rule lobby_entries [OF assms])
  let ?put = "\<lambda>b. fold (put_lobby_entry z) es (wVarInt z (length es) (wString z (ls_roomCode p)
    (wBool z (ls_matchInProgress p) (wBool z (ls_isGlobalServer p) b))))"
  obtain e where e: "\<And>b. pend (fold (put_lobby_entry z) es b) = pend b @ e"
    "\<And>b. bad (fold (put_lobby_entry z) es b) = bad b" "length es \<le> length e"
    "\<And>b r. pend b = e @ r \<Longrightarrow>
      \<exists>b'. read_n (get_lobby_entry z) (length es) b = (es, b') \<and> pend b' = r \<and> bad b' = bad b"
    by (rule carriesE [OF lobby_entry.vector [unfolded list.map_ident]]) blast
  have "LobbyState_serialize z p b = Some (?put b)" for b
    by (simp add: LobbyState_serialize_def es write_lobby_entries_fold Let_def del: o_apply)
  moreover have "carries pend bad 1 ?put (LobbyState_deserialize z) p"
    unfolding LobbyState_deserialize_def Let_def
  proof (rule carriesI [where e = "eBool w (ls_isGlobalServer p) @ eBool w (ls_matchInProgress p) @
      eString w (ls_roomCode p) @ eVarInt w (length es) @ e"], goal_cases)
    case (1 b)
    show ?case by (simp add: e)
  next
    case 2
    show ?case using eString_length [of "ls_roomCode p"] by (simp add: Suc_le_eq)
  next
    case (3 b r)
    then show ?case
      apply (simp only: append_assoc)
      apply (erule wire_reads)+
      subgoal for b1 b2 b3 b4
        using e(3) e(4) [of b4 r] es by (cases p) (auto simp: read_lobby_entries_read_n)
      done
  qed
  ultimately show ?thesis by (intro exI [of _ ?put]) simp
qed

lemma PlayerPingSnapshot_carries:
  assumes "pings_wf p"
  shows "\<exists>put. (\<forall>b. PlayerPingSnapshot_serialize z p b = Some (put b)) \<and>
    carries pend bad 0 put (PlayerPingSnapshot_deserialize z) p"
proof -
  obtain es where es: "pp_playerIds p = map fst es" "pp_playerPings p = map snd es"
    using assms by (metis map_fst_zip map_snd_zip pings_wf_def)
  let ?put = "\<lambda>b. fold (put_ping_entry z) es (wVarInt z (length es) b)"
  obtain e where e: "\<And>b. pend (fold (put_ping_entry z) es b) = pend b @ e"
    "\<And>b. bad (fold (put_ping_entry z) es b) = bad b" "length es \<le> length e"
    "\<And>b r. pend b = e @ r \<Longrightarrow>
      \<exists>b'. read_n (get_ping_entry z) (length es) b = (es, b') \<and> pend b' = r \<and> bad b' = bad b"
    by (rule carriesE [OF ping_entry.vector [unfolded list.map_ident]]) blast
  have "PlayerPingSnapshot_serialize z p b = Some (?put b)" for b
    by (simp add: PlayerPingSnapshot_serialize_def es write_ping_entries_fold Let_def)
  moreover have "carries pend bad 0 ?put (PlayerPingSnapshot_deserialize z) p"
    unfolding PlayerPingSnapshot_deserialize_def Let_def
  proof (rule carriesI [where e = "eVarInt w (length es) @ e"], goal_cases)
    case (1 b)
    show ?case by (simp add: e)
  next
    case (3 b r)
    then show ?case
      apply (simp only: append_assoc)
      apply (erule wire_reads)
      subgoal for b1
        using e(3) e(4) [of b1 r] es by (cases p) (auto simp: read_ping_entries_read_n)
      done
  qed simp
  ultimately show ?thesis by (intro exI [of _ ?put]) simp
qed

end

interpretation mem_lobby_entry: entry_codec fst snd "put_lobby_entry mem_ops" "get_lobby_entry mem_ops" "\<lambda>x. x"
  by (rule mem.lobby_entry.entry_codec_axioms)

fun game_wf :: "'f game_packet \<Rightarrow> bool" where
  "game_wf (LobbyState p) = lobby_wf p"
| "game_wf (PlayerPingSnapshot p) = pings_wf p"
| "game_wf _ = True"

context znet_buffer
begin

definition reads_back :: "'b \<Rightarrow> 'f game_packet \<Rightarrow> bool" where
  "reads_back b packet \<longleftrightarrow> (\<exists>b' b''. game_serialize z packet b = Some b' \<and>
     game_deserialize z (packet_id packet) b' = Some (packet, b'') \<and> pend b'' = [] \<and> bad b'' = bad b)"

lemma carries_reads_back:
  assumes "carries pend bad n put get p" "pend b = []"
    and "game_serialize z packet b = Some (put b)"
    and "\<And>b. game_deserialize z (packet_id packet) b = Some (map_prod con id (get b))" "con p = packet"
  shows "reads_back b packet"
proof -
  obtain e where e: "pend (put b) = pend b @ e" "bad (put b) = bad b"
    "\<And>b r. pend b = e @ r \<Longrightarrow> \<exists>b'. get b = (p, b') \<and> pend b' = r \<and> bad b' = bad b"
    by (rule carriesE [OF assms(1)]) blast
  from e(3) [of "put b" "[]"] e(1,2) assms(2) obtain b' where
    "get (put b) = (p, b')" "pend b' = []" "bad b' = bad b" by auto
  with assms(3,4) show ?thesis by (auto simp: reads_back_def assms(5))
qed

lemma game_reads_back:
  assumes "game_wf packet" "pend b = []"
  shows "reads_back b packet"
proof (cases packet)
  case (LobbyState p)
  with assms(1) LobbyState_carries [of p] obtain put where
    "LobbyState_serialize z p b = Some (put b)" "carries pend bad 1 put (LobbyState_deserialize z) p" by auto
  with assms(2) LobbyState show ?thesis
    by (intro carries_reads_back [where con = LobbyState]) (auto simp: game_deserialize_def)
next
  case (PlayerPingSnapshot p)
  with assms(1) PlayerPingSnapshot_carries [of p] obtain put where
    "PlayerPingSnapshot_serialize z p b = Some (put b)"
    "carries pend bad 0 put (PlayerPingSnapshot_deserialize z) p" by auto
  with assms(2) PlayerPingSnapshot show ?thesis
    by (intro carries_reads_back [where con = PlayerPingSnapshot]) (auto simp: game_deserialize_def)
next
  case ServerQueryReq
  have "pend (ServerQueryReq_serialize z b) = eU8 w 1 @ []"
    using assms(2) by (simp add: ServerQueryReq_serialize_def)
  then have "\<exists>b'. ServerQueryReq_deserialize z (ServerQueryReq_serialize z b) = b' \<and>
      pend b' = [] \<and> bad b' = bad (ServerQueryReq_serialize z b)"
    unfolding ServerQueryReq_deserialize_def Let_def by (rule readE) simp
  then show ?thesis
    by (auto simp: ServerQueryReq reads_back_def game_deserialize_def ServerQueryReq_serialize_def)
next
  case (Ping p)
  then show ?thesis using carries_reads_back [OF fixed_packets_carry(1) assms(2), where packet = packet and con = Ping] by (simp add: game_deserialize_def)
next
  case (Pong p)
  then show ?thesis using carries_reads_back [OF fixed_packets_carry(2) assms(2), where packet = packet and con = Pong] by (simp add: game_deserialize_def)
next
  case (NodeState p)
  then show ?thesis using carries_reads_back [OF fixed_packets_carry(3) assms(2), where packet = packet and con = NodeState] by (simp add: game_deserialize_def)
next
  case (NodeLeave p)
  then show ?thesis using carries_reads_back [OF fixed_packets_carry(4) assms(2), where packet = packet and con = NodeLeave] by (simp add: game_deserialize_def)
next
  case (PlayerFire p)
  then show ?thesis using carries_reads_back [OF fixed_packets_carry(5) assms(2), where packet = packet and con = PlayerFire] by (simp add: game_deserialize_def)
next
  case (PlayerHit p)
  then show ?thesis using carries_reads_back [OF fixed_packets_carry(6) assms(2), where packet = packet and con = PlayerHit] by (simp add: game_deserialize_def)
next
  case (PlayerKilled p)
  then show ?thesis using carries_reads_back [OF fixed_packets_carry(7) assms(2), where packet = packet and con = PlayerKilled] by (simp add: game_deserialize_def)
next
  case (ServerQueryRes p)
  then show ?thesis using carries_reads_back [OF fixed_packets_carry(8) assms(2), where packet = packet and con = ServerQueryRes] by (simp add: game_deserialize_def)
next
  case (LobbyJoin p)
  then show ?thesis using carries_reads_back [OF fixed_packets_carry(9) assms(2), where packet = packet and con = LobbyJoin] by (simp add: game_deserialize_def)
next
  case (ToggleReady p)
  then show ?thesis using carries_reads_back [OF fixed_packets_carry(10) assms(2), where packet = packet and con = ToggleReady] by (simp add: game_deserialize_def)
next
  case (SwitchTeam p)
  then show ?thesis using carries_reads_back [OF fixed_packets_carry(11) assms(2), where packet = packet and con = SwitchTeam] by (simp add: game_deserialize_def)
next
  case (LobbyKick p)
  then show ?thesis using carries_reads_back [OF fixed_packets_carry(12) assms(2), where packet = packet and con = LobbyKick] by (simp add: game_deserialize_def)
next
  case (ChatMessage p)
  then show ?thesis using carries_reads_back [OF fixed_packets_carry(13) assms(2), where packet = packet and con = ChatMessage] by (simp add: game_deserialize_def)
qed (auto simp: reads_back_def game_deserialize_def KeepAlive_serialize_def KeepAlive_deserialize_def
    StartMatch_serialize_def StartMatch_deserialize_def assms(2))

end

lemma read_lobby_vectors:
  "lobby_wf p \<Longrightarrow> lobby_wf (fst (read_lobby_entries z n p b))"
  by (simp add: read_lobby_entries_read_n lobby_wf_def split_beta)

lemma lobby_deserialize_wf: "lobby_wf (fst (LobbyState_deserialize z b))"
  by (auto simp: LobbyState_deserialize_def Let_def split_beta lobby_wf_def
      intro!: read_lobby_vectors [unfolded lobby_wf_def])

subsection \<open>Properties\<close>

text \<open>C7. Every packet of the game protocol survives the wire. Whatever its type, if its parallel
  vectors have equal lengths, the serializer accepts it, and the deserializer the receiver
  looks up under its id returns the same packet, consumes every byte, and raises no error.\<close>

theorem game_roundtrip:
  assumes "znet_buffer z pend bad w" and "game_wf packet" and "pend b = []" and "\<not> bad b"
  shows "\<exists>b' b''. game_serialize z packet b = Some b' \<and>
    game_deserialize z (packet_id packet) b' = Some (packet, b'') \<and> pend b'' = [] \<and> \<not> bad b''"
  using znet_buffer.game_reads_back [OF assms(1-3)] assms(4)
  unfolding znet_buffer.reads_back_def [OF assms(1)] by fastforce

definition example_lobby :: LobbyStatePacket where
  "example_lobby = \<lparr>ls_isGlobalServer = True, ls_matchInProgress = False, ls_roomCode = ''AB12'',
     ls_playerIds = [7, 9], ls_playerNames = [''Ann'', ''''], ls_playerTeams = [1, 2],
     ls_playerReadys = [0, 1]\<rparr>"

lemma game_roundtrip_witness:
  "\<exists>b' b''. game_serialize mem_ops (LobbyState example_lobby) ([], False) = Some b' \<and>
    game_deserialize mem_ops 8 b' = Some (LobbyState example_lobby, b'') \<and> fst b'' = [] \<and> \<not> snd b''"
  using game_roundtrip [OF mem.znet_buffer_axioms, of "LobbyState example_lobby" "([], False)"]
  by (simp add: lobby_wf_def example_lobby_def)

text \<open>Whatever bytes arrive, the lobby and ping packets that come out of the deserializers have
  parallel vectors of equal lengths, so the receiver may index them with one bound, and a ping
  snapshot holds no more entries than the buffer had readable bytes after its count.\<close>

theorem vectors_parallel:
  "length (ls_playerNames (fst (LobbyState_deserialize z b))) = length (ls_playerIds (fst (LobbyState_deserialize z b))) \<and>
   length (ls_playerTeams (fst (LobbyState_deserialize z b))) = length (ls_playerIds (fst (LobbyState_deserialize z b))) \<and>
   length (ls_playerReadys (fst (LobbyState_deserialize z b))) = length (ls_playerIds (fst (LobbyState_deserialize z b))) \<and>
   length (pp_playerPings (fst (PlayerPingSnapshot_deserialize z b))) =
     length (pp_playerIds (fst (PlayerPingSnapshot_deserialize z b))) \<and>
   length (pp_playerIds (fst (PlayerPingSnapshot_deserialize z b))) \<le> readable_bytes z (snd (rdVarInt z b))"
  using lobby_deserialize_wf [of z b]
  by (simp add: lobby_wf_def PlayerPingSnapshot_deserialize_def Let_def read_ping_entries_read_n
      read_n_length split_beta)

end
