(* ===== verification/ChatManager.thy ===== *)
theory ChatManager
  imports GamePackets
begin

section \<open>Chat history and mute list\<close>

text \<open>
  \<open>chat/ChatManager.h\<close> and \<open>.cpp\<close>: what a client sends, keeps and mutes. The age of an entry
  is a float, so its arithmetic is the parameter \<open>fl\<close>. The singleton is a state argument; the
  backend and the local node id that \<open>send\<close> asks for are arguments.
\<close>

definition MAX_TEXT_LENGTH :: nat where "MAX_TEXT_LENGTH = 200"
definition MAX_HISTORY :: nat where "MAX_HISTORY = 100"

record 'f ChatEntry =
  ce_channel :: u8
  ce_senderId :: u32
  ce_senderName :: string
  ce_text :: string
  ce_age :: 'f

record 'f ChatState =
  cs_history :: "'f ChatEntry list"
  cs_muted :: "u32 set"

definition chat_state :: "'f ChatState" where
  "chat_state = \<lparr>cs_history = [], cs_muted = {}\<rparr>"

text \<open>A host puts its own message into its own queue, a client hands it to the host.\<close>

datatype chat_route = Enqueued ChatMessagePacket | SentToHost ChatMessagePacket

definition chat_send ::
  "bool \<Rightarrow> bool \<Rightarrow> u32 \<Rightarrow> u8 \<Rightarrow> string \<Rightarrow> u32 \<Rightarrow> chat_route option" where
  "chat_send active isHost localNodeId channel txt targetId =
     (if channel \<noteq> CHAT_ALL \<and> channel \<noteq> CHAT_TEAM \<and> channel \<noteq> CHAT_PRIVATE then None
      else if txt = [] then None
      else if \<not> active then None
      else let p = \<lparr>ch_senderId = localNodeId,
                 ch_targetId = (if channel = CHAT_PRIVATE then targetId else 0),
                 ch_channel = channel, ch_senderName = [], ch_text = take MAX_TEXT_LENGTH txt\<rparr>
           in Some (if isHost then Enqueued p else SentToHost p))"

definition chat_append :: "'f ChatEntry \<Rightarrow> 'f ChatState \<Rightarrow> 'f ChatState" where
  "chat_append entry s =
     (let history = cs_history s @ [entry];
          history = (if length history > MAX_HISTORY
            then drop (length history - MAX_HISTORY) history else history)
      in s\<lparr>cs_history := history\<rparr>)"

definition addLocal :: "'f fops \<Rightarrow> u8 \<Rightarrow> string \<Rightarrow> 'f ChatState \<Rightarrow> 'f ChatState" where
  "addLocal fl channel txt s =
     (if txt = [] then s
      else chat_append \<lparr>ce_channel = channel, ce_senderId = 0, ce_senderName = [],
             ce_text = take MAX_TEXT_LENGTH txt, ce_age = flit fl 0\<rparr> s)"

definition isMutedText :: "u32 \<Rightarrow> 'f ChatState \<Rightarrow> bool" where
  "isMutedText playerId s \<longleftrightarrow> playerId \<in> cs_muted s"

definition chat_receive ::
  "'f fops \<Rightarrow> u8 \<Rightarrow> u32 \<Rightarrow> string \<Rightarrow> string \<Rightarrow> 'f ChatState \<Rightarrow> 'f ChatState" where
  "chat_receive fl channel senderId senderName txt s =
     (if isMutedText senderId s then s
      else chat_append \<lparr>ce_channel = channel, ce_senderId = senderId, ce_senderName = senderName,
             ce_text = txt, ce_age = flit fl 0\<rparr> s)"

definition getMessages :: "'f ChatState \<Rightarrow> 'f ChatEntry list" where
  "getMessages s = cs_history s"

definition setMutedText :: "u32 \<Rightarrow> bool \<Rightarrow> 'f ChatState \<Rightarrow> 'f ChatState" where
  "setMutedText playerId flag s =
     s\<lparr>cs_muted := (if flag then insert playerId (cs_muted s) else cs_muted s - {playerId})\<rparr>"

definition chat_update :: "'f fops \<Rightarrow> 'f \<Rightarrow> 'f ChatState \<Rightarrow> 'f ChatState" where
  "chat_update fl deltaTime s =
     s\<lparr>cs_history := map (\<lambda>e. e\<lparr>ce_age := fadd fl (ce_age e) deltaTime\<rparr>) (cs_history s)\<rparr>"

definition chat_clear :: "'f ChatState \<Rightarrow> 'f ChatState" where
  "chat_clear s = s\<lparr>cs_history := []\<rparr>"

subsection \<open>The history is a window\<close>

datatype 'f chat_op =
  OpLocal u8 string | OpReceive u8 u32 string string | OpMute u32 bool | OpUpdate 'f | OpClear

fun chat_apply :: "'f fops \<Rightarrow> 'f chat_op \<Rightarrow> 'f ChatState \<Rightarrow> 'f ChatState" where
  "chat_apply fl (OpLocal c t) s = addLocal fl c t s"
| "chat_apply fl (OpReceive c i n t) s = chat_receive fl c i n t s"
| "chat_apply fl (OpMute i b) s = setMutedText i b s"
| "chat_apply fl (OpUpdate dt) s = chat_update fl dt s"
| "chat_apply fl OpClear s = chat_clear s"

text \<open>The lines that arrived and were not muted when they did, since the last clear: channel,
  sender, name and text of each.\<close>

fun chat_log :: "'f chat_op list \<Rightarrow> u32 set \<Rightarrow> (u8 \<times> u32 \<times> string \<times> string) list
    \<Rightarrow> (u8 \<times> u32 \<times> string \<times> string) list" where
  "chat_log [] muted lines = lines"
| "chat_log (OpLocal c t # ops) muted lines =
     chat_log ops muted (if t = [] then lines else lines @ [(c, 0, [], take 200 t)])"
| "chat_log (OpReceive c i n t # ops) muted lines =
     chat_log ops muted (if i \<in> muted then lines else lines @ [(c, i, n, t)])"
| "chat_log (OpMute i b # ops) muted lines = chat_log ops (if b then insert i muted else muted - {i}) lines"
| "chat_log (OpUpdate dt # ops) muted lines = chat_log ops muted lines"
| "chat_log (OpClear # ops) muted lines = chat_log ops muted []"

definition entry_line :: "'f ChatEntry \<Rightarrow> u8 \<times> u32 \<times> string \<times> string" where
  "entry_line e = (ce_channel e, ce_senderId e, ce_senderName e, ce_text e)"

definition last_lines :: "nat \<Rightarrow> 'a list \<Rightarrow> 'a list" where
  "last_lines n xs = drop (length xs - n) xs"

lemma last_lines_snoc: "0 < n \<Longrightarrow> last_lines n (last_lines n xs @ [x]) = last_lines n (xs @ [x])"
  by (cases "length xs < n") (auto simp: last_lines_def Suc_diff_le)

lemma chat_append_lines:
  assumes "map entry_line (cs_history s) = last_lines MAX_HISTORY lines"
  shows "map entry_line (cs_history (chat_append e s)) = last_lines MAX_HISTORY (lines @ [entry_line e])"
proof -
  have "map entry_line (cs_history (chat_append e s)) = last_lines MAX_HISTORY (map entry_line (cs_history s @ [e]))"
    by (simp add: chat_append_def Let_def last_lines_def drop_map [symmetric] del: drop_append)
  with assms last_lines_snoc [of MAX_HISTORY lines "entry_line e"] show ?thesis
    by (simp add: MAX_HISTORY_def)
qed

lemma chat_append_muted [simp]: "cs_muted (chat_append e s) = cs_muted s"
  by (simp add: chat_append_def Let_def)

lemma chat_run_lines:
  "map entry_line (cs_history s) = last_lines MAX_HISTORY lines \<Longrightarrow>
    map entry_line (cs_history (fold (chat_apply fl) ops s)) = last_lines MAX_HISTORY (chat_log ops (cs_muted s) lines)"
proof (induction ops arbitrary: s lines)
  case (Cons op ops)
  let ?s = "chat_apply fl op s"
  obtain lines' where l: "map entry_line (cs_history ?s) = last_lines MAX_HISTORY lines'"
      "chat_log (op # ops) (cs_muted s) lines = chat_log ops (cs_muted ?s) lines'"
  proof (cases op)
    case (OpLocal c t)
    let ?e = "\<lparr>ce_channel = c, ce_senderId = 0, ce_senderName = [], ce_text = take MAX_TEXT_LENGTH t, ce_age = flit fl 0\<rparr>"
    have "entry_line ?e = (c, 0, [], take 200 t)" by (simp add: entry_line_def MAX_TEXT_LENGTH_def)
    then show ?thesis
      using that [of "if t = [] then lines else lines @ [(c, 0, [], take 200 t)]"] OpLocal Cons.prems
        chat_append_lines [OF Cons.prems, of ?e]
      by (simp add: addLocal_def)
  next
    case (OpReceive c i n t)
    let ?e = "\<lparr>ce_channel = c, ce_senderId = i, ce_senderName = n, ce_text = t, ce_age = flit fl 0\<rparr>"
    have "entry_line ?e = (c, i, n, t)" by (simp add: entry_line_def)
    then show ?thesis
      using that [of "if i \<in> cs_muted s then lines else lines @ [(c, i, n, t)]"] OpReceive Cons.prems
        chat_append_lines [OF Cons.prems, of ?e]
      by (simp add: chat_receive_def isMutedText_def)
  next
    case (OpMute i b)
    then show ?thesis using that [of lines] Cons.prems by (simp add: setMutedText_def)
  next
    case (OpUpdate dt)
    have "entry_line (e\<lparr>ce_age := a\<rparr>) = entry_line e" for e :: "'a ChatEntry" and a by (simp add: entry_line_def)
    then show ?thesis using that [of lines] Cons.prems OpUpdate by (simp add: chat_update_def comp_def)
  next
    case OpClear
    then show ?thesis using that [of "[]"] by (simp add: chat_clear_def last_lines_def)
  qed
  from Cons.IH [OF l(1)] l(2) show ?case by simp
qed simp

text \<open>C17. Whatever a session does with its chat, the history is the last hundred lines, in order of
  arrival, of those that arrived since the last clear from players who were not muted when they
  arrived; muting later removes nothing and clearing keeps the mute list.\<close>

theorem chat_history_window:
  "map entry_line (getMessages (fold (chat_apply fl) ops chat_state)) =
     last_lines MAX_HISTORY (chat_log ops {} []) \<and>
   length (getMessages (fold (chat_apply fl) ops chat_state)) \<le> MAX_HISTORY"
proof -
  have w: "map entry_line (cs_history (fold (chat_apply fl) ops chat_state)) = last_lines MAX_HISTORY (chat_log ops {} [])"
    using chat_run_lines [of chat_state "[]"] by (simp add: chat_state_def last_lines_def)
  then have "length (cs_history (fold (chat_apply fl) ops chat_state)) = length (last_lines MAX_HISTORY (chat_log ops {} []))"
    by (metis length_map)
  with w show ?thesis by (simp add: getMessages_def last_lines_def)
qed

end
