(* ===== verification/GameBackend.thy ===== *)
theory GameBackend
  imports ChatManager
begin

section \<open>The game backend\<close>

text \<open>
  \<open>GameBackend.h\<close> and \<open>.cpp\<close>: the lobby, chat routing and node synchronisation that the host's and
  the clients' backends share. Its virtual operations (\<open>sendPacket\<close>, the event broadcasts, \<open>broadcastLobbyState\<close>,
  \<open>relayChat\<close>, \<open>broadcastState\<close>) and the callbacks into the game are values of \<open>backend_effect\<close>, in
  the order they are called; the backend theories say what the virtual ones do. The engine's node
  is its position. The game's \<open>onjoin\<close> may attach nodes while it runs, so it is a function on the
  node table. What the backend asks the singletons (\<open>isServer\<close>, the local node id, the team size)
  is the record \<open>backend_env\<close>.
\<close>

record 'f NetNode =
  nn_pos :: "'f \<times> 'f \<times> 'f"
  nn_local :: bool
  nn_team :: u8
  nn_target :: "'f \<times> 'f \<times> 'f"
  nn_targetYaw :: 'f
  nn_localYaw :: 'f
  nn_targetAnimState :: u8
  nn_localAnimState :: u8

datatype 'f backend_effect =
  SendPacket "'f game_packet"
| BroadcastEvent "'f game_packet"
| BroadcastLobby "RoomPlayerInfo list" bool
| RelayChat ChatMessagePacket
| BroadcastState u32 "'f \<times> 'f \<times> 'f" 'f u8 u8
| OnJoin u32 | OnLeave u32 | OnTeamChanged u32 u8
| OnPlayerFired "'f PlayerFirePacket" | OnPlayerHit "'f PlayerHitPacket" | OnPlayerKilled PlayerKilledPacket
| OnLobbyStateUpdated LobbyStatePacket | OnMatchStarted | OnKicked string
| OnConnected | OnDisconnected
| ShowChat u8 u32 string string

text \<open>The closures that reach \<open>runOnMainThread\<close>: the two connection events and the room code the
  master assigned to a host.\<close>

datatype backend_task = TaskConnected | TaskDisconnected | TaskRoomCode string

record 'f BackendState =
  gb_roomPlayers :: "RoomPlayerInfo list"
  gb_matchInProgress :: bool
  gb_localTeam :: u8
  gb_chatRateStamps :: "(u32, 'f list) umap"
  gb_packetQueue :: "'f game_packet list"
  gb_tasks :: "backend_task list"
  gb_nodes :: "(u32, 'f NetNode) umap"
  gb_playerCount :: u32
  gb_networkTimer :: 'f
  gb_timeSinceLastKeepAlive :: 'f
  gb_keepAliveTimer :: 'f
  gb_pingTimer :: 'f
  gb_currentPing :: int
  gb_remotePings :: "(u32, int) umap"
  gb_disconnectNotified :: bool
  gb_currentRoomCode :: string

record 'f backend_env =
  be_isServer :: bool
  be_localNodeId :: u32
  be_lobbyTeamSize :: u8
  be_onjoin :: "u32 \<Rightarrow> (u32, 'f NetNode) umap \<Rightarrow> (u32, 'f NetNode) umap"

definition backend_state :: "'f fops \<Rightarrow> 'f BackendState" where
  "backend_state fl = \<lparr>gb_roomPlayers = [], gb_matchInProgress = False, gb_localTeam = 1,
     gb_chatRateStamps = [], gb_packetQueue = [], gb_tasks = [], gb_nodes = [], gb_playerCount = 0,
     gb_networkTimer = flit fl 0, gb_timeSinceLastKeepAlive = flit fl 0,
     gb_keepAliveTimer = flit fl 0, gb_pingTimer = flit fl 0, gb_currentPing = 0,
     gb_remotePings = [], gb_disconnectNotified = False, gb_currentRoomCode = []\<rparr>"

type_synonym 'f step = "'f backend_effect list \<times> 'f BackendState"

subsection \<open>Queues, nodes and accessors\<close>

definition enqueuePacket :: "'f game_packet \<Rightarrow> 'f BackendState \<Rightarrow> 'f BackendState" where
  "enqueuePacket packet s = s\<lparr>gb_packetQueue := gb_packetQueue s @ [packet]\<rparr>"

definition runOnMainThread :: "backend_task \<Rightarrow> 'f BackendState \<Rightarrow> 'f BackendState" where
  "runOnMainThread task s = s\<lparr>gb_tasks := gb_tasks s @ [task]\<rparr>"

definition notifyConnected :: "'f BackendState \<Rightarrow> 'f BackendState" where
  "notifyConnected s = runOnMainThread TaskConnected s"

definition notifyDisconnected :: "'f BackendState \<Rightarrow> 'f BackendState" where
  "notifyDisconnected s = runOnMainThread TaskDisconnected s"

definition attachNode ::
  "'f fops \<Rightarrow> u32 \<Rightarrow> ('f \<times> 'f \<times> 'f) option \<Rightarrow> bool \<Rightarrow> 'f BackendState \<Rightarrow> 'f BackendState" where
  "attachNode fl netid node local s = (case node of None \<Rightarrow> s
   | Some pos \<Rightarrow> s\<lparr>gb_nodes := um_put netid \<lparr>nn_pos = pos, nn_local = local, nn_team = 0, nn_target = pos,
       nn_targetYaw = flit fl 0, nn_localYaw = flit fl 0, nn_targetAnimState = 0,
       nn_localAnimState = 0\<rparr> (gb_nodes s)\<rparr>)"

definition detachNode :: "u32 \<Rightarrow> 'f BackendState \<Rightarrow> 'f BackendState" where
  "detachNode netid s = s\<lparr>gb_nodes := um_erase netid (gb_nodes s)\<rparr>"

definition publishPlayerCount :: "'f BackendState \<Rightarrow> 'f BackendState" where
  "publishPlayerCount s = s\<lparr>gb_playerCount := word_of_nat (length (gb_roomPlayers s))\<rparr>"

definition broadcast_lobby :: "'f BackendState \<Rightarrow> 'f backend_effect" where
  "broadcast_lobby s = BroadcastLobby (gb_roomPlayers s) (gb_matchInProgress s)"

definition setLocalYaw :: "u32 \<Rightarrow> 'f \<Rightarrow> 'f BackendState \<Rightarrow> 'f BackendState" where
  "setLocalYaw netId yaw s = (case um_find (gb_nodes s) netId of None \<Rightarrow> s
     | Some n \<Rightarrow> s\<lparr>gb_nodes := um_put netId (n\<lparr>nn_localYaw := yaw\<rparr>) (gb_nodes s)\<rparr>)"

definition getRemoteYaw :: "'f fops \<Rightarrow> u32 \<Rightarrow> 'f BackendState \<Rightarrow> 'f" where
  "getRemoteYaw fl netId s = (case um_find (gb_nodes s) netId of None \<Rightarrow> flit fl 0 | Some n \<Rightarrow> nn_targetYaw n)"

definition setLocalAnimState :: "u32 \<Rightarrow> u8 \<Rightarrow> 'f BackendState \<Rightarrow> 'f BackendState" where
  "setLocalAnimState netId animState s = (case um_find (gb_nodes s) netId of None \<Rightarrow> s
     | Some n \<Rightarrow> s\<lparr>gb_nodes := um_put netId (n\<lparr>nn_localAnimState := animState\<rparr>) (gb_nodes s)\<rparr>)"

definition getRemoteAnimState :: "u32 \<Rightarrow> 'f BackendState \<Rightarrow> u8" where
  "getRemoteAnimState netId s = (case um_find (gb_nodes s) netId of None \<Rightarrow> 0 | Some n \<Rightarrow> nn_targetAnimState n)"

text \<open>The cast of a difference of milliseconds to \<open>int\<close> keeps its low 32 bits.\<close>

definition onPongReceived :: "u64 \<Rightarrow> u64 \<Rightarrow> 'f BackendState \<Rightarrow> 'f BackendState" where
  "onPongReceived now timestamp s =
     (let rtt = (if timestamp \<le> now then sint (ucast (now - timestamp) :: 32 word) else 0)
      in s\<lparr>gb_currentPing := rtt\<rparr>)"

subsection \<open>Chat\<close>

definition printable :: "char \<Rightarrow> bool" where
  "printable c \<longleftrightarrow> \<not> (of_char c < (32 :: nat) \<or> of_char c > (126 :: nat))"

definition clean_text :: "string \<Rightarrow> string" where
  "clean_text txt = take MAX_TEXT_LENGTH (filter printable txt)"

definition find_player :: "u32 \<Rightarrow> RoomPlayerInfo list \<Rightarrow> RoomPlayerInfo option" where
  "find_player i players = List.find (\<lambda>rp. rp_id rp = i) players"

definition allowChatRate :: "'f fops \<Rightarrow> 'f \<Rightarrow> u32 \<Rightarrow> 'f BackendState \<Rightarrow> bool \<times> 'f BackendState" where
  "allowChatRate fl now senderId s =
     (let stamps = (case um_find (gb_chatRateStamps s) senderId of None \<Rightarrow> [] | Some ts \<Rightarrow> ts);
          stamps = filter (\<lambda>t. \<not> flt fl (flit fl 1) (fsub fl now t)) stamps
      in if length stamps \<ge> 3
         then (False, s\<lparr>gb_chatRateStamps := um_put senderId stamps (gb_chatRateStamps s)\<rparr>)
         else (True, s\<lparr>gb_chatRateStamps := um_put senderId (stamps @ [now]) (gb_chatRateStamps s)\<rparr>))"

text \<open>The loop over the players keeps the last match, not the first.\<close>

fun chat_teams :: "u32 \<Rightarrow> u32 \<Rightarrow> RoomPlayerInfo list \<Rightarrow> u8 option \<Rightarrow> u8 option \<Rightarrow> u8 option \<times> u8 option" where
  "chat_teams senderId localId [] sender mine = (sender, mine)"
| "chat_teams senderId localId (rp # players) sender mine =
     chat_teams senderId localId players
       (if rp_id rp = senderId then Some (rp_team rp) else sender)
       (if rp_id rp = localId then Some (rp_team rp) else mine)"

definition shouldDisplayChat :: "'f backend_env \<Rightarrow> RoomPlayerInfo list \<Rightarrow> ChatMessagePacket \<Rightarrow> bool" where
  "shouldDisplayChat env players p =
     (if \<not> be_isServer env then True
      else if ch_channel p = CHAT_ALL then True
      else if ch_channel p = CHAT_TEAM then
        (case chat_teams (ch_senderId p) (be_localNodeId env) players None None of
           (Some senderTeam, Some myTeam) \<Rightarrow> senderTeam = myTeam | _ \<Rightarrow> False)
      else if ch_channel p = CHAT_PRIVATE
        then ch_targetId p = be_localNodeId env \<or> ch_senderId p = be_localNodeId env
      else False)"

text \<open>What the host checks before it routes: \<open>None\<close> drops the message.\<close>

definition host_route_chat ::
  "'f fops \<Rightarrow> 'f \<Rightarrow> ChatMessagePacket \<Rightarrow> 'f BackendState \<Rightarrow> ChatMessagePacket option \<times> 'f BackendState" where
  "host_route_chat fl now p s = (case find_player (ch_senderId p) (gb_roomPlayers s) of
     None \<Rightarrow> (None, s)
   | Some sender \<Rightarrow> (case allowChatRate fl now (ch_senderId p) s of
       (False, s) \<Rightarrow> (None, s)
     | (True, s) \<Rightarrow>
         if ch_channel p = CHAT_PRIVATE \<and> find_player (ch_targetId p) (gb_roomPlayers s) = None
         then (None, s) else (Some (p\<lparr>ch_senderName := rp_name sender\<rparr>), s)))"

definition on_chat :: "'f fops \<Rightarrow> 'f backend_env \<Rightarrow> 'f \<Rightarrow> ChatMessagePacket \<Rightarrow> 'f BackendState \<Rightarrow> 'f step" where
  "on_chat fl env now p s =
     (let p = p\<lparr>ch_text := clean_text (ch_text p)\<rparr>;
          show_it = (\<lambda>p s. if shouldDisplayChat env (gb_roomPlayers s) p
            then [ShowChat (ch_channel p) (ch_senderId p) (ch_senderName p) (ch_text p)] else [])
      in if ch_text p = [] then ([], s)
         else if be_isServer env then
           (case host_route_chat fl now p s of
              (None, s) \<Rightarrow> ([], s)
            | (Some p, s) \<Rightarrow> (RelayChat p # show_it p s, s))
         else (show_it p s, s))"

subsection \<open>Names\<close>

text \<open>\<open>std::to_string\<close> of a number that is not negative.\<close>

fun to_string :: "nat \<Rightarrow> string" where
  "to_string n = (if n < 10 then [char_of (48 + n)] else to_string (n div 10) @ [char_of (48 + n mod 10)])"

declare to_string.simps [simp del]

text \<open>The loop that looks for a free name, with one unit of fuel per turn.\<close>

fun free_name :: "nat \<Rightarrow> string list \<Rightarrow> string \<Rightarrow> nat \<Rightarrow> string \<Rightarrow> string option" where
  "free_name 0 names base count name = None"
| "free_name (Suc fuel) names base count name =
     (if name \<in> set names then free_name fuel names base (count + 1) (base @ '' '' @ to_string count)
      else Some name)"

text \<open>One turn more than there are names is enough (\<open>resolve_name_Some\<close>).\<close>

definition resolve_name :: "RoomPlayerInfo list \<Rightarrow> string \<Rightarrow> string option" where
  "resolve_name players name = free_name (Suc (length players)) (map rp_name players) name 1 name"

subsection \<open>The packet handler\<close>

definition on_leave :: "NodeLeavePacket \<Rightarrow> 'f BackendState \<Rightarrow> 'f step" where
  "on_leave p s =
     (if find_player (nl_netid p) (gb_roomPlayers s) = None then ([OnLeave (nl_netid p)], s)
      else let s = s\<lparr>gb_roomPlayers := erase_first (\<lambda>rp. rp_id rp = nl_netid p) (gb_roomPlayers s),
                 gb_chatRateStamps := um_erase (nl_netid p) (gb_chatRateStamps s)\<rparr>;
               s = publishPlayerCount s
           in ([OnLeave (nl_netid p), broadcast_lobby s], s))"

text \<open>A ping snapshot replaces the table; a repeated id keeps its last value. The vectors have equal
  lengths (\<open>vectors_parallel\<close>); a shorter second one would be read out of bounds.\<close>

definition on_ping_snapshot :: "PlayerPingSnapshotPacket \<Rightarrow> 'f BackendState \<Rightarrow> 'f BackendState" where
  "on_ping_snapshot p s = s\<lparr>gb_remotePings :=
     fold (\<lambda>(i, ping). um_put i (sint ping)) (zip (pp_playerIds p) (pp_playerPings p)) []\<rparr>"

definition on_node_state :: "'f backend_env \<Rightarrow> 'f NodeStatePacket \<Rightarrow> 'f BackendState \<Rightarrow> 'f step" where
  "on_node_state env ev s =
     (let known = (um_find (gb_nodes s) (ns_netid ev) \<noteq> None);
          joined = (if known then [] else [OnJoin (ns_netid ev)]);
          s = (if known then s else s\<lparr>gb_nodes := be_onjoin env (ns_netid ev) (gb_nodes s)\<rparr>)
      in case um_find (gb_nodes s) (ns_netid ev) of
           None \<Rightarrow> (joined, s)
         | Some n \<Rightarrow>
             if nn_local n then (joined, s)
             else let teamchanged = (nn_team n \<noteq> ns_team ev);
                      n = n\<lparr>nn_target := (ns_x ev, ns_y ev, ns_z ev), nn_targetYaw := ns_yaw ev,
                        nn_targetAnimState := ns_animState ev, nn_team := ns_team ev\<rparr>
                  in (joined @ (if teamchanged then [OnTeamChanged (ns_netid ev) (ns_team ev)] else []),
                      s\<lparr>gb_nodes := um_put (ns_netid ev) n (gb_nodes s)\<rparr>))"

text \<open>The four parallel vectors of a lobby packet as players.\<close>

fun lobby_players :: "u32 list \<Rightarrow> string list \<Rightarrow> u8 list \<Rightarrow> u8 list \<Rightarrow> RoomPlayerInfo list" where
  "lobby_players (i # ids) (n # names) (t # teams) (r # readys) =
     \<lparr>rp_id = i, rp_name = n, rp_team = t, rp_isReady = (r \<noteq> 0)\<rparr> # lobby_players ids names teams readys"
| "lobby_players _ _ _ _ = []"

definition on_lobby_state :: "LobbyStatePacket \<Rightarrow> 'f BackendState \<Rightarrow> 'f step" where
  "on_lobby_state p s =
     (let s = s\<lparr>gb_roomPlayers := lobby_players (ls_playerIds p) (ls_playerNames p) (ls_playerTeams p)
            (ls_playerReadys p)\<rparr>;
          s = publishPlayerCount s;
          s = s\<lparr>gb_currentRoomCode := ls_roomCode p\<rparr>
      in ([OnLobbyStateUpdated p], s))"

definition on_start_match :: "'f backend_env \<Rightarrow> 'f BackendState \<Rightarrow> 'f step" where
  "on_start_match env s =
     (let s = s\<lparr>gb_matchInProgress := True\<rparr> in
      if be_isServer env
      then let s = s\<lparr>gb_roomPlayers := map (\<lambda>rp. rp\<lparr>rp_isReady := True\<rparr>) (gb_roomPlayers s)\<rparr>
           in ([broadcast_lobby s, OnMatchStarted], s)
      else ([OnMatchStarted], s))"

definition balanced_team :: "RoomPlayerInfo list \<Rightarrow> u8" where
  "balanced_team players =
     (let redCount = length (filter (\<lambda>rp. rp_team rp = 1) players);
          blueCount = length (filter (\<lambda>rp. rp_team rp \<noteq> 1 \<and> rp_team rp = 2) players)
      in if redCount \<le> blueCount then 1 else 2)"

definition on_lobby_join :: "'f backend_env \<Rightarrow> LobbyJoinPacket \<Rightarrow> 'f BackendState \<Rightarrow> 'f step" where
  "on_lobby_join env p s =
     (if find_player (lj_senderId p) (gb_roomPlayers s) \<noteq> None then ([broadcast_lobby s], s)
      else if length (gb_roomPlayers s) \<ge> unat (be_lobbyTeamSize env) * 2 then ([], s)
      else case resolve_name (gb_roomPlayers s) (lj_playerName p) of
          None \<Rightarrow> ([], s)
        | Some finalName \<Rightarrow>
            (let s = s\<lparr>gb_roomPlayers := gb_roomPlayers s @ [\<lparr>rp_id = lj_senderId p, rp_name = finalName,
                   rp_team = balanced_team (gb_roomPlayers s), rp_isReady = False\<rparr>]\<rparr>;
                 s = publishPlayerCount s
             in ([broadcast_lobby s], s)))"

definition on_toggle_ready :: "ToggleReadyPacket \<Rightarrow> 'f BackendState \<Rightarrow> 'f step" where
  "on_toggle_ready p s =
     (let s = s\<lparr>gb_roomPlayers := update_first (\<lambda>rp. rp_id rp = tr_senderId p)
            (\<lambda>rp. rp\<lparr>rp_isReady := \<not> rp_isReady rp\<rparr>) (gb_roomPlayers s)\<rparr>
      in ([broadcast_lobby s], s))"

definition on_switch_team :: "SwitchTeamPacket \<Rightarrow> 'f BackendState \<Rightarrow> 'f step" where
  "on_switch_team p s =
     (let s = s\<lparr>gb_roomPlayers := update_first (\<lambda>rp. rp_id rp = sw_senderId p)
            (\<lambda>rp. rp\<lparr>rp_team := sw_teamId p\<rparr>) (gb_roomPlayers s)\<rparr>
      in ([broadcast_lobby s], s))"

fun dispatch_packet ::
  "'f fops \<Rightarrow> 'f backend_env \<Rightarrow> 'f \<Rightarrow> 'f game_packet \<Rightarrow> 'f BackendState \<Rightarrow> 'f step" where
  "dispatch_packet fl env now KeepAlive s = ([], s)"
| "dispatch_packet fl env now (NodeLeave p) s = on_leave p s"
| "dispatch_packet fl env now (PlayerFire p) s = ([OnPlayerFired p], s)"
| "dispatch_packet fl env now (PlayerHit p) s = ([OnPlayerHit p], s)"
| "dispatch_packet fl env now (PlayerKilled p) s = ([OnPlayerKilled p], s)"
| "dispatch_packet fl env now (PlayerPingSnapshot p) s = ([], on_ping_snapshot p s)"
| "dispatch_packet fl env now (NodeState p) s = on_node_state env p s"
| "dispatch_packet fl env now (ChatMessage p) s = on_chat fl env now p s"
| "dispatch_packet fl env now (LobbyState p) s = on_lobby_state p s"
| "dispatch_packet fl env now StartMatch s = on_start_match env s"
| "dispatch_packet fl env now (LobbyKick p) s = ([OnKicked (lk_reason p)], s)"
| "dispatch_packet fl env now (LobbyJoin p) s = on_lobby_join env p s"
| "dispatch_packet fl env now (ToggleReady p) s = on_toggle_ready p s"
| "dispatch_packet fl env now (SwitchTeam p) s = on_switch_team p s"
| "dispatch_packet fl env now _ s = ([], s)"

text \<open>Any packet proves that the peer is alive.\<close>

definition onPacketReceived ::
  "'f fops \<Rightarrow> 'f backend_env \<Rightarrow> 'f \<Rightarrow> 'f game_packet \<Rightarrow> 'f BackendState \<Rightarrow> 'f step" where
  "onPacketReceived fl env now packet s =
     dispatch_packet fl env now packet (s\<lparr>gb_timeSinceLastKeepAlive := flit fl 0\<rparr>)"

subsection \<open>The frame\<close>

fun receive_all ::
  "'f fops \<Rightarrow> 'f backend_env \<Rightarrow> ('f game_packet \<times> 'f) list \<Rightarrow> 'f BackendState \<Rightarrow> 'f step" where
  "receive_all fl env [] s = ([], s)"
| "receive_all fl env ((packet, now) # batch) s =
     (case onPacketReceived fl env now packet s of (effects, s) \<Rightarrow>
       (case receive_all fl env batch s of (others, s) \<Rightarrow> (effects @ others, s)))"

fun run_task :: "backend_task \<Rightarrow> 'f BackendState \<Rightarrow> 'f step" where
  "run_task TaskConnected s = ([OnConnected], s)"
| "run_task TaskDisconnected s =
     (if gb_disconnectNotified s then ([], s) else ([OnDisconnected], s\<lparr>gb_disconnectNotified := True\<rparr>))"
| "run_task (TaskRoomCode code) s =
     (let s = s\<lparr>gb_currentRoomCode := code\<rparr> in ([broadcast_lobby s], s))"

fun run_tasks :: "backend_task list \<Rightarrow> 'f BackendState \<Rightarrow> 'f step" where
  "run_tasks [] s = ([], s)"
| "run_tasks (task # tasks) s =
     (case run_task task s of (effects, s) \<Rightarrow> (case run_tasks tasks s of (others, s) \<Rightarrow> (effects @ others, s)))"

text \<open>The queue and the tasks are swapped out before anything runs, so what is queued meanwhile waits
  for the next frame. \<open>clock\<close> gives the time at which each packet of the batch is handled.\<close>

definition drain_queues ::
  "'f fops \<Rightarrow> 'f backend_env \<Rightarrow> (nat \<Rightarrow> 'f) \<Rightarrow> 'f BackendState \<Rightarrow> 'f step" where
  "drain_queues fl env clock s =
     (let batch = gb_packetQueue s; tasks = gb_tasks s; s = s\<lparr>gb_packetQueue := [], gb_tasks := []\<rparr>;
          (received, s) = receive_all fl env (zip batch (map clock [0..<length batch])) s;
          (run, s) = run_tasks tasks s
      in (received @ run, s))"

definition keep_alive :: "'f fops \<Rightarrow> 'f \<Rightarrow> 'f BackendState \<Rightarrow> 'f step" where
  "keep_alive fl deltaTime s =
     (if gb_disconnectNotified s then ([], s)
      else let s = s\<lparr>gb_keepAliveTimer := fadd fl (gb_keepAliveTimer s) deltaTime\<rparr> in
        if flt fl (flit fl 1) (gb_keepAliveTimer s)
        then ([SendPacket KeepAlive], s\<lparr>gb_keepAliveTimer := flit fl 0\<rparr>) else ([], s))"

definition send_ping :: "'f fops \<Rightarrow> u64 \<Rightarrow> 'f \<Rightarrow> 'f BackendState \<Rightarrow> 'f step" where
  "send_ping fl now_ms deltaTime s =
     (if gb_disconnectNotified s then ([], s)
      else let s = s\<lparr>gb_pingTimer := fadd fl (gb_pingTimer s) deltaTime\<rparr> in
        if fle fl (flit fl 1) (gb_pingTimer s)
        then ([SendPacket (Ping \<lparr>pi_timestamp = now_ms, pi_reportedPing = word_of_int (max 0 (gb_currentPing s))\<rparr>)],
              s\<lparr>gb_pingTimer := flit fl 0\<rparr>)
        else ([], s))"

text \<open>The liveness of the connection: \<open>True\<close> when the frame ends here with the timeout.\<close>

definition watch_connection ::
  "'f fops \<Rightarrow> 'f backend_env \<Rightarrow> u64 \<Rightarrow> 'f \<Rightarrow> 'f BackendState \<Rightarrow> bool \<times> 'f step" where
  "watch_connection fl env now_ms deltaTime s =
     (if be_isServer env then (False, [], s\<lparr>gb_currentPing := 0\<rparr>)
      else let s = s\<lparr>gb_timeSinceLastKeepAlive := fadd fl (gb_timeSinceLastKeepAlive s) deltaTime\<rparr> in
        if flt fl (flit fl 8) (gb_timeSinceLastKeepAlive s) \<and> \<not> gb_disconnectNotified s
        then (True, [OnDisconnected], s\<lparr>gb_disconnectNotified := True\<rparr>)
        else (False, send_ping fl now_ms deltaTime s))"

definition lerp :: "'f fops \<Rightarrow> 'f \<Rightarrow> 'f \<Rightarrow> 'f \<Rightarrow> 'f" where
  "lerp fl lerpFactor cur target = fadd fl cur (fmul fl (fsub fl target cur) lerpFactor)"

definition ease_node :: "'f fops \<Rightarrow> 'f \<Rightarrow> 'f NetNode \<Rightarrow> 'f NetNode" where
  "ease_node fl deltaTime n =
     (if nn_local n then n
      else let f = fmul fl (flit fl 15) deltaTime;
               f = (if flt fl (flit fl 1) f then flit fl 1 else f);
               (curX, curY, curZ) = nn_pos n; (targetX, targetY, targetZ) = nn_target n
           in n\<lparr>nn_pos := (lerp fl f curX targetX, lerp fl f curY targetY, lerp fl f curZ targetZ)\<rparr>)"

definition ease_nodes :: "'f fops \<Rightarrow> 'f \<Rightarrow> 'f BackendState \<Rightarrow> 'f BackendState" where
  "ease_nodes fl deltaTime s =
     s\<lparr>gb_nodes := map (\<lambda>(netid, n). (netid, ease_node fl deltaTime n)) (gb_nodes s)\<rparr>"

definition network_tick :: "'f fops \<Rightarrow> 'f \<Rightarrow> 'f BackendState \<Rightarrow> 'f step" where
  "network_tick fl deltaTime s =
     (let s = s\<lparr>gb_networkTimer := fadd fl (gb_networkTimer s) deltaTime\<rparr> in
      if fle fl (flit fl (1 / 20)) (gb_networkTimer s)
      then (map (\<lambda>(netid, n). BroadcastState netid (nn_pos n) (nn_localYaw n) (gb_localTeam s) (nn_localAnimState n))
              (filter (\<lambda>(netid, n). nn_local n) (gb_nodes s)),
            s\<lparr>gb_networkTimer := flit fl 0\<rparr>)
      else ([], s))"

text \<open>What follows once the queues are drained: a stalled frame only resets the clocks.\<close>

definition frame_tail :: "'f fops \<Rightarrow> 'f backend_env \<Rightarrow> u64 \<Rightarrow> 'f \<Rightarrow> 'f BackendState \<Rightarrow> 'f step" where
  "frame_tail fl env now_ms deltaTime s =
     (if flt fl (flit fl (1 / 4)) deltaTime
      then ([], s\<lparr>gb_keepAliveTimer := flit fl 0, gb_timeSinceLastKeepAlive := flit fl 0,
              gb_pingTimer := flit fl 0\<rparr>)
      else (case keep_alive fl deltaTime s of (alive, s) \<Rightarrow>
         (case watch_connection fl env now_ms deltaTime s of (timedout, watched, s) \<Rightarrow>
           if timedout then (alive @ watched, s)
           else (case network_tick fl deltaTime (ease_nodes fl deltaTime s) of (sent, s) \<Rightarrow>
             (alive @ watched @ sent, s)))))"

definition backend_update ::
  "'f fops \<Rightarrow> 'f backend_env \<Rightarrow> (nat \<Rightarrow> 'f) \<Rightarrow> u64 \<Rightarrow> 'f \<Rightarrow> 'f BackendState \<Rightarrow> 'f step" where
  "backend_update fl env clock now_ms deltaTime s =
     (case drain_queues fl env clock s of (drained, s) \<Rightarrow>
       (case frame_tail fl env now_ms deltaTime s of (sent, s) \<Rightarrow> (drained @ sent, s)))"

text \<open>The events a client raises itself go straight to the virtual broadcast.\<close>

definition sendFireEvent :: "'f PlayerFirePacket \<Rightarrow> 'f backend_effect" where
  "sendFireEvent p = BroadcastEvent (PlayerFire p)"

definition sendHitEvent :: "u32 \<Rightarrow> u32 \<Rightarrow> 'f \<Rightarrow> 'f backend_effect" where
  "sendHitEvent attackerId victimId damage =
     BroadcastEvent (PlayerHit \<lparr>ph_attackerId = attackerId, ph_victimId = victimId, ph_damage = damage\<rparr>)"

definition sendKillEvent :: "u32 \<Rightarrow> u32 \<Rightarrow> 'f backend_effect" where
  "sendKillEvent killerId victimId = BroadcastEvent (PlayerKilled \<lparr>pk_killerId = killerId, pk_victimId = victimId\<rparr>)"

subsection \<open>A free name is always found\<close>

definition string_value :: "string \<Rightarrow> nat" where
  "string_value txt = foldl (\<lambda>v c. v * 10 + (of_char c - 48)) 0 txt"

lemma string_value_to_string: "string_value (to_string n) = n"
proof (induction n rule: to_string.induct)
  case (1 n)
  have digit: "of_char (char_of (48 + d) :: char) = 48 + d" if "d < 10" for d :: nat
    using that by simp
  show ?case
  proof (cases "n < 10")
    case True
    then show ?thesis using digit [of n] by (subst to_string.simps) (simp add: string_value_def)
  next
    case False
    with 1 have "string_value (to_string (n div 10)) = n div 10" by simp
    moreover have "n div 10 * 10 + n mod 10 = n" by simp
    ultimately show ?thesis using False digit [of "n mod 10"]
      by (subst to_string.simps) (simp add: string_value_def)
  qed
qed

lemma to_string_inject [simp]: "to_string m = to_string n \<longleftrightarrow> m = n"
  using string_value_to_string by metis

definition name_candidate :: "string \<Rightarrow> nat \<Rightarrow> string \<Rightarrow> nat \<Rightarrow> string" where
  "name_candidate base count name k = (if k = 0 then name else base @ '' '' @ to_string (count + (k - 1)))"

lemma name_candidate_Suc:
  "name_candidate base (Suc count) (base @ '' '' @ to_string count) k = name_candidate base count name (Suc k)"
  by (cases k) (simp_all add: name_candidate_def)

lemma free_name_Some:
  "free_name fuel names base count name = Some found \<Longrightarrow>
    found \<notin> set names \<and> (found = name \<or> (\<exists>k. found = base @ '' '' @ to_string k))"
  by (induction fuel arbitrary: count name) (auto split: if_splits)

lemma free_name_None:
  "free_name fuel names base count name = None \<Longrightarrow> k < fuel \<Longrightarrow> name_candidate base count name k \<in> set names"
proof (induction fuel arbitrary: count name k)
  case (Suc fuel)
  show ?case
  proof (cases k)
    case 0
    with Suc.prems show ?thesis by (auto simp: name_candidate_def split: if_splits)
  next
    case (Suc k')
    with Suc.prems Suc.IH [of "count + 1" "base @ '' '' @ to_string count" k'] show ?thesis
      using name_candidate_Suc [of base count k' name] by (auto split: if_splits)
  qed
qed simp

lemma name_candidates_inj: "inj_on (name_candidate base count base) {..<n}"
  by (auto simp: inj_on_def name_candidate_def split: if_splits)

lemma resolve_name_Some:
  obtains found where "resolve_name players name = Some found"
    "found \<notin> rp_name ` set players" "found = name \<or> (\<exists>k. found = name @ '' '' @ to_string k)"
proof (cases "resolve_name players name")
  case None
  let ?n = "Suc (length players)"
  have "name_candidate name 1 name ` {..<?n} \<subseteq> set (map rp_name players)"
    using free_name_None [OF None [unfolded resolve_name_def]] by auto
  then have "card (name_candidate name 1 name ` {..<?n}) \<le> card (set (map rp_name players))"
    by (rule card_mono [OF finite_set])
  with card_length [of "map rp_name players"] card_image [OF name_candidates_inj [of name 1 ?n]]
  show ?thesis by simp
next
  case (Some found)
  with free_name_Some [OF Some [unfolded resolve_name_def]] that show ?thesis by auto
qed

subsection \<open>The lobby invariant\<close>

lemma find_player_None: "find_player i players = None \<longleftrightarrow> i \<notin> rp_id ` set players"
  by (auto simp: find_player_def find_None_iff image_iff)

lemma find_player_Some: "find_player i players = Some rp \<Longrightarrow> rp \<in> set players \<and> rp_id rp = i"
  by (auto simp: find_player_def dest: find_SomeD)

text \<open>Ids and names are distinct, nobody is in a lobby that is full, and the published count is the
  number of players.\<close>

definition lobby_inv :: "'f backend_env \<Rightarrow> 'f BackendState \<Rightarrow> bool" where
  "lobby_inv env s \<longleftrightarrow> distinct (map rp_id (gb_roomPlayers s)) \<and> distinct (map rp_name (gb_roomPlayers s)) \<and>
     length (gb_roomPlayers s) \<le> unat (be_lobbyTeamSize env) * 2 \<and>
     gb_playerCount s = word_of_nat (length (gb_roomPlayers s))"

lemma lobby_inv_cong:
  "gb_roomPlayers s' = gb_roomPlayers s \<Longrightarrow> gb_playerCount s' = gb_playerCount s \<Longrightarrow> lobby_inv env s' = lobby_inv env s"
  by (simp add: lobby_inv_def)

lemma lobby_inv_same_shape:
  assumes "lobby_inv env s" "map rp_id ps = map rp_id (gb_roomPlayers s)" "map rp_name ps = map rp_name (gb_roomPlayers s)"
  shows "lobby_inv env (s\<lparr>gb_roomPlayers := ps\<rparr>)"
  using assms map_eq_imp_length_eq [OF assms(2)] by (simp add: lobby_inv_def)

lemma on_lobby_join_inv [inv_intros]:
  assumes "lobby_inv env s" shows "lobby_inv env (snd (on_lobby_join env p s))"
proof -
  obtain found where f: "resolve_name (gb_roomPlayers s) (lj_playerName p) = Some found"
    "found \<notin> rp_name ` set (gb_roomPlayers s)"
    by (rule resolve_name_Some)
  show ?thesis
    using assms f find_player_None [of "lj_senderId p" "gb_roomPlayers s"]
    by (auto simp: on_lobby_join_def lobby_inv_def publishPlayerCount_def Let_def)
qed

lemma on_leave_inv [inv_intros]:
  assumes "lobby_inv env s" shows "lobby_inv env (snd (on_leave p s))"
  using assms distinct_erase_first [of rp_id "gb_roomPlayers s"] distinct_erase_first [of rp_name "gb_roomPlayers s"]
    order_trans [OF length_erase_first [of "\<lambda>rp. rp_id rp = nl_netid p" "gb_roomPlayers s"]]
  by (auto simp: on_leave_def lobby_inv_def publishPlayerCount_def Let_def)

lemma on_start_match_inv [inv_intros]:
  assumes "lobby_inv env s" shows "lobby_inv env (snd (on_start_match env s))"
proof -
  have "lobby_inv env (s\<lparr>gb_matchInProgress := True\<rparr>)" using assms by (simp add: lobby_inv_def)
  from lobby_inv_same_shape [OF this, of "map (\<lambda>rp. rp\<lparr>rp_isReady := True\<rparr>) (gb_roomPlayers s)"] this
  show ?thesis by (simp add: on_start_match_def Let_def comp_def)
qed

lemma on_ready_and_team_inv [inv_intros]:
  assumes "lobby_inv env s"
  shows "lobby_inv env (snd (on_toggle_ready q s))" "lobby_inv env (snd (on_switch_team t s))"
  using lobby_inv_same_shape [OF assms]
  by (simp_all add: on_toggle_ready_def on_switch_team_def map_update_first Let_def)

lemma on_chat_lobby:
  "gb_roomPlayers (snd (on_chat fl env now p s)) = gb_roomPlayers s"
  "gb_playerCount (snd (on_chat fl env now p s)) = gb_playerCount s"
  by (auto simp: on_chat_def host_route_chat_def allowChatRate_def Let_def split: option.splits bool.splits prod.splits)

lemma on_node_state_lobby:
  "gb_roomPlayers (snd (on_node_state env ev s)) = gb_roomPlayers s"
  "gb_playerCount (snd (on_node_state env ev s)) = gb_playerCount s"
  by (auto simp: on_node_state_def Let_def split: option.splits)

text \<open>A host never handles a lobby packet: no client's session handler accepts one and it does not
  send one to itself.\<close>

fun host_packet :: "'f game_packet \<Rightarrow> bool" where
  "host_packet (LobbyState p) = False" | "host_packet _ = True"

lemma onPacketReceived_inv:
  assumes "lobby_inv env s" "host_packet packet"
  shows "lobby_inv env (snd (onPacketReceived fl env now packet s))"
proof -
  let ?s = "s\<lparr>gb_timeSinceLastKeepAlive := flit fl 0\<rparr>"
  have "lobby_inv env ?s" using assms(1) by (simp add: lobby_inv_def)
  then show ?thesis
    unfolding onPacketReceived_def using assms(2)
    by (cases packet) (simp_all add: inv_intros on_chat_lobby on_node_state_lobby on_ping_snapshot_def
        lobby_inv_cong [of "snd (on_chat fl env now p ?s)" ?s for p]
        lobby_inv_cong [of "snd (on_node_state env p ?s)" ?s for p] lobby_inv_cong [of "?s\<lparr>gb_remotePings := x\<rparr>" ?s for x])
qed


lemma receive_all_inv:
  "lobby_inv env s \<Longrightarrow> \<forall>(packet, now) \<in> set batch. host_packet packet \<Longrightarrow>
    lobby_inv env (snd (receive_all fl env batch s))"
proof (induction batch arbitrary: s)
  case (Cons b batch)
  obtain packet now where b: "b = (packet, now)" by (cases b)
  have "lobby_inv env (snd (onPacketReceived fl env now packet s))"
    by (rule onPacketReceived_inv) (use Cons.prems b in auto)
  from Cons.IH [OF this] Cons.prems(2) b show ?case by (simp add: split_beta)
qed simp

lemma run_tasks_inv: "lobby_inv env s \<Longrightarrow> lobby_inv env (snd (run_tasks tasks s))"
proof (induction tasks arbitrary: s)
  case (Cons task tasks)
  have "lobby_inv env (snd (run_task task s))"
    using Cons.prems by (cases task) (simp_all add: lobby_inv_def Let_def)
  from Cons.IH [OF this] show ?case by (simp add: split_beta)
qed simp

lemma drain_queues_inv:
  assumes "lobby_inv env s" "\<forall>packet \<in> set (gb_packetQueue s). host_packet packet"
  shows "lobby_inv env (snd (drain_queues fl env clock s))"
proof -
  let ?s = "s\<lparr>gb_packetQueue := [], gb_tasks := []\<rparr>"
  let ?batch = "zip (gb_packetQueue s) (map clock [0..<length (gb_packetQueue s)])"
  have "lobby_inv env ?s" using assms(1) by (simp add: lobby_inv_def)
  moreover have "\<forall>(packet, now) \<in> set ?batch. host_packet packet"
    using assms(2) by (auto dest: set_zip_leftD)
  ultimately have "lobby_inv env (snd (receive_all fl env ?batch ?s))" by (rule receive_all_inv)
  from run_tasks_inv [OF this] show ?thesis by (simp add: drain_queues_def Let_def split_beta)
qed

lemma frame_parts_lobby:
  "gb_roomPlayers (snd (keep_alive fl dt s)) = gb_roomPlayers s" "gb_playerCount (snd (keep_alive fl dt s)) = gb_playerCount s"
  "gb_roomPlayers (snd (snd (watch_connection fl env ms dt s))) = gb_roomPlayers s"
  "gb_playerCount (snd (snd (watch_connection fl env ms dt s))) = gb_playerCount s"
  "gb_roomPlayers (snd (network_tick fl dt (ease_nodes fl dt s))) = gb_roomPlayers s"
  "gb_playerCount (snd (network_tick fl dt (ease_nodes fl dt s))) = gb_playerCount s"
  by (simp_all add: keep_alive_def watch_connection_def send_ping_def network_tick_def ease_nodes_def Let_def)

lemma frame_tail_lobby [simp]:
  "gb_roomPlayers (snd (frame_tail fl env ms dt s)) = gb_roomPlayers s"
  "gb_playerCount (snd (frame_tail fl env ms dt s)) = gb_playerCount s"
  by (simp_all add: frame_tail_def split_beta frame_parts_lobby)

lemma backend_update_lobby:
  "gb_roomPlayers (snd (backend_update fl env clock ms dt s)) = gb_roomPlayers (snd (drain_queues fl env clock s))"
  "gb_playerCount (snd (backend_update fl env clock ms dt s)) = gb_playerCount (snd (drain_queues fl env clock s))"
  by (simp_all add: backend_update_def split_beta)

lemma backend_update_inv:
  "lobby_inv env s \<Longrightarrow> \<forall>packet \<in> set (gb_packetQueue s). host_packet packet \<Longrightarrow>
    lobby_inv env (snd (backend_update fl env clock ms dt s))"
  using drain_queues_inv by (simp add: lobby_inv_cong [OF backend_update_lobby])

subsection \<open>What a join does\<close>

text \<open>C15. A player who joins a lobby with room is appended under a name nobody has: the requested
  one, or that name with a number; the search always ends. The player goes to a team that has no
  more players than the other. A repeated join, and a join to a full lobby, change no player.\<close>

theorem join_admits:
  assumes "on_lobby_join env p s = (effects, s')"
  shows "(if lj_senderId p \<in> rp_id ` set (gb_roomPlayers s) \<or>
        length (gb_roomPlayers s) \<ge> unat (be_lobbyTeamSize env) * 2
      then gb_roomPlayers s' = gb_roomPlayers s
      else \<exists>name team. gb_roomPlayers s' = gb_roomPlayers s @
          [\<lparr>rp_id = lj_senderId p, rp_name = name, rp_team = team, rp_isReady = False\<rparr>] \<and>
        name \<notin> rp_name ` set (gb_roomPlayers s) \<and>
        (name = lj_playerName p \<or> (\<exists>k. name = lj_playerName p @ '' '' @ to_string k)) \<and>
        (team = 1 \<or> team = 2) \<and>
        length (filter (\<lambda>rp. rp_team rp = team) (gb_roomPlayers s)) \<le>
          length (filter (\<lambda>rp. rp_team rp = 3 - team) (gb_roomPlayers s)) \<and>
        effects = [BroadcastLobby (gb_roomPlayers s') (gb_matchInProgress s)])"
proof -
  let ?ps = "gb_roomPlayers s"
  obtain found where f: "resolve_name ?ps (lj_playerName p) = Some found" "found \<notin> rp_name ` set ?ps"
    "found = lj_playerName p \<or> (\<exists>k. found = lj_playerName p @ '' '' @ to_string k)"
    by (rule resolve_name_Some)
  have blue: "filter (\<lambda>rp. rp_team rp \<noteq> 1 \<and> rp_team rp = 2) ?ps = filter (\<lambda>rp. rp_team rp = 2) ?ps"
    by (intro filter_cong) auto
  have team: "balanced_team ?ps = 1 \<or> balanced_team ?ps = 2"
    "length (filter (\<lambda>rp. rp_team rp = balanced_team ?ps) ?ps) \<le> length (filter (\<lambda>rp. rp_team rp = 3 - balanced_team ?ps) ?ps)"
    unfolding balanced_team_def Let_def blue by auto
  show ?thesis
  proof (cases "lj_senderId p \<in> rp_id ` set ?ps \<or> length ?ps \<ge> unat (be_lobbyTeamSize env) * 2")
    case True
    with assms find_player_None [of "lj_senderId p" ?ps] show ?thesis by (auto simp: on_lobby_join_def)
  next
    case False
    with assms f find_player_None [of "lj_senderId p" ?ps]
    have "gb_roomPlayers s' = ?ps @ [\<lparr>rp_id = lj_senderId p, rp_name = found, rp_team = balanced_team ?ps, rp_isReady = False\<rparr>]"
      "effects = [BroadcastLobby (gb_roomPlayers s') (gb_matchInProgress s)]"
      by (auto simp: on_lobby_join_def publishPlayerCount_def broadcast_lobby_def Let_def)
    with False f team show ?thesis by auto
  qed
qed

definition example_env :: "rat backend_env" where
  "example_env = \<lparr>be_isServer = True, be_localNodeId = 1, be_lobbyTeamSize = 2, be_onjoin = (\<lambda>_ nodes. nodes)\<rparr>"

definition example_player_info :: "u32 \<Rightarrow> string \<Rightarrow> u8 \<Rightarrow> RoomPlayerInfo" where
  "example_player_info i n t = \<lparr>rp_id = i, rp_name = n, rp_team = t, rp_isReady = False\<rparr>"

definition example_lobby_state :: "rat BackendState" where
  "example_lobby_state = (backend_state rat_fops)\<lparr>gb_roomPlayers :=
     [example_player_info 1 ''Ann'' 1, example_player_info 2 ''Ann 1'' 2], gb_playerCount := 2\<rparr>"

text \<open>The second Ann's name with a number is taken as well, so the third is \<open>Ann 2\<close>.\<close>

lemma join_admits_witness:
  "\<exists>name team. gb_roomPlayers (snd (on_lobby_join example_env \<lparr>lj_senderId = 7, lj_playerName = ''Ann'', lj_password = []\<rparr>
      example_lobby_state)) = [example_player_info 1 ''Ann'' 1, example_player_info 2 ''Ann 1'' 2, example_player_info 7 name team] \<and>
    name \<notin> {''Ann'', ''Ann 1''}"
proof -
  obtain effects s' where j: "on_lobby_join example_env \<lparr>lj_senderId = 7, lj_playerName = ''Ann'', lj_password = []\<rparr>
      example_lobby_state = (effects, s')" by fastforce
  from join_admits [OF j] j show ?thesis
    by (auto simp: example_lobby_state_def example_env_def example_player_info_def)
qed

subsection \<open>Chat through the host\<close>

lemma clean_text_props: "\<forall>c \<in> set (clean_text txt). printable c" "length (clean_text txt) \<le> 200"
  by (auto simp: clean_text_def MAX_TEXT_LENGTH_def dest: in_set_takeD)

lemma host_route_chat_Some:
  "host_route_chat fl now p s = (Some q, s') \<longleftrightarrow>
    (\<exists>rp. find_player (ch_senderId p) (gb_roomPlayers s) = Some rp \<and> q = p\<lparr>ch_senderName := rp_name rp\<rparr> \<and>
      allowChatRate fl now (ch_senderId p) s = (True, s') \<and>
      (ch_channel p = CHAT_PRIVATE \<longrightarrow> find_player (ch_targetId p) (gb_roomPlayers s) \<noteq> None))"
proof -
  have "gb_roomPlayers s1 = gb_roomPlayers s" if "allowChatRate fl now i s = (b, s1)" for b i s1
    using that by (auto simp: allowChatRate_def Let_def split: if_splits)
  then show ?thesis
    by (auto simp: host_route_chat_def split: option.splits prod.splits bool.splits)
qed

text \<open>C14. The host relays a chat message exactly when something printable is left of it, its sender is
  in the lobby and within the rate, and the target of a private one is in the lobby. What it relays
  has the sender's lobby name and at most 200 printable characters; nothing else is relayed, and the
  host shows only a message it relays.\<close>

theorem chat_gate:
  assumes "be_isServer env" "on_chat fl env now p s = (effects, s')"
  shows "(effects \<noteq> [] \<longleftrightarrow> clean_text (ch_text p) \<noteq> [] \<and>
      ch_senderId p \<in> rp_id ` set (gb_roomPlayers s) \<and> fst (allowChatRate fl now (ch_senderId p) s) \<and>
      (ch_channel p = CHAT_PRIVATE \<longrightarrow> ch_targetId p \<in> rp_id ` set (gb_roomPlayers s))) \<and>
    (effects \<noteq> [] \<longrightarrow> (\<exists>q rp. rp \<in> set (gb_roomPlayers s) \<and> rp_id rp = ch_senderId p \<and>
      q = p\<lparr>ch_text := clean_text (ch_text p), ch_senderName := rp_name rp\<rparr> \<and>
      (\<forall>c \<in> set (ch_text q). printable c) \<and> length (ch_text q) \<le> 200 \<and>
      effects = RelayChat q # (if shouldDisplayChat env (gb_roomPlayers s) q
        then [ShowChat (ch_channel q) (ch_senderId q) (ch_senderName q) (ch_text q)] else [])))"
proof (cases "clean_text (ch_text p) = []")
  case True
  with assms show ?thesis by (simp add: on_chat_def Let_def)
next
  case False
  let ?p = "p\<lparr>ch_text := clean_text (ch_text p)\<rparr>"
  obtain r s1 where r: "host_route_chat fl now ?p s = (r, s1)" by fastforce
  show ?thesis
  proof (cases r)
    case None
    with assms False r have "effects = []" by (simp add: on_chat_def Let_def)
    moreover have "\<not> (ch_senderId p \<in> rp_id ` set (gb_roomPlayers s) \<and> fst (allowChatRate fl now (ch_senderId p) s) \<and>
      (ch_channel p = CHAT_PRIVATE \<longrightarrow> ch_targetId p \<in> rp_id ` set (gb_roomPlayers s)))"
      using r None find_player_None [of "ch_senderId p" "gb_roomPlayers s"]
        find_player_None [of "ch_targetId p" "gb_roomPlayers s"] on_chat_lobby
      by (auto simp: host_route_chat_def allowChatRate_def Let_def split: option.splits if_splits)
    ultimately show ?thesis by simp
  next
    case (Some q)
    with r host_route_chat_Some [of fl now ?p s q s1] obtain rp where
      rp: "find_player (ch_senderId p) (gb_roomPlayers s) = Some rp" "q = ?p\<lparr>ch_senderName := rp_name rp\<rparr>"
      "allowChatRate fl now (ch_senderId p) s = (True, s1)"
      "ch_channel p = CHAT_PRIVATE \<longrightarrow> find_player (ch_targetId p) (gb_roomPlayers s) \<noteq> None" by auto
    have "gb_roomPlayers s1 = gb_roomPlayers s"
      using rp(3) by (auto simp: allowChatRate_def Let_def split: if_splits)
    with assms False r Some have e: "effects = RelayChat q # (if shouldDisplayChat env (gb_roomPlayers s) q
        then [ShowChat (ch_channel q) (ch_senderId q) (ch_senderName q) (ch_text q)] else [])"
      by (simp add: on_chat_def Let_def)
    have "rp \<in> set (gb_roomPlayers s)" "rp_id rp = ch_senderId p" using find_player_Some [OF rp(1)] by auto
    moreover from this have sender: "ch_senderId p \<in> rp_id ` set (gb_roomPlayers s)" by (metis image_eqI)
    moreover have "q = p\<lparr>ch_text := clean_text (ch_text p), ch_senderName := rp_name rp\<rparr>" using rp(2) by simp
    moreover have "ch_channel p = CHAT_PRIVATE \<longrightarrow> ch_targetId p \<in> rp_id ` set (gb_roomPlayers s)"
      using rp(4) find_player_None [of "ch_targetId p" "gb_roomPlayers s"] by simp
    ultimately show ?thesis
      using e False rp(3) clean_text_props [of "ch_text p"] sender by simp blast
  qed
qed

definition example_chat :: ChatMessagePacket where
  "example_chat = \<lparr>ch_senderId = 2, ch_targetId = 0, ch_channel = CHAT_ALL, ch_senderName = ''spoof'',
     ch_text = ''hi'' @ [CHR 0x07]\<rparr>"

lemma chat_gate_witness:
  "\<exists>q. fst (on_chat rat_fops example_env 0 example_chat example_lobby_state) =
    [RelayChat q, ShowChat CHAT_ALL 2 ''Ann 1'' ''hi''] \<and> ch_senderName q = ''Ann 1'' \<and> ch_text q = ''hi''"
proof -
  obtain effects s' where c: "on_chat rat_fops example_env 0 example_chat example_lobby_state = (effects, s')"
    by fastforce
  have t: "clean_text (ch_text example_chat) = ''hi''"
    by (simp add: clean_text_def example_chat_def printable_def MAX_TEXT_LENGTH_def)
  have "effects \<noteq> []"
    using chat_gate [OF _ c] t
    by (simp add: example_env_def example_lobby_state_def example_player_info_def example_chat_def
        allowChatRate_def CHAT_ALL_def CHAT_PRIVATE_def backend_state_def Let_def)
  with chat_gate [OF _ c] c t show ?thesis
    by (auto simp: example_env_def example_lobby_state_def example_player_info_def example_chat_def
        shouldDisplayChat_def)
qed

subsection \<open>The chat rate\<close>

fun chat_admitted :: "'f fops \<Rightarrow> (u32 \<times> 'f) list \<Rightarrow> 'f BackendState \<Rightarrow> (u32 \<times> 'f) list" where
  "chat_admitted fl [] s = []"
| "chat_admitted fl ((i, t) # messages) s = (case allowChatRate fl t i s of (ok, s) \<Rightarrow>
     (if ok then [(i, t)] else []) @ chat_admitted fl messages s)"

definition stamps_of :: "u32 \<Rightarrow> 'f BackendState \<Rightarrow> 'f list" where
  "stamps_of i s = (case um_find (gb_chatRateStamps s) i of None \<Rightarrow> [] | Some ts \<Rightarrow> ts)"

lemma allowChatRate_stamps:
  assumes "allowChatRate rat_fops now j s = (ok, s')"
  shows "stamps_of i s' = (if i = j then filter (\<lambda>t. now - t \<le> 1) (stamps_of i s) @ (if ok then [now] else [])
      else stamps_of i s)"
    and "ok \<longleftrightarrow> length (filter (\<lambda>t. now - t \<le> 1) (stamps_of j s)) < 3"
  using assms by (auto simp: allowChatRate_def stamps_of_def Let_def not_less split: if_splits option.splits)

text \<open>The window at \<open>now\<close> of a window that already looked back from an earlier time.\<close>

lemma filter_window_later:
  assumes "now \<le> (later :: rat)"
  shows "filter (\<lambda>t. later - t \<le> 1) (filter (\<lambda>t. now - t \<le> 1) ts) = filter (\<lambda>t. later - t \<le> 1) ts"
  using assms by (auto intro!: filter_cong)

definition times_of :: "u32 \<Rightarrow> (u32 \<times> rat) list \<Rightarrow> rat list" where
  "times_of i messages = map snd (filter (\<lambda>m. fst m = i) messages)"

lemma times_of_append [simp]: "times_of i (xs @ ys) = times_of i xs @ times_of i ys"
  and times_of_single [simp]: "times_of i [(j, t)] = (if i = j then [t] else [])"
  and times_of_Nil [simp]: "times_of i [] = []"
  by (auto simp: times_of_def)

lemma length_filter_imp:
  "(\<And>x. x \<in> set xs \<Longrightarrow> P x \<Longrightarrow> Q x) \<Longrightarrow> length (filter P xs) \<le> length (filter Q xs)"
  by (induction xs) (auto intro: le_SucI)

text \<open>The ghost list \<open>sent\<close> holds all messages admitted until \<open>start\<close>; the stamps are its recent part.\<close>

lemma chat_admitted_bound:
  assumes "sorted (start # map snd messages)" "\<forall>t \<in> set (times_of i sent). t \<le> start"
    and "\<And>b. length (filter (\<lambda>t. b \<le> t \<and> t \<le> b + 1) (times_of i sent)) \<le> 3"
    and "\<And>now. start \<le> now \<Longrightarrow>
      filter (\<lambda>t. now - t \<le> 1) (stamps_of i s) = filter (\<lambda>t. now - t \<le> 1) (times_of i sent)"
  shows "length (filter (\<lambda>t. a \<le> t \<and> t \<le> a + 1) (times_of i (sent @ chat_admitted rat_fops messages s))) \<le> 3"
  using assms
proof (induction messages arbitrary: sent s start)
  case (Cons m messages)
  obtain j now where m: "m = (j, now)" by (cases m)
  obtain ok s' where r: "allowChatRate rat_fops now j s = (ok, s')" by fastforce
  note st = allowChatRate_stamps [OF r]
  have now: "start \<le> now" and srt: "sorted (now # map snd messages)" using Cons.prems(1) m by auto
  let ?sent = "sent @ (if ok then [(j, now)] else [])"
  have 1: "\<forall>t \<in> set (times_of i ?sent). t \<le> now" using Cons.prems(2) now by auto
  have 2: "length (filter (\<lambda>t. b \<le> t \<and> t \<le> b + 1) (times_of i ?sent)) \<le> 3" for b
  proof (cases "ok \<and> j = i \<and> b \<le> now \<and> now \<le> b + 1")
    case True
    have "length (filter (\<lambda>t. b \<le> t \<and> t \<le> b + 1) (times_of i sent)) \<le>
        length (filter (\<lambda>t. now - t \<le> 1) (times_of i sent))"
      using True by (intro length_filter_imp) auto
    also have "\<dots> < 3" using st(2) True Cons.prems(4) [OF now] by simp
    finally show ?thesis using True by simp
  next
    case False
    with Cons.prems(3) [of b] show ?thesis by auto
  qed
  have 3: "filter (\<lambda>t. later - t \<le> 1) (stamps_of i s') = filter (\<lambda>t. later - t \<le> 1) (times_of i ?sent)"
    if l: "now \<le> later" for later
    using st(1) [of i] Cons.prems(4) [of later] filter_window_later [OF l, of "stamps_of i s"] now l
    by auto
  from Cons.IH [OF srt 1 2 3] m r show ?case by simp
qed simp



subsection \<open>One notice of a lost connection\<close>

datatype 'f backend_op =
  Enqueue "'f game_packet" | OnMainThread backend_task | Frame "nat \<Rightarrow> 'f" u64 'f

fun backend_apply :: "'f fops \<Rightarrow> 'f backend_env \<Rightarrow> 'f backend_op \<Rightarrow> 'f BackendState \<Rightarrow> 'f step" where
  "backend_apply fl env (Enqueue packet) s = ([], enqueuePacket packet s)"
| "backend_apply fl env (OnMainThread task) s = ([], runOnMainThread task s)"
| "backend_apply fl env (Frame clock now_ms deltaTime) s = backend_update fl env clock now_ms deltaTime s"

fun backend_run :: "'f fops \<Rightarrow> 'f backend_env \<Rightarrow> 'f backend_op list \<Rightarrow> 'f BackendState \<Rightarrow> 'f step" where
  "backend_run fl env [] s = ([], s)"
| "backend_run fl env (c # cs) s = (case backend_apply fl env c s of (effects, s) \<Rightarrow>
     (case backend_run fl env cs s of (others, s) \<Rightarrow> (effects @ others, s)))"

fun is_OnDisconnected :: "'f backend_effect \<Rightarrow> bool" where
  "is_OnDisconnected OnDisconnected = True" | "is_OnDisconnected _ = False"

definition notices :: "'f backend_effect list \<Rightarrow> nat" where
  "notices effects = length (filter is_OnDisconnected effects)"

lemma notices_simps [simp]:
  "notices [] = 0" "notices (e # es) = of_bool (is_OnDisconnected e) + notices es"
  "notices (xs @ ys) = notices xs + notices ys"
  by (simp_all add: notices_def)

text \<open>An operation notifies exactly when it sets the flag, so the notices of a run are the flag.\<close>

definition notices_are_flag :: "'f BackendState \<Rightarrow> 'f step \<Rightarrow> bool" where
  "notices_are_flag s r \<longleftrightarrow> of_bool (gb_disconnectNotified s) + notices (fst r) = of_bool (gb_disconnectNotified (snd r))"

lemma notices_bind:
  assumes "notices_are_flag s r" "\<And>s1. notices_are_flag s1 (g s1)"
  shows "notices_are_flag s (case r of (effects, s1) \<Rightarrow> (case g s1 of (others, s2) \<Rightarrow> (effects @ others, s2)))"
proof -
  obtain effects s1 where r: "r = (effects, s1)" by fastforce
  obtain others s2 where "g s1 = (others, s2)" by fastforce
  with assms(1) assms(2) [of s1] r show ?thesis by (simp add: notices_are_flag_def)
qed

lemma on_handlers_notify:
  "notices (fst (on_leave a s)) = 0 \<and> gb_disconnectNotified (snd (on_leave a s)) = gb_disconnectNotified s"
  "notices (fst (on_node_state env b s)) = 0 \<and> gb_disconnectNotified (snd (on_node_state env b s)) = gb_disconnectNotified s"
  "notices (fst (on_start_match env s)) = 0 \<and> gb_disconnectNotified (snd (on_start_match env s)) = gb_disconnectNotified s"
  "notices (fst (on_lobby_join env d s)) = 0 \<and> gb_disconnectNotified (snd (on_lobby_join env d s)) = gb_disconnectNotified s"
  "notices (fst (on_chat fl env now c s)) = 0 \<and> gb_disconnectNotified (snd (on_chat fl env now c s)) = gb_disconnectNotified s"
  by (auto simp: on_leave_def on_node_state_def on_start_match_def on_lobby_join_def on_chat_def host_route_chat_def
      allowChatRate_def publishPlayerCount_def broadcast_lobby_def Let_def split: option.splits bool.splits prod.splits)

lemma onPacketReceived_notify: "notices_are_flag s (onPacketReceived fl env now packet s)"
  by (cases packet) (simp_all add: notices_are_flag_def onPacketReceived_def on_handlers_notify on_lobby_state_def
      on_toggle_ready_def on_switch_team_def on_ping_snapshot_def publishPlayerCount_def broadcast_lobby_def Let_def)

lemma receive_all_notify: "notices_are_flag s (receive_all fl env batch s)"
proof (induction batch arbitrary: s)
  case (Cons b batch)
  then show ?case by (cases b) (simp add: notices_bind onPacketReceived_notify)
qed (simp add: notices_are_flag_def)

lemma run_tasks_notify: "notices_are_flag s (run_tasks tasks s)"
proof (induction tasks arbitrary: s)
  case (Cons task tasks)
  have "notices_are_flag s (run_task task s)"
    by (cases task) (simp_all add: notices_are_flag_def broadcast_lobby_def Let_def)
  then show ?case using Cons by (simp add: notices_bind)
qed (simp add: notices_are_flag_def)

lemma drain_queues_notify: "notices_are_flag s (drain_queues fl env clock s)"
proof -
  have "notices_are_flag (s\<lparr>gb_packetQueue := [], gb_tasks := []\<rparr>) (drain_queues fl env clock s)"
    unfolding drain_queues_def Let_def by (intro notices_bind receive_all_notify run_tasks_notify)
  then show ?thesis by (simp add: notices_are_flag_def)
qed

lemma frame_parts_notify:
  "notices_are_flag s (keep_alive fl dt s)" "notices_are_flag s (snd (watch_connection fl env ms dt s))"
  "notices_are_flag s (network_tick fl dt (ease_nodes fl dt s))"
  by (auto simp: notices_are_flag_def keep_alive_def watch_connection_def send_ping_def network_tick_def
      ease_nodes_def notices_def filter_empty_conv Let_def)

lemma frame_tail_notify: "notices_are_flag s (frame_tail fl env ms dt s)"
proof -
  obtain k s2 where k: "keep_alive fl dt s = (k, s2)" by fastforce
  obtain t w s3 where w: "watch_connection fl env ms dt s2 = (t, w, s3)" by (metis prod_cases3)
  obtain n s4 where n: "network_tick fl dt (ease_nodes fl dt s3) = (n, s4)" by fastforce
  have "notices_are_flag s (k, s2)" "notices_are_flag s2 (w, s3)" "notices_are_flag s3 (n, s4)"
    using frame_parts_notify(1) [of s fl dt] frame_parts_notify(2) [of s2 fl env ms dt]
      frame_parts_notify(3) [of s3 fl dt] k w n by simp_all
  then show ?thesis using k w n by (auto simp: frame_tail_def notices_are_flag_def)
qed

lemma backend_update_notify: "notices_are_flag s (backend_update fl env clock ms dt s)"
  unfolding backend_update_def by (intro notices_bind drain_queues_notify frame_tail_notify)

lemma backend_run_notify: "notices_are_flag s (backend_run fl env cs s)"
proof (induction cs arbitrary: s)
  case (Cons c cs)
  have "notices_are_flag s (backend_apply fl env c s)"
    by (cases c) (simp_all add: backend_update_notify, simp_all add: notices_are_flag_def enqueuePacket_def runOnMainThread_def)
  then show ?case using Cons by (simp add: notices_bind)
qed (simp add: notices_are_flag_def)

text \<open>Whatever packets, connection events and frames a backend sees, from any number of threads and
  however the session's own disconnect event and the keep-alive timeout race, the game is told of a
  lost connection at most once, and exactly when the flag says so.\<close>

theorem disconnect_notified_once:
  "notices (fst (backend_run fl env cs (backend_state fl))) =
     of_bool (gb_disconnectNotified (snd (backend_run fl env cs (backend_state fl))))"
  using backend_run_notify [of "backend_state fl" fl env cs] by (simp add: notices_are_flag_def backend_state_def)

subsection \<open>Smoothing of remote nodes\<close>

definition ease_factor :: "rat \<Rightarrow> rat" where
  "ease_factor deltaTime = (if 1 < 15 * deltaTime then 1 else 15 * deltaTime)"

definition gap :: "rat NetNode \<Rightarrow> rat \<times> rat \<times> rat" where
  "gap n = (case nn_pos n of (x, y, z) \<Rightarrow> case nn_target n of (tx, ty, tz) \<Rightarrow> (tx - x, ty - y, tz - z))"

definition scale3 :: "rat \<Rightarrow> rat \<times> rat \<times> rat \<Rightarrow> rat \<times> rat \<times> rat" where
  "scale3 c v = (case v of (x, y, z) \<Rightarrow> (c * x, c * y, c * z))"

lemma ease_node_gap:
  "\<not> nn_local n \<Longrightarrow> gap (ease_node rat_fops dt n) = scale3 (1 - ease_factor dt) (gap n)"
  by (cases "nn_pos n", cases "nn_target n")
    (auto simp: gap_def scale3_def ease_node_def lerp_def ease_factor_def Let_def algebra_simps)

lemma ease_node_rest [simp]:
  "nn_local (ease_node fl dt n) = nn_local n" "nn_target (ease_node fl dt n) = nn_target n"
  "nn_local n \<Longrightarrow> ease_node fl dt n = n"
  by (simp_all add: ease_node_def split_beta Let_def)

lemma ease_nodes_find [simp]:
  "um_find (gb_nodes (ease_nodes fl dt s)) i = map_option (ease_node fl dt) (um_find (gb_nodes s) i)"
  by (simp add: ease_nodes_def um_find_def map_of_map)

lemma ease_factor_range: "0 \<le> dt \<Longrightarrow> 0 \<le> 1 - ease_factor dt \<and> 1 - ease_factor dt \<le> 1"
  by (simp add: ease_factor_def)

lemma damping_range: "\<forall>dt \<in> set dts. 0 \<le> dt \<Longrightarrow> 0 \<le> prod_list (map (\<lambda>dt. 1 - ease_factor dt) dts) \<and>
    prod_list (map (\<lambda>dt. 1 - ease_factor dt) dts) \<le> 1"
proof (induction dts)
  case (Cons dt dts)
  then show ?case using ease_factor_range [of dt] by (auto intro: mult_le_one)
qed simp

text \<open>Over any frames the gap between a remote node and its target shrinks by a factor between 0
  and 1, the product of one factor per frame, so the node never overshoots; a frame of a fifteenth of
  a second or more lands on the target. A local node is never moved.\<close>

theorem remote_node_converges:
  assumes "um_find (gb_nodes s) i = Some n" "\<forall>dt \<in> set dts. 0 \<le> dt"
  shows "\<exists>n'. um_find (gb_nodes (fold (ease_nodes rat_fops) dts s)) i = Some n' \<and>
    (if nn_local n then n' = n
     else nn_target n' = nn_target n \<and>
       (\<exists>c. gap n' = scale3 c (gap n) \<and> 0 \<le> c \<and> c \<le> 1 \<and> c = prod_list (map (\<lambda>dt. 1 - ease_factor dt) dts)) \<and>
       ((\<exists>dt \<in> set dts. 15 * dt \<ge> 1) \<longrightarrow> nn_pos n' = nn_target n))"
proof -
  have "\<exists>n'. um_find (gb_nodes (fold (ease_nodes rat_fops) dts s)) i = Some n' \<and>
    (if nn_local n then n' = n
     else nn_target n' = nn_target n \<and> gap n' = scale3 (prod_list (map (\<lambda>dt. 1 - ease_factor dt) dts)) (gap n))"
    using assms(1)
  proof (induction dts arbitrary: s n)
    case Nil
    then show ?case by (auto simp: scale3_def split: prod.splits)
  next
    case (Cons dt dts)
    have "um_find (gb_nodes (ease_nodes rat_fops dt s)) i = Some (ease_node rat_fops dt n)" using Cons.prems by simp
    from Cons.IH [OF this] show ?case
      by (cases "nn_local n") (auto simp: ease_node_gap scale3_def mult_ac split: prod.splits)
  qed
  moreover have "nn_pos n' = nn_target n"
    if "gap n' = scale3 (prod_list (map (\<lambda>dt. 1 - ease_factor dt) dts)) (gap n)" "nn_target n' = nn_target n"
      "\<exists>dt \<in> set dts. 15 * dt \<ge> 1" for n'
  proof -
    from that(3) obtain dt where "dt \<in> set dts" "1 - ease_factor dt = 0" by (auto simp: ease_factor_def)
    then have "0 \<in> set (map (\<lambda>dt. 1 - ease_factor dt) dts)" unfolding set_map by force
    then have "prod_list (map (\<lambda>dt. 1 - ease_factor dt) dts) = 0" by (simp only: prod_list_zero_iff)
    with that(1,2) show ?thesis
      by (cases "nn_pos n'", cases "nn_target n'") (auto simp: gap_def scale3_def split: prod.splits)
  qed
  ultimately show ?thesis using damping_range [OF assms(2)] by (auto split: if_splits)
qed

definition example_node :: "rat NetNode" where
  "example_node = \<lparr>nn_pos = (0, 0, 8), nn_local = False, nn_team = 1, nn_target = (4, 0, 0), nn_targetYaw = 0,
     nn_localYaw = 0, nn_targetAnimState = 0, nn_localAnimState = 0\<rparr>"

lemma remote_node_converges_witness:
  "\<exists>n' c. um_find (gb_nodes (fold (ease_nodes rat_fops) [1/30, 1/60] ((backend_state rat_fops)\<lparr>gb_nodes := [(9, example_node)]\<rparr>))) 9
    = Some n' \<and> gap n' = scale3 c (4, 0, -8) \<and> c = 3/8"
proof -
  let ?s = "(backend_state rat_fops)\<lparr>gb_nodes := [(9, example_node)]\<rparr>"
  have "um_find (gb_nodes ?s) 9 = Some example_node" by (simp add: um_find_def)
  from remote_node_converges [OF this, of "[1/30, 1/60]"]
  obtain n' c where n: "um_find (gb_nodes (fold (ease_nodes rat_fops) [1/30, 1/60] ?s)) 9 = Some n'"
    "gap n' = scale3 c (gap example_node)" "c = prod_list (map (\<lambda>dt. 1 - ease_factor dt) [1/30, 1/60])"
    unfolding example_node_def by (simp del: list.map fold_simps) blast
  moreover have "gap example_node = (4, 0, -8)" by (simp add: gap_def example_node_def)
  moreover have "c = 3/8" using n(3) by (simp add: ease_factor_def)
  ultimately show ?thesis by metis
qed

end
