(* ===== verification/VoicePackets.thy ===== *)
theory VoicePackets
  imports Znet_Buffer
begin

section \<open>Team voice wire packets\<close>

text \<open>
  \<open>voice/gTeamVoicePackets.h\<close> and \<open>.cpp\<close>: the three packet types, their validators, the
  serializers with every error they report, the packet registry, and the wrap-around order on
  sequence numbers. A deserializer returns \<open>Inl e\<close> where the source reports \<open>e\<close> and returns
  null; a serializer returns \<open>Inl None\<close> for the null packet it refuses silently.
\<close>

unbundle bit_operations_syntax

subsection \<open>Packets\<close>

datatype gTeamVoicePacketError =
  NONE | TRUNCATED | TRAILING_DATA | INVALID_VERSION | INVALID_FLAGS | INVALID_SESSION
| INVALID_GENERATION | INVALID_SENDER | EMPTY_PAYLOAD | OVERSIZED_PAYLOAD | BUFFER_ERROR

definition SESSION_PACKET_ID :: u64 where "SESSION_PACKET_ID = 0x47564f4943450001"
definition UPLINK_PACKET_ID :: u64 where "UPLINK_PACKET_ID = 0x47564f4943450002"
definition DOWNLINK_PACKET_ID :: u64 where "DOWNLINK_PACKET_ID = 0x47564f4943450003"

definition PROTOCOL_VERSION :: u8 where "PROTOCOL_VERSION = 1"
definition FLAG_STREAM_START :: u8 where "FLAG_STREAM_START = push_bit 0 1"
definition FLAG_DISCONTINUITY :: u8 where "FLAG_DISCONTINUITY = push_bit 1 1"
definition VALID_VOICE_FLAGS :: u8 where
  "VALID_VOICE_FLAGS = FLAG_STREAM_START OR FLAG_DISCONTINUITY"

definition NETWORK_MAX_OPUS_BYTES :: nat where "NETWORK_MAX_OPUS_BYTES = 256"

definition SESSION_PACKET_BYTES :: nat where "SESSION_PACKET_BYTES = 1 + 1 + 8 + 4 + 8"
definition UPLINK_HEADER_BYTES :: nat where "UPLINK_HEADER_BYTES = 1 + 1 + 8 + 4 + 4 + 4 + 8 + 2"
definition DOWNLINK_HEADER_BYTES :: nat where
  "DOWNLINK_HEADER_BYTES = 1 + 1 + 8 + 4 + 8 + 4 + 4 + 4 + 8 + 2"

record gTeamVoiceSessionPacket =
  ss_version :: u8
  ss_enabled :: bool
  ss_sessionid :: u64
  ss_membershipgeneration :: u32
  ss_playerid :: u64

record gTeamVoiceUplinkPacket =
  up_version :: u8
  up_flags :: u8
  up_sessionid :: u64
  up_membershipgeneration :: u32
  up_streamgeneration :: u32
  up_sequence :: u32
  up_sampleposition :: u64
  up_payload :: bytes

record gTeamVoiceDownlinkPacket =
  dn_version :: u8
  dn_flags :: u8
  dn_sessionid :: u64
  dn_recipientgeneration :: u32
  dn_speakerid :: u64
  dn_speakergeneration :: u32
  dn_streamgeneration :: u32
  dn_sequence :: u32
  dn_sampleposition :: u64
  dn_payload :: bytes

text \<open>The values of the in-class initialisers.\<close>

definition session_default :: gTeamVoiceSessionPacket where
  "session_default = \<lparr>ss_version = PROTOCOL_VERSION, ss_enabled = False, ss_sessionid = 0,
     ss_membershipgeneration = 0, ss_playerid = 0\<rparr>"

definition downlink_default :: gTeamVoiceDownlinkPacket where
  "downlink_default = \<lparr>dn_version = PROTOCOL_VERSION, dn_flags = 0, dn_sessionid = 0,
     dn_recipientgeneration = 0, dn_speakerid = 0, dn_speakergeneration = 0,
     dn_streamgeneration = 0, dn_sequence = 0, dn_sampleposition = 0, dn_payload = []\<rparr>"

definition uplink_default :: gTeamVoiceUplinkPacket where
  "uplink_default = \<lparr>up_version = PROTOCOL_VERSION, up_flags = 0, up_sessionid = 0,
     up_membershipgeneration = 0, up_streamgeneration = 0, up_sequence = 0,
     up_sampleposition = 0, up_payload = []\<rparr>"

subsection \<open>Validation\<close>

definition validatePayload :: "bytes \<Rightarrow> gTeamVoicePacketError" where
  "validatePayload payload =
     (if payload = [] then EMPTY_PAYLOAD
      else if length payload > NETWORK_MAX_OPUS_BYTES then OVERSIZED_PAYLOAD
      else NONE)"

definition gValidateTeamVoiceSessionPacket :: "gTeamVoiceSessionPacket \<Rightarrow> gTeamVoicePacketError" where
  "gValidateTeamVoiceSessionPacket packet =
     (if ss_version packet \<noteq> PROTOCOL_VERSION then INVALID_VERSION
      else if \<not> ss_enabled packet then NONE
      else if ss_sessionid packet = 0 then INVALID_SESSION
      else if ss_membershipgeneration packet = 0 then INVALID_GENERATION
      else if ss_playerid packet = 0 then INVALID_SENDER
      else NONE)"

definition gValidateTeamVoiceUplinkPacket :: "gTeamVoiceUplinkPacket \<Rightarrow> gTeamVoicePacketError" where
  "gValidateTeamVoiceUplinkPacket packet =
     (if up_version packet \<noteq> PROTOCOL_VERSION then INVALID_VERSION
      else if up_flags packet AND NOT VALID_VOICE_FLAGS \<noteq> 0 then INVALID_FLAGS
      else if up_sessionid packet = 0 then INVALID_SESSION
      else if up_membershipgeneration packet = 0 \<or> up_streamgeneration packet = 0
        then INVALID_GENERATION
      else validatePayload (up_payload packet))"

definition gValidateTeamVoiceDownlinkPacket :: "gTeamVoiceDownlinkPacket \<Rightarrow> gTeamVoicePacketError" where
  "gValidateTeamVoiceDownlinkPacket packet =
     (if dn_version packet \<noteq> PROTOCOL_VERSION then INVALID_VERSION
      else if dn_flags packet AND NOT VALID_VOICE_FLAGS \<noteq> 0 then INVALID_FLAGS
      else if dn_sessionid packet = 0 then INVALID_SESSION
      else if dn_recipientgeneration packet = 0 \<or> dn_speakergeneration packet = 0
          \<or> dn_streamgeneration packet = 0 then INVALID_GENERATION
      else if dn_speakerid packet = 0 then INVALID_SENDER
      else validatePayload (dn_payload packet))"

subsection \<open>Serializers\<close>

definition ss_serialize ::
  "('b, 'f) bufops \<Rightarrow> gTeamVoiceSessionPacket option \<Rightarrow> 'b \<Rightarrow> gTeamVoicePacketError option + 'b" where
  "ss_serialize z po b = (case po of None \<Rightarrow> Inl None | Some p \<Rightarrow>
     (let error = gValidateTeamVoiceSessionPacket p in
      if error \<noteq> NONE then Inl (Some error)
      else let b = wU8 z (ss_version p) b;
               b = wU8 z (if ss_enabled p then 1 else 0) b;
               b = wU64 z (ss_sessionid p) b;
               b = wU32 z (ss_membershipgeneration p) b;
               b = wU64 z (ss_playerid p) b;
               (failed, b) = getAndClearLastError z b
           in if failed then Inl (Some BUFFER_ERROR) else Inr b))"

definition ss_deserialize ::
  "('b, 'f) bufops \<Rightarrow> 'b option \<Rightarrow> gTeamVoicePacketError + gTeamVoiceSessionPacket" where
  "ss_deserialize z bo = (case bo of None \<Rightarrow> Inl TRUNCATED | Some b \<Rightarrow>
     if readable_bytes z b < SESSION_PACKET_BYTES then Inl TRUNCATED
     else if readable_bytes z b > SESSION_PACKET_BYTES then Inl TRAILING_DATA
     else let (version, b) = rU8 z b;
              (enabled, b) = rU8 z b;
              (sessionid, b) = rU64 z b;
              (generation, b) = rU32 z b;
              (playerid, b) = rU64 z b;
              packet = \<lparr>ss_version = version, ss_enabled = (enabled \<noteq> 0), ss_sessionid = sessionid,
                ss_membershipgeneration = generation, ss_playerid = playerid\<rparr>;
              (failed, b) = getAndClearLastError z b
          in if failed then Inl BUFFER_ERROR
             else let error = gValidateTeamVoiceSessionPacket packet
                  in if error \<noteq> NONE then Inl error else Inr packet)"

definition up_serialize ::
  "('b, 'f) bufops \<Rightarrow> gTeamVoiceUplinkPacket option \<Rightarrow> 'b \<Rightarrow> gTeamVoicePacketError option + 'b" where
  "up_serialize z po b = (case po of None \<Rightarrow> Inl None | Some p \<Rightarrow>
     (let error = gValidateTeamVoiceUplinkPacket p in
      if error \<noteq> NONE then Inl (Some error)
      else let b = wU8 z (up_version p) b;
               b = wU8 z (up_flags p) b;
               b = wU64 z (up_sessionid p) b;
               b = wU32 z (up_membershipgeneration p) b;
               b = wU32 z (up_streamgeneration p) b;
               b = wU32 z (up_sequence p) b;
               b = wU64 z (up_sampleposition p) b;
               b = wU16 z (word_of_nat (length (up_payload p))) b;
               b = wBytes z (up_payload p) b;
               (failed, b) = getAndClearLastError z b
           in if failed then Inl (Some BUFFER_ERROR) else Inr b))"

definition up_deserialize ::
  "('b, 'f) bufops \<Rightarrow> 'b option \<Rightarrow> gTeamVoicePacketError + gTeamVoiceUplinkPacket" where
  "up_deserialize z bo = (case bo of None \<Rightarrow> Inl TRUNCATED | Some b \<Rightarrow>
     if readable_bytes z b < UPLINK_HEADER_BYTES then Inl TRUNCATED
     else let (version, b) = rU8 z b;
              (flags, b) = rU8 z b;
              (sessionid, b) = rU64 z b;
              (membershipgeneration, b) = rU32 z b;
              (streamgeneration, b) = rU32 z b;
              (sequence, b) = rU32 z b;
              (sampleposition, b) = rU64 z b;
              (payloadsize, b) = rU16 z b;
              (failed, b) = getAndClearLastError z b
          in if failed then Inl BUFFER_ERROR
             else if payloadsize = 0 then Inl EMPTY_PAYLOAD
             else if unat payloadsize > NETWORK_MAX_OPUS_BYTES then Inl OVERSIZED_PAYLOAD
             else if readable_bytes z b < unat payloadsize then Inl TRUNCATED
             else if readable_bytes z b > unat payloadsize then Inl TRAILING_DATA
             else let (payload, b) = rdBytes z (unat payloadsize) b;
                      (failed, b) = getAndClearLastError z b
                  in if failed then Inl BUFFER_ERROR
                     else let packet = \<lparr>up_version = version, up_flags = flags,
                            up_sessionid = sessionid, up_membershipgeneration = membershipgeneration,
                            up_streamgeneration = streamgeneration, up_sequence = sequence,
                            up_sampleposition = sampleposition, up_payload = payload\<rparr>;
                            error = gValidateTeamVoiceUplinkPacket packet
                          in if error \<noteq> NONE then Inl error else Inr packet)"

definition dn_serialize ::
  "('b, 'f) bufops \<Rightarrow> gTeamVoiceDownlinkPacket option \<Rightarrow> 'b \<Rightarrow> gTeamVoicePacketError option + 'b" where
  "dn_serialize z po b = (case po of None \<Rightarrow> Inl None | Some p \<Rightarrow>
     (let error = gValidateTeamVoiceDownlinkPacket p in
      if error \<noteq> NONE then Inl (Some error)
      else let b = wU8 z (dn_version p) b;
               b = wU8 z (dn_flags p) b;
               b = wU64 z (dn_sessionid p) b;
               b = wU32 z (dn_recipientgeneration p) b;
               b = wU64 z (dn_speakerid p) b;
               b = wU32 z (dn_speakergeneration p) b;
               b = wU32 z (dn_streamgeneration p) b;
               b = wU32 z (dn_sequence p) b;
               b = wU64 z (dn_sampleposition p) b;
               b = wU16 z (word_of_nat (length (dn_payload p))) b;
               b = wBytes z (dn_payload p) b;
               (failed, b) = getAndClearLastError z b
           in if failed then Inl (Some BUFFER_ERROR) else Inr b))"

definition dn_deserialize ::
  "('b, 'f) bufops \<Rightarrow> 'b option \<Rightarrow> gTeamVoicePacketError + gTeamVoiceDownlinkPacket" where
  "dn_deserialize z bo = (case bo of None \<Rightarrow> Inl TRUNCATED | Some b \<Rightarrow>
     if readable_bytes z b < DOWNLINK_HEADER_BYTES then Inl TRUNCATED
     else let (version, b) = rU8 z b;
              (flags, b) = rU8 z b;
              (sessionid, b) = rU64 z b;
              (recipientgeneration, b) = rU32 z b;
              (speakerid, b) = rU64 z b;
              (speakergeneration, b) = rU32 z b;
              (streamgeneration, b) = rU32 z b;
              (sequence, b) = rU32 z b;
              (sampleposition, b) = rU64 z b;
              (payloadsize, b) = rU16 z b;
              (failed, b) = getAndClearLastError z b
          in if failed then Inl BUFFER_ERROR
             else if payloadsize = 0 then Inl EMPTY_PAYLOAD
             else if unat payloadsize > NETWORK_MAX_OPUS_BYTES then Inl OVERSIZED_PAYLOAD
             else if readable_bytes z b < unat payloadsize then Inl TRUNCATED
             else if readable_bytes z b > unat payloadsize then Inl TRAILING_DATA
             else let (payload, b) = rdBytes z (unat payloadsize) b;
                      (failed, b) = getAndClearLastError z b
                  in if failed then Inl BUFFER_ERROR
                     else let packet = \<lparr>dn_version = version, dn_flags = flags,
                            dn_sessionid = sessionid, dn_recipientgeneration = recipientgeneration,
                            dn_speakerid = speakerid, dn_speakergeneration = speakergeneration,
                            dn_streamgeneration = streamgeneration, dn_sequence = sequence,
                            dn_sampleposition = sampleposition, dn_payload = payload\<rparr>;
                            error = gValidateTeamVoiceDownlinkPacket packet
                          in if error \<noteq> NONE then Inl error else Inr packet)"

subsection \<open>Registry, send options, error names, sequence order\<close>

text \<open>The codec maps a packet id to the serializer it was given for it.\<close>

datatype voice_serializer = SessionSerializer | UplinkSerializer | DownlinkSerializer

definition gRegisterTeamVoicePackets ::
  "('c \<Rightarrow> u64 \<Rightarrow> voice_serializer \<Rightarrow> 'c) \<Rightarrow> 'c \<Rightarrow> 'c" where
  "gRegisterTeamVoicePackets add codec =
     (let codec = add codec SESSION_PACKET_ID SessionSerializer;
          codec = add codec UPLINK_PACKET_ID UplinkSerializer
      in add codec DOWNLINK_PACKET_ID DownlinkSerializer)"

record send_options =
  so_reliable :: bool
  so_ordered :: bool
  so_channel :: u8

definition VOICE_CONTROL_CHANNEL :: u8 where "VOICE_CONTROL_CHANNEL = 1"
definition VOICE_DATA_CHANNEL :: u8 where "VOICE_DATA_CHANNEL = 2"

definition gGetTeamVoiceControlSendOptions :: send_options where
  "gGetTeamVoiceControlSendOptions =
     \<lparr>so_reliable = True, so_ordered = True, so_channel = VOICE_CONTROL_CHANNEL\<rparr>"

definition gGetTeamVoiceDataSendOptions :: send_options where
  "gGetTeamVoiceDataSendOptions =
     \<lparr>so_reliable = False, so_ordered = False, so_channel = VOICE_DATA_CHANNEL\<rparr>"

fun gGetTeamVoicePacketErrorString :: "gTeamVoicePacketError \<Rightarrow> string" where
  "gGetTeamVoicePacketErrorString NONE = ''none''"
| "gGetTeamVoicePacketErrorString TRUNCATED = ''truncated packet''"
| "gGetTeamVoicePacketErrorString TRAILING_DATA = ''trailing packet data''"
| "gGetTeamVoicePacketErrorString INVALID_VERSION = ''invalid protocol version''"
| "gGetTeamVoicePacketErrorString INVALID_FLAGS = ''invalid packet flags''"
| "gGetTeamVoicePacketErrorString INVALID_SESSION = ''invalid session''"
| "gGetTeamVoicePacketErrorString INVALID_GENERATION = ''invalid generation''"
| "gGetTeamVoicePacketErrorString INVALID_SENDER = ''invalid sender''"
| "gGetTeamVoicePacketErrorString EMPTY_PAYLOAD = ''empty Opus payload''"
| "gGetTeamVoicePacketErrorString OVERSIZED_PAYLOAD = ''oversized Opus payload''"
| "gGetTeamVoicePacketErrorString BUFFER_ERROR = ''buffer error''"

definition gIsTeamVoiceSequenceNewer :: "u32 \<Rightarrow> u32 \<Rightarrow> bool" where
  "gIsTeamVoiceSequenceNewer sequence reference =
     (let distance = sequence - reference in distance \<noteq> 0 \<and> distance < 0x80000000)"

definition gTeamVoiceSequenceDistance :: "u32 \<Rightarrow> u32 \<Rightarrow> u32" where
  "gTeamVoiceSequenceDistance newer older = newer - older"

subsection \<open>Validation, as what it guarantees\<close>

lemma validatePayload_NONE:
  "validatePayload p = NONE \<longleftrightarrow> p \<noteq> [] \<and> length p \<le> NETWORK_MAX_OPUS_BYTES"
  by (auto simp: validatePayload_def)

lemma validate_session_NONE:
  "gValidateTeamVoiceSessionPacket p = NONE \<longleftrightarrow> ss_version p = PROTOCOL_VERSION \<and>
     (ss_enabled p \<longrightarrow> ss_sessionid p \<noteq> 0 \<and> ss_membershipgeneration p \<noteq> 0 \<and> ss_playerid p \<noteq> 0)"
  by (auto simp: gValidateTeamVoiceSessionPacket_def)

lemma validate_uplink_NONE:
  "gValidateTeamVoiceUplinkPacket p = NONE \<longleftrightarrow> up_version p = PROTOCOL_VERSION \<and>
     up_flags p AND NOT VALID_VOICE_FLAGS = 0 \<and> up_sessionid p \<noteq> 0 \<and>
     up_membershipgeneration p \<noteq> 0 \<and> up_streamgeneration p \<noteq> 0 \<and>
     up_payload p \<noteq> [] \<and> length (up_payload p) \<le> NETWORK_MAX_OPUS_BYTES"
  by (auto simp: gValidateTeamVoiceUplinkPacket_def validatePayload_NONE)

lemma validate_downlink_NONE:
  "gValidateTeamVoiceDownlinkPacket p = NONE \<longleftrightarrow> dn_version p = PROTOCOL_VERSION \<and>
     dn_flags p AND NOT VALID_VOICE_FLAGS = 0 \<and> dn_sessionid p \<noteq> 0 \<and>
     dn_recipientgeneration p \<noteq> 0 \<and> dn_speakergeneration p \<noteq> 0 \<and>
     dn_streamgeneration p \<noteq> 0 \<and> dn_speakerid p \<noteq> 0 \<and>
     dn_payload p \<noteq> [] \<and> length (dn_payload p) \<le> NETWORK_MAX_OPUS_BYTES"
  by (auto simp: gValidateTeamVoiceDownlinkPacket_def validatePayload_NONE)

lemmas voice_valid = validate_session_NONE validate_uplink_NONE validate_downlink_NONE

lemma payload_size_u16:
  assumes "p \<noteq> []" "length p \<le> NETWORK_MAX_OPUS_BYTES"
  shows "unat (word_of_nat (length p) :: u16) = length p" "(word_of_nat (length p) :: u16) \<noteq> 0"
proof -
  from assms show *: "unat (word_of_nat (length p) :: u16) = length p"
    by (simp add: unsigned_of_nat take_bit_nat_eq_self NETWORK_MAX_OPUS_BYTES_def)
  with assms show "(word_of_nat (length p) :: u16) \<noteq> 0"
    by (metis length_0_conv unat_0)
qed

subsection \<open>What the serializers put on the wire\<close>

definition up_header :: "'f wire \<Rightarrow> gTeamVoiceUplinkPacket \<Rightarrow> bytes" where
  "up_header w p = eU8 w (up_version p) @ eU8 w (up_flags p) @ eU64 w (up_sessionid p) @
     eU32 w (up_membershipgeneration p) @ eU32 w (up_streamgeneration p) @
     eU32 w (up_sequence p) @ eU64 w (up_sampleposition p) @
     eU16 w (word_of_nat (length (up_payload p)))"

definition dn_header :: "'f wire \<Rightarrow> gTeamVoiceDownlinkPacket \<Rightarrow> bytes" where
  "dn_header w p = eU8 w (dn_version p) @ eU8 w (dn_flags p) @ eU64 w (dn_sessionid p) @
     eU32 w (dn_recipientgeneration p) @ eU64 w (dn_speakerid p) @
     eU32 w (dn_speakergeneration p) @ eU32 w (dn_streamgeneration p) @
     eU32 w (dn_sequence p) @ eU64 w (dn_sampleposition p) @
     eU16 w (word_of_nat (length (dn_payload p)))"

context znet_buffer
begin

lemma session_wire:
  assumes "gValidateTeamVoiceSessionPacket p = NONE" "\<not> bad b"
  shows "\<exists>b'. ss_serialize z (Some p) b = Inr b' \<and> \<not> bad b' \<and>
    pend b' = pend b @ eU8 w (ss_version p) @ eU8 w (if ss_enabled p then 1 else 0) @
      eU64 w (ss_sessionid p) @ eU32 w (ss_membershipgeneration p) @ eU64 w (ss_playerid p)"
  using assms by (simp add: ss_serialize_def Let_def)

lemma uplink_wire:
  assumes "gValidateTeamVoiceUplinkPacket p = NONE" "\<not> bad b"
  shows "\<exists>b'. up_serialize z (Some p) b = Inr b' \<and> \<not> bad b' \<and>
    pend b' = pend b @ up_header w p @ up_payload p"
  using assms by (simp add: up_serialize_def Let_def up_header_def)

lemma downlink_wire:
  assumes "gValidateTeamVoiceDownlinkPacket p = NONE" "\<not> bad b"
  shows "\<exists>b'. dn_serialize z (Some p) b = Inr b' \<and> \<not> bad b' \<and>
    pend b' = pend b @ dn_header w p @ dn_payload p"
  using assms by (simp add: dn_serialize_def Let_def dn_header_def)

lemma session_read:
  assumes "gValidateTeamVoiceSessionPacket p = NONE" "\<not> bad b"
    and "pend b = eU8 w (ss_version p) @ eU8 w (if ss_enabled p then 1 else 0) @
      eU64 w (ss_sessionid p) @ eU32 w (ss_membershipgeneration p) @ eU64 w (ss_playerid p) @ []"
  shows "ss_deserialize z (Some b) = Inr p"
proof -
  have "length (pend b) = SESSION_PACKET_BYTES"
    by (simp add: assms(3) SESSION_PACKET_BYTES_def)
  then show ?thesis
    unfolding ss_deserialize_def Let_def option.case readable
    apply (simp only: less_irrefl if_False)
    apply (rule wire_elims, rule assms(3))
    apply (erule wire_elims)+
    using assms(1,2) by (cases p) auto
qed

lemma uplink_read:
  assumes "gValidateTeamVoiceUplinkPacket p = NONE" "\<not> bad b"
    and "pend b = up_header w p @ rest"
  shows "up_deserialize z (Some b) =
    (if length rest < length (up_payload p) then Inl TRUNCATED
     else if length rest > length (up_payload p) then Inl TRAILING_DATA
     else Inr (p\<lparr>up_payload := rest\<rparr>))"
proof -
  have len: "\<not> length (pend b) < UPLINK_HEADER_BYTES"
    by (simp add: assms(3) up_header_def UPLINK_HEADER_BYTES_def)
  note valid = assms(1) [unfolded validate_uplink_NONE]
  then have size: "unat (word_of_nat (length (up_payload p)) :: u16) = length (up_payload p)"
      "(word_of_nat (length (up_payload p)) :: u16) \<noteq> 0"
    using payload_size_u16 by blast+
  show ?thesis
  proof (cases "length rest = length (up_payload p)")
    case True
    with valid assms(1) have "gValidateTeamVoiceUplinkPacket (p\<lparr>up_payload := rest\<rparr>) = NONE"
      by (auto simp: validate_uplink_NONE)
    with True show ?thesis
      unfolding up_deserialize_def Let_def option.case readable if_not_P [OF len]
      apply -
      apply (rule wire_elims, rule assms(3) [unfolded up_header_def append_assoc])
      apply (erule wire_elims)+
      apply (simp add: assms(2) size valid [unfolded NETWORK_MAX_OPUS_BYTES_def]
          NETWORK_MAX_OPUS_BYTES_def not_less)
      apply (rule rdBytesE [where v = rest and r = "[]"])
        apply (simp_all add: True size assms(2))
      apply (cases p)
      apply simp
      done
  next
    case False
    then show ?thesis
      unfolding up_deserialize_def Let_def option.case readable if_not_P [OF len]
      apply -
      apply (rule wire_elims, rule assms(3) [unfolded up_header_def append_assoc])
      apply (erule wire_elims)+
      using assms(2) size valid NETWORK_MAX_OPUS_BYTES_def apply simp
      done
  qed
qed

lemma downlink_read:
  assumes "gValidateTeamVoiceDownlinkPacket p = NONE" "\<not> bad b"
    and "pend b = dn_header w p @ rest"
  shows "dn_deserialize z (Some b) =
    (if length rest < length (dn_payload p) then Inl TRUNCATED
     else if length rest > length (dn_payload p) then Inl TRAILING_DATA
     else Inr (p\<lparr>dn_payload := rest\<rparr>))"
proof -
  have len: "\<not> length (pend b) < DOWNLINK_HEADER_BYTES"
    by (simp add: assms(3) dn_header_def DOWNLINK_HEADER_BYTES_def)
  note valid = assms(1) [unfolded validate_downlink_NONE]
  then have size: "unat (word_of_nat (length (dn_payload p)) :: u16) = length (dn_payload p)"
      "(word_of_nat (length (dn_payload p)) :: u16) \<noteq> 0"
    using payload_size_u16 by blast+
  show ?thesis
  proof (cases "length rest = length (dn_payload p)")
    case True
    with valid assms(1) have "gValidateTeamVoiceDownlinkPacket (p\<lparr>dn_payload := rest\<rparr>) = NONE"
      by (auto simp: validate_downlink_NONE)
    with True show ?thesis
      unfolding dn_deserialize_def Let_def option.case readable if_not_P [OF len]
      apply -
      apply (rule wire_elims, rule assms(3) [unfolded dn_header_def append_assoc])
      apply (erule wire_elims)+
      apply (simp add: assms(2) size valid [unfolded NETWORK_MAX_OPUS_BYTES_def]
          NETWORK_MAX_OPUS_BYTES_def not_less)
      apply (rule rdBytesE [where v = rest and r = "[]"])
        apply (simp_all add: True size assms(2))
      apply (cases p)
      apply simp
      done
  next
    case False
    then show ?thesis
      unfolding dn_deserialize_def Let_def option.case readable if_not_P [OF len]
      apply -
      apply (rule wire_elims, rule assms(3) [unfolded dn_header_def append_assoc])
      apply (erule wire_elims)+
      using assms(2) size valid NETWORK_MAX_OPUS_BYTES_def apply simp
      done
  qed
qed

lemma uplink_prefix:
  assumes "gValidateTeamVoiceUplinkPacket p = NONE" "\<not> bad b"
    and "pend b = take k (up_header w p @ up_payload p)" "k < length (up_header w p @ up_payload p)"
  shows "up_deserialize z (Some b) = Inl TRUNCATED"
proof (cases "k < UPLINK_HEADER_BYTES")
  case True
  with assms(3) have "length (pend b) < UPLINK_HEADER_BYTES" by simp
  then show ?thesis by (simp add: up_deserialize_def)
next
  case False
  have "length (up_header w p) = UPLINK_HEADER_BYTES"
    by (simp add: up_header_def UPLINK_HEADER_BYTES_def)
  with False assms(3,4) show ?thesis
    by (subst uplink_read [OF assms(1,2), of "take (k - UPLINK_HEADER_BYTES) (up_payload p)"]) auto
qed

end

lemma uplink_deserialize_valid:
  "up_deserialize z bo = Inr p \<Longrightarrow> gValidateTeamVoiceUplinkPacket p = NONE"
  by (auto simp: up_deserialize_def Let_def split: option.splits prod.splits if_splits)

lemma downlink_deserialize_valid:
  "dn_deserialize z bo = Inr p \<Longrightarrow> gValidateTeamVoiceDownlinkPacket p = NONE"
  by (auto simp: dn_deserialize_def Let_def split: option.splits prod.splits if_splits)

lemma session_deserialize_valid:
  "ss_deserialize z bo = Inr p \<Longrightarrow> gValidateTeamVoiceSessionPacket p = NONE"
  by (auto simp: ss_deserialize_def Let_def split: option.splits prod.splits if_splits)

lemma sequence_newer_iff: "gIsTeamVoiceSequenceNewer a b \<longleftrightarrow> uint (a - b) \<in> {1..<2 ^ 31}"
proof -
  have "1 \<le> uint (a - b) \<longleftrightarrow> uint (a - b) \<noteq> 0"
    using uint_ge_0 [of "a - b"] by linarith
  moreover have "a - b \<noteq> 0 \<longleftrightarrow> uint (a - b) \<noteq> 0" by (simp only: uint_0_iff not_False_eq_True)
  ultimately show ?thesis
    unfolding gIsTeamVoiceSequenceNewer_def Let_def word_less_def by auto
qed

lemma sequence_flip: "(b :: u32) \<noteq> a \<Longrightarrow> uint (b - a) = 2 ^ 32 - uint (a - b)"
  using uint_word_ariths(2) [of b a] uint_word_ariths(2) [of a b] uint_lt2p [of a] uint_lt2p [of b]
  by (auto simp: mod_sub_if_z uint_sub_if' word_uint_eq_iff)

subsection \<open>Properties\<close>

text \<open>C6. Every uplink packet the validator accepts survives the wire: serialized into an empty
  buffer and read back, it is the same packet, field by field and byte by byte.\<close>

theorem uplink_roundtrip:
  assumes "znet_buffer z pend bad w" and "gValidateTeamVoiceUplinkPacket p = NONE"
    and "pend b = []" and "\<not> bad b"
  shows "\<exists>b'. up_serialize z (Some p) b = Inr b' \<and> up_deserialize z (Some b') = Inr p"
  using znet_buffer.uplink_wire [OF assms(1,2,4)]
    znet_buffer.uplink_read [OF assms(1,2)] assms(3) by fastforce

definition example_uplink :: gTeamVoiceUplinkPacket where
  "example_uplink = \<lparr>up_version = 1, up_flags = 3, up_sessionid = 7, up_membershipgeneration = 2,
     up_streamgeneration = 1, up_sequence = 0xFFFFFFFF, up_sampleposition = 960, up_payload = [1, 2, 3]\<rparr>"

lemma example_uplink_valid: "gValidateTeamVoiceUplinkPacket example_uplink = NONE"
  by (simp add: example_uplink_def validate_uplink_NONE PROTOCOL_VERSION_def VALID_VOICE_FLAGS_def
      FLAG_STREAM_START_def FLAG_DISCONTINUITY_def NETWORK_MAX_OPUS_BYTES_def)

lemma uplink_roundtrip_witness:
  "\<exists>b'. up_serialize mem_ops (Some example_uplink) ([], False) = Inr b' \<and>
     up_deserialize mem_ops (Some b') = Inr example_uplink"
  by (rule uplink_roundtrip [OF mem.znet_buffer_axioms example_uplink_valid]) simp_all

text \<open>The same for the downlink packet the router relays.\<close>

theorem downlink_roundtrip:
  assumes "znet_buffer z pend bad w" and "gValidateTeamVoiceDownlinkPacket p = NONE"
    and "pend b = []" and "\<not> bad b"
  shows "\<exists>b'. dn_serialize z (Some p) b = Inr b' \<and> dn_deserialize z (Some b') = Inr p"
  using znet_buffer.downlink_wire [OF assms(1,2,4)]
    znet_buffer.downlink_read [OF assms(1,2)] assms(3) by fastforce

definition example_downlink :: gTeamVoiceDownlinkPacket where
  "example_downlink = \<lparr>dn_version = 1, dn_flags = 2, dn_sessionid = 7, dn_recipientgeneration = 2,
     dn_speakerid = 9, dn_speakergeneration = 4, dn_streamgeneration = 1, dn_sequence = 5,
     dn_sampleposition = 4800, dn_payload = [9, 8]\<rparr>"

lemma example_downlink_valid: "gValidateTeamVoiceDownlinkPacket example_downlink = NONE"
  by (simp add: example_downlink_def validate_downlink_NONE PROTOCOL_VERSION_def VALID_VOICE_FLAGS_def
      FLAG_STREAM_START_def FLAG_DISCONTINUITY_def NETWORK_MAX_OPUS_BYTES_def)

lemma downlink_roundtrip_witness:
  "\<exists>b'. dn_serialize mem_ops (Some example_downlink) ([], False) = Inr b' \<and>
     dn_deserialize mem_ops (Some b') = Inr example_downlink"
  by (rule downlink_roundtrip [OF mem.znet_buffer_axioms example_downlink_valid]) simp_all

text \<open>The control packet that publishes a player's voice session, or withdraws it, survives
  the wire.\<close>

theorem session_roundtrip:
  assumes "znet_buffer z pend bad w" and "gValidateTeamVoiceSessionPacket p = NONE"
    and "pend b = []" and "\<not> bad b"
  shows "\<exists>b'. ss_serialize z (Some p) b = Inr b' \<and> ss_deserialize z (Some b') = Inr p"
  using znet_buffer.session_wire [OF assms(1,2,4)]
    znet_buffer.session_read [OF assms(1,2)] assms(3) by fastforce

lemma session_roundtrip_witness:
  "\<exists>b'. ss_serialize mem_ops (Some session_default) ([], False) = Inr b' \<and>
     ss_deserialize mem_ops (Some b') = Inr session_default"
  by (rule session_roundtrip [OF mem.znet_buffer_axioms])
    (simp_all add: session_default_def validate_session_NONE)

text \<open>Framing of the uplink: of the bytes of a valid packet, every proper prefix is rejected as
  truncated and every extension as trailing data, so a packet is never read from a buffer that
  does not hold exactly one.\<close>

theorem uplink_framing:
  assumes "znet_buffer z pend bad w" and "gValidateTeamVoiceUplinkPacket p = NONE" and "\<not> bad b"
  shows "(\<forall>k < length (up_header w p @ up_payload p).
      pend b = take k (up_header w p @ up_payload p) \<longrightarrow> up_deserialize z (Some b) = Inl TRUNCATED) \<and>
    (\<forall>extra. pend b = (up_header w p @ up_payload p) @ extra \<longrightarrow> extra \<noteq> [] \<longrightarrow>
      up_deserialize z (Some b) = Inl TRAILING_DATA)"
  using znet_buffer.uplink_prefix [OF assms] znet_buffer.uplink_read [OF assms] by fastforce

lemma uplink_framing_witness:
  "up_deserialize mem_ops (Some (take 33 (up_header mem_wire example_uplink @ up_payload example_uplink), False))
     = Inl TRUNCATED"
  by (rule uplink_framing [OF mem.znet_buffer_axioms example_uplink_valid, THEN conjunct1, rule_format,
        where k = 33])
    (simp_all add: up_header_def example_uplink_def mem_wire_def)

text \<open>Whatever bytes arrive, and whatever the buffer does, a packet that a deserializer returns
  passed its validator: protocol version, flags, non-zero session, generations and sender, and
  a payload of 1 to 256 bytes.\<close>

theorem voice_deserializers_sound:
  "(\<forall>p. up_deserialize z bo = Inr p \<longrightarrow> up_version p = PROTOCOL_VERSION \<and> up_sessionid p \<noteq> 0 \<and>
      up_membershipgeneration p \<noteq> 0 \<and> up_streamgeneration p \<noteq> 0 \<and>
      up_flags p AND NOT VALID_VOICE_FLAGS = 0 \<and> length (up_payload p) \<in> {1..256}) \<and>
   (\<forall>p. dn_deserialize z bo = Inr p \<longrightarrow> dn_version p = PROTOCOL_VERSION \<and> dn_sessionid p \<noteq> 0 \<and>
      dn_recipientgeneration p \<noteq> 0 \<and> dn_speakergeneration p \<noteq> 0 \<and> dn_streamgeneration p \<noteq> 0 \<and>
      dn_speakerid p \<noteq> 0 \<and> dn_flags p AND NOT VALID_VOICE_FLAGS = 0 \<and>
      length (dn_payload p) \<in> {1..256}) \<and>
   (\<forall>p. ss_deserialize z bo = Inr p \<longrightarrow> ss_version p = PROTOCOL_VERSION \<and>
      (ss_enabled p \<longrightarrow> ss_sessionid p \<noteq> 0 \<and> ss_membershipgeneration p \<noteq> 0 \<and> ss_playerid p \<noteq> 0))"
  using uplink_deserialize_valid [of z bo] downlink_deserialize_valid [of z bo]
    session_deserialize_valid [of z bo]
  by (auto simp: voice_valid NETWORK_MAX_OPUS_BYTES_def Suc_le_eq)

lemma voice_deserializers_sound_witness:
  "\<exists>b. ss_deserialize mem_ops (Some b) = Inr session_default \<and>
    ss_version session_default = PROTOCOL_VERSION"
proof -
  have "gValidateTeamVoiceSessionPacket session_default = NONE"
    by (simp add: session_default_def validate_session_NONE)
  from mem.session_read [OF this, of "(_, False)"]
  obtain b where "ss_deserialize mem_ops (Some b) = Inr session_default" by auto
  with voice_deserializers_sound [of mem_ops "Some b"] show ?thesis by blast
qed

text \<open>Sequence numbers are ordered across the wrap: \<open>a\<close> is newer than \<open>b\<close> exactly when it lies
  1 to \<open>2\<^sup>3\<^sup>1 - 1\<close> steps ahead modulo \<open>2\<^sup>3\<^sup>2\<close>; two different numbers are never each newer than the
  other, and one of them is newer unless they are exactly half the range apart; the distance
  of a newer number is that number of steps.\<close>

theorem sequence_order:
  "(gIsTeamVoiceSequenceNewer a b \<longleftrightarrow> (\<exists>d::nat. 1 \<le> d \<and> d < 2 ^ 31 \<and> a = b + word_of_nat d)) \<and>
   (gIsTeamVoiceSequenceNewer a b \<and> gIsTeamVoiceSequenceNewer b a \<longleftrightarrow> False) \<and>
   (gIsTeamVoiceSequenceNewer a b \<or> gIsTeamVoiceSequenceNewer b a \<or> a = b \<or>
      gTeamVoiceSequenceDistance a b = 0x80000000) \<and>
   b + gTeamVoiceSequenceDistance a b = a"
proof (intro conjI)
  show "gIsTeamVoiceSequenceNewer a b \<longleftrightarrow> (\<exists>d::nat. 1 \<le> d \<and> d < 2 ^ 31 \<and> a = b + word_of_nat d)"
  proof
    assume "gIsTeamVoiceSequenceNewer a b"
    then have "1 \<le> uint (a - b)" "uint (a - b) < 2 ^ 31" by (simp_all add: sequence_newer_iff)
    then have "int 1 \<le> int (unat (a - b))" "int (unat (a - b)) < int (2 ^ 31)" by simp_all
    then have "1 \<le> unat (a - b) \<and> unat (a - b) < 2 ^ 31"
      by (simp only: of_nat_le_iff of_nat_less_iff)
    then show "\<exists>d::nat. 1 \<le> d \<and> d < 2 ^ 31 \<and> a = b + word_of_nat d"
      by (intro exI [of _ "unat (a - b)"]) simp
  next
    assume "\<exists>d::nat. 1 \<le> d \<and> d < 2 ^ 31 \<and> a = b + word_of_nat d"
    then show "gIsTeamVoiceSequenceNewer a b"
      by (auto simp: sequence_newer_iff unsigned_of_nat take_bit_nat_eq_self)
  qed
  show "gIsTeamVoiceSequenceNewer a b \<and> gIsTeamVoiceSequenceNewer b a \<longleftrightarrow> False"
    using sequence_flip [of b a] by (cases "a = b") (auto simp: sequence_newer_iff)
  have "uint (a - b) = 2 ^ 31"
    if "a \<noteq> b" "\<not> gIsTeamVoiceSequenceNewer a b" "\<not> gIsTeamVoiceSequenceNewer b a"
  proof -
    have "uint (a - b) \<noteq> 0" using that(1) by (simp only: uint_0_iff) simp
    with that sequence_flip [of b a] uint_ge_0 [of "a - b"] uint_lt2p [of "a - b"]
    show ?thesis unfolding sequence_newer_iff by simp
  qed
  then show "gIsTeamVoiceSequenceNewer a b \<or> gIsTeamVoiceSequenceNewer b a \<or> a = b \<or>
      gTeamVoiceSequenceDistance a b = 0x80000000"
    unfolding gTeamVoiceSequenceDistance_def word_uint_eq_iff [of "a - b"] by auto
  show "b + gTeamVoiceSequenceDistance a b = a"
    by (simp add: gTeamVoiceSequenceDistance_def)
qed

end
