(* ===== verification/VoiceServer.thy ===== *)
theory VoiceServer
  imports VoicePackets
begin

section \<open>The server-authoritative voice router\<close>

text \<open>
  \<open>voice/gTeamVoiceServer.h\<close> and \<open>.cpp\<close>. The router keeps one \<open>Peer\<close> per connection: the state
  the game assigned to it, the generation of that state, whether the client was told about it
  (\<open>controlpublished\<close>), and two token buckets. \<open>pr_uid\<close> is the identity of the
  \<open>shared_ptr<Peer>\<close>, which the source compares to notice that a connection was removed and
  added again. Every section under the router's mutex is one definition; an operation that
  sends between two sections is given by its sections, by their sequential composition, and by
  the steps of a transition relation in which other operations run in between.
\<close>

subsection \<open>State\<close>

record 'f VoiceConfig =
  maxconnections :: nat
  packetspersecond :: 'f
  packetburst :: 'f
  bytespersecond :: 'f
  byteburst :: 'f

definition default_config :: "'f fops \<Rightarrow> 'f VoiceConfig" where
  "default_config fl = \<lparr>maxconnections = 64, packetspersecond = flit fl 65, packetburst = flit fl 20,
     bytespersecond = flit fl 24576, byteburst = flit fl 8192\<rparr>"

record PeerState =
  ps_playerid :: u64
  ps_teamid :: u64
  ps_sessionid :: u64
  ps_cantransmit :: bool
  ps_canreceive :: bool

definition peerstate_default :: PeerState where
  "peerstate_default = \<lparr>ps_playerid = 0, ps_teamid = 0, ps_sessionid = 0,
     ps_cantransmit = False, ps_canreceive = False\<rparr>"

record ('f, 'cb) Peer =
  pr_uid :: nat
  pr_send :: 'cb
  pr_state :: PeerState
  pr_hasstate :: bool
  pr_controlpublished :: bool
  pr_generation :: u32
  pr_packettokens :: 'f
  pr_bytetokens :: 'f
  pr_ratetime :: int

record 'cb Recipient =
  rc_send :: 'cb
  rc_generation :: u32

record ('f, 'cb) VoiceServer =
  vs_config :: "'f VoiceConfig"
  vs_peers :: "(u64, ('f, 'cb) Peer) umap"
  receivedpackets :: u64
  receivedbytes :: u64
  relayedpackets :: u64
  relayedbytes :: u64
  routingrejections :: u64
  malformedpackets :: u64
  ratelimitedpackets :: u64
  sendfailures :: u64
  hearEnemies :: bool
  vs_nextuid :: nat

definition voice_server :: "'f VoiceConfig \<Rightarrow> ('f, 'cb) VoiceServer" where
  "voice_server config = \<lparr>vs_config = config, vs_peers = [], receivedpackets = 0, receivedbytes = 0,
     relayedpackets = 0, relayedbytes = 0, routingrejections = 0, malformedpackets = 0,
     ratelimitedpackets = 0, sendfailures = 0, hearEnemies = False, vs_nextuid = 0\<rparr>"

text \<open>What the router hands to a peer's send callback.\<close>

datatype voice_message =
  ControlMessage gTeamVoiceSessionPacket | RelayMessage gTeamVoiceDownlinkPacket

subsection \<open>Helpers\<close>

definition isValidPeerState :: "PeerState \<Rightarrow> bool" where
  "isValidPeerState state \<longleftrightarrow> ps_playerid state \<noteq> 0 \<and> ps_teamid state \<noteq> 0 \<and> ps_sessionid state \<noteq> 0"

definition peerStatesEqual :: "PeerState \<Rightarrow> PeerState \<Rightarrow> bool" where
  "peerStatesEqual left right \<longleftrightarrow> ps_playerid left = ps_playerid right \<and>
     ps_teamid left = ps_teamid right \<and> ps_sessionid left = ps_sessionid right \<and>
     ps_cantransmit left = ps_cantransmit right \<and> ps_canreceive left = ps_canreceive right"

definition nextGeneration :: "u32 \<Rightarrow> u32" where
  "nextGeneration current = (let current = current + 1 in if current = 0 then current + 1 else current)"

text \<open>\<open>elapsed\<close> is the nanosecond difference converted to a \<open>double\<close> number of seconds.\<close>

definition consumeRate ::
  "'f fops \<Rightarrow> 'f VoiceConfig \<Rightarrow> int \<Rightarrow> ('f, 'cb) Peer \<Rightarrow> nat \<Rightarrow> bool \<times> ('f, 'cb) Peer" where
  "consumeRate fl config now peer bytes =
     (let elapsed = fdiv fl (flit fl (of_int (now - pr_ratetime peer))) (flit fl 1000000000);
          peer = peer\<lparr>pr_ratetime := now\<rparr>;
          peer = peer\<lparr>pr_packettokens := fmin fl (packetburst config)
            (fadd fl (pr_packettokens peer) (fmul fl elapsed (packetspersecond config)))\<rparr>;
          peer = peer\<lparr>pr_bytetokens := fmin fl (byteburst config)
            (fadd fl (pr_bytetokens peer) (fmul fl elapsed (bytespersecond config)))\<rparr>
      in if flt fl (pr_packettokens peer) (flit fl 1)
            \<or> flt fl (pr_bytetokens peer) (flit fl (of_nat bytes))
         then (False, peer)
         else (True, peer\<lparr>pr_packettokens := fsub fl (pr_packettokens peer) (flit fl 1),
                 pr_bytetokens := fsub fl (pr_bytetokens peer) (flit fl (of_nat bytes))\<rparr>))"

subsection \<open>Peers\<close>

definition addPeer ::
  "'f fops \<Rightarrow> int \<Rightarrow> u64 \<Rightarrow> 'cb option \<Rightarrow> ('f, 'cb) VoiceServer \<Rightarrow> bool \<times> ('f, 'cb) VoiceServer" where
  "addPeer fl now connectionid sendcallback s = (case sendcallback of None \<Rightarrow> (False, s) | Some send \<Rightarrow>
     if connectionid = 0 then (False, s)
     else if um_find (vs_peers s) connectionid \<noteq> None then (False, s)
     else if length (vs_peers s) \<ge> maxconnections (vs_config s) then (False, s)
     else let peer = \<lparr>pr_uid = vs_nextuid s, pr_send = send, pr_state = peerstate_default,
                pr_hasstate = False, pr_controlpublished = True, pr_generation = 0,
                pr_packettokens = packetburst (vs_config s), pr_bytetokens = byteburst (vs_config s),
                pr_ratetime = now\<rparr>
          in (True, s\<lparr>vs_peers := um_put connectionid peer (vs_peers s),
                vs_nextuid := vs_nextuid s + 1\<rparr>))"

text \<open>
  The overload that takes a znet session. What it asks the session is a parameter: whether it
  is alive, whether its transport is ZDT, and its id. The callback it installs locks a weak
  pointer, asks again whether the session is alive, and sends.
\<close>

definition addPeer_session ::
  "'f fops \<Rightarrow> int \<Rightarrow> ('s \<Rightarrow> bool) \<Rightarrow> ('s \<Rightarrow> bool) \<Rightarrow> ('s \<Rightarrow> u64) \<Rightarrow> ('s \<Rightarrow> 'cb) \<Rightarrow> 's option
     \<Rightarrow> ('f, 'cb) VoiceServer \<Rightarrow> bool \<times> ('f, 'cb) VoiceServer" where
  "addPeer_session fl now isAlive isZdt sessionId weakCallback session s = (case session of
     None \<Rightarrow> (False, s)
   | Some session \<Rightarrow> if \<not> isAlive session \<or> \<not> isZdt session then (False, s)
       else addPeer fl now (sessionId session) (Some (weakCallback session)) s)"

definition session_callback ::
  "('k \<Rightarrow> 's option) \<Rightarrow> ('s \<Rightarrow> bool) \<Rightarrow> ('s \<Rightarrow> voice_message \<Rightarrow> send_options \<Rightarrow> bool)
     \<Rightarrow> 'k \<Rightarrow> voice_message \<Rightarrow> send_options \<Rightarrow> bool" where
  "session_callback lock isAlive sendPacket weak packet options = (case lock weak of
     None \<Rightarrow> False
   | Some locked \<Rightarrow> isAlive locked \<and> sendPacket locked packet options)"

definition removePeer :: "u64 \<Rightarrow> ('f, 'cb) VoiceServer \<Rightarrow> ('f, 'cb) VoiceServer" where
  "removePeer connectionid s = s\<lparr>vs_peers := um_erase connectionid (vs_peers s)\<rparr>"

definition getPeerCount :: "('f, 'cb) VoiceServer \<Rightarrow> nat" where
  "getPeerCount s = length (vs_peers s)"

definition voice_reset :: "('f, 'cb) VoiceServer \<Rightarrow> ('f, 'cb) VoiceServer" where
  "voice_reset s = s\<lparr>vs_peers := []\<rparr>"

definition setHearEnemiesVoice :: "bool \<Rightarrow> ('f, 'cb) VoiceServer \<Rightarrow> ('f, 'cb) VoiceServer" where
  "setHearEnemiesVoice enable s = s\<lparr>hearEnemies := enable\<rparr>"

definition canHearEnemiesVoice :: "('f, 'cb) VoiceServer \<Rightarrow> bool" where
  "canHearEnemiesVoice s = hearEnemies s"

definition reportMalformedPacket ::
  "gTeamVoicePacketError \<Rightarrow> ('f, 'cb) VoiceServer \<Rightarrow> ('f, 'cb) VoiceServer" where
  "reportMalformedPacket e s = s\<lparr>malformedpackets := malformedpackets s + 1\<rparr>"

record VoiceStats =
  st_receivedpackets :: u64
  st_receivedbytes :: u64
  st_relayedpackets :: u64
  st_relayedbytes :: u64
  st_routingrejections :: u64
  st_malformedpackets :: u64
  st_ratelimitedpackets :: u64
  st_sendfailures :: u64
  st_activeconnections :: nat

definition getStats :: "('f, 'cb) VoiceServer \<Rightarrow> VoiceStats" where
  "getStats s = \<lparr>st_receivedpackets = receivedpackets s, st_receivedbytes = receivedbytes s,
     st_relayedpackets = relayedpackets s, st_relayedbytes = relayedbytes s,
     st_routingrejections = routingrejections s, st_malformedpackets = malformedpackets s,
     st_ratelimitedpackets = ratelimitedpackets s, st_sendfailures = sendfailures s,
     st_activeconnections = getPeerCount s\<rparr>"

subsection \<open>Publishing a peer's voice session\<close>

text \<open>
  \<open>setPeerState\<close> and \<open>clearPeerState\<close> in their critical sections: look the connection up;
  commit the new state under the mutex and decide whether a control packet has to be sent;
  send it outside the mutex; confirm under the mutex that nothing changed meanwhile. A request
  is \<open>Some newstate\<close> to set a state and \<open>None\<close> to clear it.
\<close>

record 'cb PendingControl =
  pc_connection :: u64
  pc_uid :: nat
  pc_send :: 'cb
  pc_generation :: u32
  pc_request :: "PeerState option"

definition lookupPeer :: "u64 \<Rightarrow> ('f, 'cb) VoiceServer \<Rightarrow> nat option" where
  "lookupPeer connectionid s = map_option pr_uid (um_find (vs_peers s) connectionid)"

definition setPeerState_publish ::
  "int \<Rightarrow> u64 \<Rightarrow> nat \<Rightarrow> PeerState \<Rightarrow> ('f, 'cb) VoiceServer
     \<Rightarrow> (bool + 'cb PendingControl) \<times> ('f, 'cb) VoiceServer" where
  "setPeerState_publish now connectionid uid newstate s = (case um_find (vs_peers s) connectionid of
     None \<Rightarrow> (Inl False, s)
   | Some peer \<Rightarrow>
       if pr_uid peer \<noteq> uid then (Inl False, s)
       else if pr_hasstate peer \<and> peerStatesEqual (pr_state peer) newstate \<and> pr_controlpublished peer
         then (Inl True, s)
       else let peer = (if pr_hasstate peer \<and> peerStatesEqual (pr_state peer) newstate then peer
              else peer\<lparr>pr_state := newstate, pr_hasstate := True, pr_controlpublished := False,
                pr_generation := nextGeneration (pr_generation peer),
                pr_packettokens := packetburst (vs_config s),
                pr_bytetokens := byteburst (vs_config s), pr_ratetime := now\<rparr>)
            in (Inr \<lparr>pc_connection = connectionid, pc_uid = uid, pc_send = pr_send peer,
                  pc_generation = pr_generation peer, pc_request = Some newstate\<rparr>,
                s\<lparr>vs_peers := um_put connectionid peer (vs_peers s)\<rparr>))"

definition clearPeerState_publish ::
  "u64 \<Rightarrow> nat \<Rightarrow> ('f, 'cb) VoiceServer
     \<Rightarrow> (bool + 'cb PendingControl) \<times> ('f, 'cb) VoiceServer" where
  "clearPeerState_publish connectionid uid s = (case um_find (vs_peers s) connectionid of
     None \<Rightarrow> (Inl False, s)
   | Some peer \<Rightarrow>
       if pr_uid peer \<noteq> uid then (Inl False, s)
       else if \<not> pr_hasstate peer \<and> pr_controlpublished peer then (Inl True, s)
       else let peer = (if pr_hasstate peer
              then peer\<lparr>pr_hasstate := False, pr_state := peerstate_default,
                pr_generation := nextGeneration (pr_generation peer)\<rparr>
              else peer);
                peer = peer\<lparr>pr_controlpublished := False\<rparr>
            in (Inr \<lparr>pc_connection = connectionid, pc_uid = uid, pc_send = pr_send peer,
                  pc_generation = pr_generation peer, pc_request = None\<rparr>,
                s\<lparr>vs_peers := um_put connectionid peer (vs_peers s)\<rparr>))"

definition control_packet :: "'cb PendingControl \<Rightarrow> gTeamVoiceSessionPacket" where
  "control_packet pc = (case pc_request pc of
     None \<Rightarrow> session_default\<lparr>ss_enabled := False\<rparr>
   | Some newstate \<Rightarrow> session_default\<lparr>ss_enabled := True, ss_sessionid := ps_sessionid newstate,
       ss_membershipgeneration := pc_generation pc, ss_playerid := ps_playerid newstate\<rparr>)"

definition setPeerState_confirm ::
  "'cb PendingControl \<Rightarrow> PeerState \<Rightarrow> bool \<Rightarrow> ('f, 'cb) VoiceServer \<Rightarrow> bool \<times> ('f, 'cb) VoiceServer" where
  "setPeerState_confirm pc newstate sent s =
     (if \<not> sent then (False, s\<lparr>sendfailures := sendfailures s + 1\<rparr>)
      else case um_find (vs_peers s) (pc_connection pc) of
        None \<Rightarrow> (False, s)
      | Some peer \<Rightarrow>
          if pr_uid peer \<noteq> pc_uid pc \<or> \<not> pr_hasstate peer \<or> pr_generation peer \<noteq> pc_generation pc
              \<or> \<not> peerStatesEqual (pr_state peer) newstate then (False, s)
          else (True, s\<lparr>vs_peers := um_put (pc_connection pc)
                  (peer\<lparr>pr_controlpublished := True\<rparr>) (vs_peers s)\<rparr>))"

definition clearPeerState_confirm ::
  "'cb PendingControl \<Rightarrow> bool \<Rightarrow> ('f, 'cb) VoiceServer \<Rightarrow> bool \<times> ('f, 'cb) VoiceServer" where
  "clearPeerState_confirm pc sent s =
     (if \<not> sent then (False, s\<lparr>sendfailures := sendfailures s + 1\<rparr>)
      else case um_find (vs_peers s) (pc_connection pc) of
        None \<Rightarrow> (False, s)
      | Some peer \<Rightarrow>
          if pr_uid peer \<noteq> pc_uid pc \<or> pr_hasstate peer \<or> pr_generation peer \<noteq> pc_generation pc
            then (False, s)
          else (True, s\<lparr>vs_peers := um_put (pc_connection pc)
                  (peer\<lparr>pr_controlpublished := True\<rparr>) (vs_peers s)\<rparr>))"

text \<open>The whole operations, with nothing in between; \<open>deliver\<close> answers what the callback returns.\<close>

definition clearPeerState ::
  "('cb \<Rightarrow> voice_message \<Rightarrow> send_options \<Rightarrow> bool) \<Rightarrow> u64 \<Rightarrow> ('f, 'cb) VoiceServer
     \<Rightarrow> bool \<times> ('f, 'cb) VoiceServer" where
  "clearPeerState deliver connectionid s = (case lookupPeer connectionid s of
     None \<Rightarrow> (False, s)
   | Some uid \<Rightarrow> (case clearPeerState_publish connectionid uid s of
       (Inl r, s) \<Rightarrow> (r, s)
     | (Inr pc, s) \<Rightarrow> clearPeerState_confirm pc
         (deliver (pc_send pc) (ControlMessage (control_packet pc)) gGetTeamVoiceControlSendOptions) s))"

definition setPeerState ::
  "('cb \<Rightarrow> voice_message \<Rightarrow> send_options \<Rightarrow> bool) \<Rightarrow> int \<Rightarrow> u64 \<Rightarrow> PeerState \<Rightarrow> ('f, 'cb) VoiceServer
     \<Rightarrow> bool \<times> ('f, 'cb) VoiceServer" where
  "setPeerState deliver now connectionid newstate s =
     (if \<not> isValidPeerState newstate then clearPeerState deliver connectionid s
      else case lookupPeer connectionid s of
        None \<Rightarrow> (False, s)
      | Some uid \<Rightarrow> (case setPeerState_publish now connectionid uid newstate s of
          (Inl r, s) \<Rightarrow> (r, s)
        | (Inr pc, s) \<Rightarrow> setPeerState_confirm pc newstate
            (deliver (pc_send pc) (ControlMessage (control_packet pc)) gGetTeamVoiceControlSendOptions) s))"

subsection \<open>Relaying a voice packet\<close>

definition may_transmit :: "gTeamVoiceUplinkPacket \<Rightarrow> ('f, 'cb) Peer \<Rightarrow> bool" where
  "may_transmit packet sender \<longleftrightarrow> \<not> (\<not> pr_hasstate sender \<or> \<not> pr_controlpublished sender
     \<or> \<not> ps_cantransmit (pr_state sender) \<or> \<not> isValidPeerState (pr_state sender)
     \<or> up_sessionid packet \<noteq> ps_sessionid (pr_state sender)
     \<or> up_membershipgeneration packet \<noteq> pr_generation sender)"

definition may_receive :: "bool \<Rightarrow> PeerState \<Rightarrow> ('f, 'cb) Peer \<Rightarrow> bool" where
  "may_receive hear senderstate peer =
     (if \<not> pr_hasstate peer \<or> \<not> pr_controlpublished peer \<or> \<not> ps_canreceive (pr_state peer)
         \<or> \<not> isValidPeerState (pr_state peer) then False
      else if ps_sessionid (pr_state peer) \<noteq> ps_sessionid senderstate then False
      else hear \<or> ps_teamid (pr_state peer) = 0 \<or> ps_teamid senderstate = 0
         \<or> ps_teamid (pr_state peer) = ps_teamid senderstate)"

fun select_recipients ::
  "u64 \<Rightarrow> bool \<Rightarrow> PeerState \<Rightarrow> (u64 \<times> ('f, 'cb) Peer) list \<Rightarrow> 'cb Recipient list" where
  "select_recipients senderconnectionid hear senderstate [] = []"
| "select_recipients senderconnectionid hear senderstate ((c, peer) # rest) =
     (if c = senderconnectionid \<or> \<not> may_receive hear senderstate peer
      then select_recipients senderconnectionid hear senderstate rest
      else \<lparr>rc_send = pr_send peer, rc_generation = pr_generation peer\<rparr>
             # select_recipients senderconnectionid hear senderstate rest)"

definition relay_packet ::
  "gTeamVoiceUplinkPacket \<Rightarrow> PeerState \<Rightarrow> u32 \<Rightarrow> 'cb Recipient \<Rightarrow> gTeamVoiceDownlinkPacket" where
  "relay_packet packet senderstate speakergeneration recipient = downlink_default\<lparr>
     dn_flags := up_flags packet, dn_sessionid := ps_sessionid senderstate,
     dn_recipientgeneration := rc_generation recipient, dn_speakerid := ps_playerid senderstate,
     dn_speakergeneration := speakergeneration, dn_streamgeneration := up_streamgeneration packet,
     dn_sequence := up_sequence packet, dn_sampleposition := up_sampleposition packet,
     dn_payload := up_payload packet\<rparr>"

text \<open>The send loop: what was handed to which callback, in order, with its answer.\<close>

fun relay_all ::
  "('cb \<Rightarrow> voice_message \<Rightarrow> send_options \<Rightarrow> bool) \<Rightarrow> gTeamVoiceUplinkPacket \<Rightarrow> PeerState \<Rightarrow> u32
     \<Rightarrow> 'cb Recipient list \<Rightarrow> ('f, 'cb) VoiceServer
     \<Rightarrow> ('cb \<times> gTeamVoiceDownlinkPacket \<times> bool) list \<times> ('f, 'cb) VoiceServer" where
  "relay_all deliver packet senderstate generation [] s = ([], s)"
| "relay_all deliver packet senderstate generation (r # rs) s =
     (let relay = relay_packet packet senderstate generation r;
          sent = deliver (rc_send r) (RelayMessage relay) gGetTeamVoiceDataSendOptions;
          s = (if sent then s\<lparr>relayedpackets := relayedpackets s + 1,
                 relayedbytes := relayedbytes s + word_of_nat (length (dn_payload relay))\<rparr>
               else s\<lparr>sendfailures := sendfailures s + 1\<rparr>);
          (sends, s) = relay_all deliver packet senderstate generation rs s
      in ((rc_send r, relay, sent) # sends, s))"

definition handleVoicePacket ::
  "'f fops \<Rightarrow> ('cb \<Rightarrow> voice_message \<Rightarrow> send_options \<Rightarrow> bool) \<Rightarrow> int \<Rightarrow> u64 \<Rightarrow> gTeamVoiceUplinkPacket
     \<Rightarrow> ('f, 'cb) VoiceServer
     \<Rightarrow> ('cb \<times> gTeamVoiceDownlinkPacket \<times> bool) list \<times> ('f, 'cb) VoiceServer" where
  "handleVoicePacket fl deliver now senderconnectionid packet s =
     (let validation = gValidateTeamVoiceUplinkPacket packet in
      if validation \<noteq> NONE then ([], reportMalformedPacket validation s)
      else
        let s = s\<lparr>receivedpackets := receivedpackets s + 1,
              receivedbytes := receivedbytes s + word_of_nat (length (up_payload packet))\<rparr>;
            rejected = s\<lparr>routingrejections := routingrejections s + 1\<rparr>
        in case um_find (vs_peers s) senderconnectionid of
             None \<Rightarrow> ([], rejected)
           | Some sender \<Rightarrow>
               if \<not> may_transmit packet sender then ([], rejected)
               else (case consumeRate fl (vs_config s) now sender (length (up_payload packet)) of
                 (admitted, sender) \<Rightarrow>
                   (let s = s\<lparr>vs_peers := um_put senderconnectionid sender (vs_peers s)\<rparr> in
                    if \<not> admitted then ([], s\<lparr>ratelimitedpackets := ratelimitedpackets s + 1\<rparr>)
                    else relay_all deliver packet (pr_state sender) (pr_generation sender)
                      (select_recipients senderconnectionid (hearEnemies s) (pr_state sender)
                         (vs_peers s)) s)))"

subsection \<open>Elementary facts\<close>

lemma peerStatesEqual_iff [simp]: "peerStatesEqual a b \<longleftrightarrow> a = b"
  by (cases a; cases b) (auto simp: peerStatesEqual_def)

lemma nextGeneration_nz [simp]: "nextGeneration g \<noteq> 0"
  by (simp add: nextGeneration_def Let_def)

lemma nextGeneration_changes [simp]: "nextGeneration g \<noteq> g"
proof -
  have "g + 2 \<noteq> g" by simp
  then show ?thesis by (auto simp: nextGeneration_def Let_def)
qed

lemma consumeRate_frame:
  assumes "consumeRate fl cfg now peer n = (ok, peer')"
  shows "pr_uid peer' = pr_uid peer" "pr_send peer' = pr_send peer"
    "pr_state peer' = pr_state peer" "pr_hasstate peer' = pr_hasstate peer"
    "pr_controlpublished peer' = pr_controlpublished peer"
    "pr_generation peer' = pr_generation peer"
  using assms by (auto simp: consumeRate_def Let_def split: if_splits)

lemma relay_all_frame [simp]:
  "vs_peers (snd (relay_all deliver p st g rs s)) = vs_peers s"
  "vs_config (snd (relay_all deliver p st g rs s)) = vs_config s"
  "vs_nextuid (snd (relay_all deliver p st g rs s)) = vs_nextuid s"
  "hearEnemies (snd (relay_all deliver p st g rs s)) = hearEnemies s"
  "receivedpackets (snd (relay_all deliver p st g rs s)) = receivedpackets s"
  "receivedbytes (snd (relay_all deliver p st g rs s)) = receivedbytes s"
  "routingrejections (snd (relay_all deliver p st g rs s)) = routingrejections s"
  "malformedpackets (snd (relay_all deliver p st g rs s)) = malformedpackets s"
  "ratelimitedpackets (snd (relay_all deliver p st g rs s)) = ratelimitedpackets s"
  by (induction rs arbitrary: s) (simp_all add: Let_def case_prod_beta)

lemma relay_all_log:
  "fst (relay_all deliver p st g rs s) = map (\<lambda>r. (rc_send r, relay_packet p st g r,
      deliver (rc_send r) (RelayMessage (relay_packet p st g r)) gGetTeamVoiceDataSendOptions)) rs"
  by (induction rs arbitrary: s) (simp_all add: Let_def case_prod_beta)

definition sent_ok :: "('cb \<times> gTeamVoiceDownlinkPacket \<times> bool) list \<Rightarrow> nat" where
  "sent_ok sends = length (filter (\<lambda>x. snd (snd x)) sends)"

definition sent_failed :: "('cb \<times> gTeamVoiceDownlinkPacket \<times> bool) list \<Rightarrow> nat" where
  "sent_failed sends = length (filter (\<lambda>x. \<not> snd (snd x)) sends)"

lemma relay_all_counts:
  "relayedpackets (snd (relay_all deliver p st g rs s)) =
     relayedpackets s + word_of_nat (sent_ok (fst (relay_all deliver p st g rs s)))"
  "relayedbytes (snd (relay_all deliver p st g rs s)) = relayedbytes s
     + word_of_nat (sent_ok (fst (relay_all deliver p st g rs s)) * length (up_payload p))"
  "sendfailures (snd (relay_all deliver p st g rs s)) =
     sendfailures s + word_of_nat (sent_failed (fst (relay_all deliver p st g rs s)))"
  by (induction rs arbitrary: s)
    (simp_all add: Let_def case_prod_beta relay_packet_def sent_ok_def sent_failed_def algebra_simps)

lemma select_recipients_map:
  "select_recipients c hear st ps =
    map (\<lambda>(_, p). \<lparr>rc_send = pr_send p, rc_generation = pr_generation p\<rparr>)
      (filter (\<lambda>(c', p). c' \<noteq> c \<and> may_receive hear st p) ps)"
  by (induction c hear st ps rule: select_recipients.induct) auto

subsection \<open>The invariant of the router\<close>

definition peer_ok :: "('f, 'cb) Peer \<Rightarrow> bool" where
  "peer_ok p \<longleftrightarrow> (if pr_hasstate p then isValidPeerState (pr_state p) \<and> pr_generation p \<noteq> 0
     else pr_state p = peerstate_default)"

definition voice_inv :: "('f, 'cb) VoiceServer \<Rightarrow> bool" where
  "voice_inv s \<longleftrightarrow> um_wf (vs_peers s) \<and> length (vs_peers s) \<le> maxconnections (vs_config s) \<and>
     (\<forall>c p. um_find (vs_peers s) c = Some p \<longrightarrow> c \<noteq> 0 \<and> peer_ok p \<and> pr_uid p < vs_nextuid s) \<and>
     (\<forall>c c' p p'. um_find (vs_peers s) c = Some p \<longrightarrow> um_find (vs_peers s) c' = Some p' \<longrightarrow>
        pr_uid p = pr_uid p' \<longrightarrow> c = c')"

lemma voice_inv_counters [simp]:
  "voice_inv (s\<lparr>sendfailures := n\<rparr>) = voice_inv s"
  "voice_inv (s\<lparr>malformedpackets := n\<rparr>) = voice_inv s"
  "voice_inv (s\<lparr>hearEnemies := h\<rparr>) = voice_inv s"
  by (simp_all add: voice_inv_def)

lemma voice_inv_same:
  "voice_inv s \<Longrightarrow> vs_peers s' = vs_peers s \<Longrightarrow> vs_config s' = vs_config s \<Longrightarrow>
    vs_nextuid s' = vs_nextuid s \<Longrightarrow> voice_inv s'"
  by (simp add: voice_inv_def)

lemma voice_inv_find:
  "voice_inv s \<Longrightarrow> um_find (vs_peers s) c = Some p \<Longrightarrow> c \<noteq> 0 \<and> peer_ok p \<and> pr_uid p < vs_nextuid s"
  by (auto simp: voice_inv_def)

text \<open>Replacing a known peer by one with the same identity.\<close>

lemma voice_inv_put:
  assumes "voice_inv s" "um_find (vs_peers s) c = Some p" "pr_uid p' = pr_uid p" "peer_ok p'"
  shows "voice_inv (s\<lparr>vs_peers := um_put c p' (vs_peers s)\<rparr>)"
  using assms unfolding voice_inv_def
  by (simp add: um_put_known) metis

lemma voice_inv_init [inv_intros]: "voice_inv (voice_server cfg)"
  by (simp add: voice_inv_def voice_server_def)

lemma voice_inv_addPeer [inv_intros]:
  assumes "voice_inv s" shows "voice_inv (snd (addPeer fl now c cb s))"
proof -
  have "voice_inv (s\<lparr>vs_peers := um_put c p (vs_peers s), vs_nextuid := vs_nextuid s + 1\<rparr>)"
    if "um_find (vs_peers s) c = None" "c \<noteq> 0" "length (vs_peers s) < maxconnections (vs_config s)"
      "peer_ok p" "pr_uid p = vs_nextuid s" for p
    using assms that unfolding voice_inv_def
    by (simp add: um_len_put_fresh) (metis less_Suc_eq less_irrefl)
  with assms show ?thesis
    by (auto simp: addPeer_def Let_def not_le peer_ok_def split: option.splits)
qed

lemma voice_inv_removePeer [inv_intros]: "voice_inv s \<Longrightarrow> voice_inv (removePeer c s)"
  using um_len_erase [of c "vs_peers s"] unfolding voice_inv_def removePeer_def
  by simp

lemma voice_inv_misc [inv_intros]:
  "voice_inv s \<Longrightarrow> voice_inv (voice_reset s)"
  "voice_inv s \<Longrightarrow> voice_inv (setHearEnemiesVoice h s)"
  "voice_inv s \<Longrightarrow> voice_inv (reportMalformedPacket e s)"
  by (simp_all add: voice_inv_def voice_reset_def setHearEnemiesVoice_def reportMalformedPacket_def)

lemma voice_inv_setPublish [inv_intros]:
  assumes "voice_inv s" "isValidPeerState st"
  shows "voice_inv (snd (setPeerState_publish now c uid st s))"
proof (cases "um_find (vs_peers s) c")
  case (Some p)
  have "peer_ok p" using voice_inv_find [OF assms(1) Some] by blast
  with Some assms show ?thesis
    by (auto simp: setPeerState_publish_def Let_def peer_ok_def intro!: voice_inv_put)
qed (use assms in \<open>simp add: setPeerState_publish_def\<close>)

lemma voice_inv_clearPublish [inv_intros]:
  assumes "voice_inv s"
  shows "voice_inv (snd (clearPeerState_publish c uid s))"
proof (cases "um_find (vs_peers s) c")
  case (Some p)
  have "peer_ok p" using voice_inv_find [OF assms(1) Some] by blast
  with Some assms show ?thesis
    by (auto simp: clearPeerState_publish_def Let_def peer_ok_def intro!: voice_inv_put)
qed (use assms in \<open>simp add: clearPeerState_publish_def\<close>)

lemma voice_inv_setConfirm [inv_intros]:
  assumes "voice_inv s" shows "voice_inv (snd (setPeerState_confirm pc st sent s))"
proof (cases "um_find (vs_peers s) (pc_connection pc)")
  case (Some p)
  have "peer_ok p" using voice_inv_find [OF assms(1) Some] by blast
  with Some assms show ?thesis
    by (auto simp: setPeerState_confirm_def peer_ok_def intro!: voice_inv_put)
qed (use assms in \<open>simp add: setPeerState_confirm_def\<close>)

lemma voice_inv_clearConfirm [inv_intros]:
  assumes "voice_inv s" shows "voice_inv (snd (clearPeerState_confirm pc sent s))"
proof (cases "um_find (vs_peers s) (pc_connection pc)")
  case (Some p)
  have "peer_ok p" using voice_inv_find [OF assms(1) Some] by blast
  with Some assms show ?thesis
    by (auto simp: clearPeerState_confirm_def peer_ok_def intro!: voice_inv_put)
qed (use assms in \<open>simp add: clearPeerState_confirm_def\<close>)

lemma handleVoicePacket_peers:
  assumes "handleVoicePacket fl deliver now c packet s = (sends, s')"
  shows "vs_config s' = vs_config s \<and> vs_nextuid s' = vs_nextuid s \<and> hearEnemies s' = hearEnemies s \<and>
    (vs_peers s' = vs_peers s \<or> (\<exists>p ok p'. um_find (vs_peers s) c = Some p \<and>
      consumeRate fl (vs_config s) now p (length (up_payload packet)) = (ok, p') \<and>
      vs_peers s' = um_put c p' (vs_peers s)))"
proof -
  have s': "s' = snd (handleVoicePacket fl deliver now c packet s)" using assms by simp
  show ?thesis
    unfolding s' handleVoicePacket_def Let_def
    by (auto simp: reportMalformedPacket_def split: option.splits prod.splits)
qed

lemma voice_inv_handle [inv_intros]:
  assumes "voice_inv s" shows "voice_inv (snd (handleVoicePacket fl deliver now c packet s))"
proof -
  obtain sends s' where *: "handleVoicePacket fl deliver now c packet s = (sends, s')"
    by (cases "handleVoicePacket fl deliver now c packet s")
  have same: "voice_inv s'" if "voice_inv (s\<lparr>vs_peers := vs_peers s'\<rparr>)"
    using that handleVoicePacket_peers [OF *] by (auto simp: voice_inv_def)
  from handleVoicePacket_peers [OF *] have "voice_inv (s\<lparr>vs_peers := vs_peers s'\<rparr>)"
  proof (elim conjE disjE exE)
    fix p ok p'
    assume p: "um_find (vs_peers s) c = Some p" and put: "vs_peers s' = um_put c p' (vs_peers s)"
      and r: "consumeRate fl (vs_config s) now p (length (up_payload packet)) = (ok, p')"
    have "peer_ok p'"
      using voice_inv_find [OF assms p] consumeRate_frame [OF r] by (simp add: peer_ok_def)
    then show ?thesis
      using voice_inv_put [OF assms p consumeRate_frame(1) [OF r]] put by simp
  qed (use assms in simp)
  with same * show ?thesis by simp
qed

subsection \<open>The router under concurrent callers\<close>

text \<open>
  Any number of threads call the router. \<open>sy_requests\<close> holds the control operations that have
  looked their peer up, \<open>sy_pending\<close> those that committed and are about to send, \<open>sy_sent\<close> those
  whose send succeeded and that have to confirm; \<open>sy_delivered\<close> records every control packet a
  callback accepted, with the identity of its peer. Every other operation may run at any point.
  The per-peer control mutex only removes interleavings and is left out.
\<close>

record ('f, 'cb) voice_system =
  sy_server :: "('f, 'cb) VoiceServer"
  sy_requests :: "(u64 \<times> nat \<times> PeerState option) list"
  sy_pending :: "'cb PendingControl list"
  sy_sent :: "'cb PendingControl list"
  sy_delivered :: "(nat \<times> gTeamVoiceSessionPacket) list"

fun publish_control ::
  "int \<Rightarrow> u64 \<times> nat \<times> PeerState option \<Rightarrow> ('f, 'cb) VoiceServer
     \<Rightarrow> (bool + 'cb PendingControl) \<times> ('f, 'cb) VoiceServer" where
  "publish_control now (c, uid, Some st) s = setPeerState_publish now c uid st s"
| "publish_control now (c, uid, None) s = clearPeerState_publish c uid s"

definition confirm_control ::
  "'cb PendingControl \<Rightarrow> bool \<Rightarrow> ('f, 'cb) VoiceServer \<Rightarrow> bool \<times> ('f, 'cb) VoiceServer" where
  "confirm_control pc sent s = (case pc_request pc of
     Some st \<Rightarrow> setPeerState_confirm pc st sent s
   | None \<Rightarrow> clearPeerState_confirm pc sent s)"

inductive voice_step :: "'f fops \<Rightarrow> ('f, 'cb) voice_system \<Rightarrow> ('f, 'cb) voice_system \<Rightarrow> bool"
  for fl where
  step_add: "voice_step fl y (y\<lparr>sy_server := snd (addPeer fl now c cb (sy_server y))\<rparr>)"
| step_remove: "voice_step fl y (y\<lparr>sy_server := removePeer c (sy_server y)\<rparr>)"
| step_reset: "voice_step fl y (y\<lparr>sy_server := voice_reset (sy_server y)\<rparr>)"
| step_hear: "voice_step fl y (y\<lparr>sy_server := setHearEnemiesVoice h (sy_server y)\<rparr>)"
| step_malformed: "voice_step fl y (y\<lparr>sy_server := reportMalformedPacket e (sy_server y)\<rparr>)"
| step_packet:
    "voice_step fl y (y\<lparr>sy_server := snd (handleVoicePacket fl deliver now c packet (sy_server y))\<rparr>)"
| step_request: "lookupPeer c (sy_server y) = Some uid \<Longrightarrow> (case req of None \<Rightarrow> True | Some st \<Rightarrow> isValidPeerState st)
    \<Longrightarrow> voice_step fl y (y\<lparr>sy_requests := (c, uid, req) # sy_requests y\<rparr>)"
| step_publish: "rq \<in> set (sy_requests y) \<Longrightarrow> publish_control now rq (sy_server y) = (Inr pc, s') \<Longrightarrow>
    voice_step fl y (y\<lparr>sy_server := s', sy_requests := remove1 rq (sy_requests y),
      sy_pending := pc # sy_pending y\<rparr>)"
| step_no_publish: "rq \<in> set (sy_requests y) \<Longrightarrow> publish_control now rq (sy_server y) = (Inl r, s') \<Longrightarrow>
    voice_step fl y (y\<lparr>sy_server := s', sy_requests := remove1 rq (sy_requests y)\<rparr>)"
| step_sent: "pc \<in> set (sy_pending y) \<Longrightarrow>
    voice_step fl y (y\<lparr>sy_pending := remove1 pc (sy_pending y), sy_sent := pc # sy_sent y,
      sy_delivered := (pc_uid pc, control_packet pc) # sy_delivered y\<rparr>)"
| step_failed: "pc \<in> set (sy_pending y) \<Longrightarrow>
    voice_step fl y (y\<lparr>sy_server := snd (confirm_control pc False (sy_server y)),
      sy_pending := remove1 pc (sy_pending y)\<rparr>)"
| step_confirm: "pc \<in> set (sy_sent y) \<Longrightarrow>
    voice_step fl y (y\<lparr>sy_server := snd (confirm_control pc True (sy_server y)),
      sy_sent := remove1 pc (sy_sent y)\<rparr>)"

definition voice_system_init :: "('f, 'cb) voice_system \<Rightarrow> bool" where
  "voice_system_init y \<longleftrightarrow> (\<exists>cfg. sy_server y = voice_server cfg) \<and> sy_requests y = [] \<and>
     sy_pending y = [] \<and> sy_sent y = [] \<and> sy_delivered y = []"

text \<open>The control packet that tells a client its session, generation and player id.\<close>

definition credentials :: "('f, 'cb) Peer \<Rightarrow> gTeamVoiceSessionPacket" where
  "credentials p = session_default\<lparr>ss_enabled := True, ss_sessionid := ps_sessionid (pr_state p),
     ss_membershipgeneration := pr_generation p, ss_playerid := ps_playerid (pr_state p)\<rparr>"

definition told :: "(nat \<times> gTeamVoiceSessionPacket) list \<Rightarrow> ('f, 'cb) VoiceServer \<Rightarrow> bool" where
  "told delivered s \<longleftrightarrow> (\<forall>c p. um_find (vs_peers s) c = Some p \<longrightarrow> pr_hasstate p \<longrightarrow>
     pr_controlpublished p \<longrightarrow> (pr_uid p, credentials p) \<in> set delivered)"

definition system_inv :: "('f, 'cb) voice_system \<Rightarrow> bool" where
  "system_inv y \<longleftrightarrow> voice_inv (sy_server y) \<and> told (sy_delivered y) (sy_server y) \<and>
     (\<forall>c uid st. (c, uid, Some st) \<in> set (sy_requests y) \<longrightarrow> isValidPeerState st) \<and>
     (\<forall>pc \<in> set (sy_sent y). (pc_uid pc, control_packet pc) \<in> set (sy_delivered y))"

lemma told_put:
  "told d s \<Longrightarrow> (pr_hasstate p' \<Longrightarrow> pr_controlpublished p' \<Longrightarrow> (pr_uid p', credentials p') \<in> set d) \<Longrightarrow>
    told d (s\<lparr>vs_peers := um_put c p' (vs_peers s)\<rparr>)"
  by (auto simp: told_def)

lemma told_mono: "told d s \<Longrightarrow> told (x # d) s"
  by (auto simp: told_def)

lemma told_counters [simp]: "told d (s\<lparr>sendfailures := n\<rparr>) = told d s"
  by (simp add: told_def)

lemma told_cong: "vs_peers s' = vs_peers s \<Longrightarrow> told d s' = told d s"
  by (simp add: told_def)

lemma told_misc [inv_intros]:
  "told d s \<Longrightarrow> told d (voice_reset s)"
  "told d s \<Longrightarrow> told d (setHearEnemiesVoice h s)"
  "told d s \<Longrightarrow> told d (reportMalformedPacket e s)"
  "told d s \<Longrightarrow> told d (removePeer c s)"
  by (simp_all add: told_def voice_reset_def setHearEnemiesVoice_def reportMalformedPacket_def
      removePeer_def)

lemma told_addPeer [inv_intros]: "told d s \<Longrightarrow> told d (snd (addPeer fl now c cb s))"
  by (auto simp: addPeer_def Let_def told_def split: option.splits)

lemma told_handle [inv_intros]:
  assumes "told d s" shows "told d (snd (handleVoicePacket fl deliver now c packet s))"
proof -
  obtain sends s' where *: "handleVoicePacket fl deliver now c packet s = (sends, s')"
    by (cases "handleVoicePacket fl deliver now c packet s")
  from handleVoicePacket_peers [OF *] have "told d s'"
  proof (elim conjE disjE exE)
    fix p ok p'
    assume p: "um_find (vs_peers s) c = Some p" and put: "vs_peers s' = um_put c p' (vs_peers s)"
      and r: "consumeRate fl (vs_config s) now p (length (up_payload packet)) = (ok, p')"
    have "credentials p' = credentials p" using consumeRate_frame [OF r] by (simp add: credentials_def)
    with p consumeRate_frame [OF r] assms have "told d (s\<lparr>vs_peers := um_put c p' (vs_peers s)\<rparr>)"
      by (intro told_put) (auto simp: told_def)
    with put show ?thesis by (simp add: told_def)
  qed (use assms in \<open>simp add: told_def\<close>)
  with * show ?thesis by simp
qed

lemma told_publish [inv_intros]:
  assumes "told d s" shows "told d (snd (publish_control now rq s))"
proof (cases "(now, rq, s)" rule: publish_control.cases)
  case (1 now' c uid st s')
  with assms show ?thesis
    by (auto simp: setPeerState_publish_def Let_def split: option.splits intro!: told_put)
next
  case (2 now' c uid s')
  with assms show ?thesis
    by (auto simp: clearPeerState_publish_def Let_def split: option.splits intro!: told_put)
qed

lemma told_confirm [inv_intros]:
  assumes "told d s" and "(pc_uid pc, control_packet pc) \<in> set d"
  shows "told d (snd (confirm_control pc True s))"
proof (cases "pc_request pc")
  case None
  with assms show ?thesis
    by (auto simp: confirm_control_def clearPeerState_confirm_def split: option.splits intro!: told_put)
next
  case (Some st)
  with assms show ?thesis
    by (auto simp: confirm_control_def setPeerState_confirm_def control_packet_def credentials_def
        split: option.splits intro!: told_put)
qed

lemma told_confirm_failed [inv_intros]: "told d s \<Longrightarrow> told d (snd (confirm_control pc False s))"
  by (auto simp: confirm_control_def setPeerState_confirm_def clearPeerState_confirm_def
      split: option.splits)

lemma voice_inv_publish [inv_intros]:
  "voice_inv s \<Longrightarrow> (\<And>st. snd (snd rq) = Some st \<Longrightarrow> isValidPeerState st) \<Longrightarrow>
    voice_inv (snd (publish_control now rq s))"
  by (cases "(now, rq, s)" rule: publish_control.cases)
    (auto intro: voice_inv_setPublish voice_inv_clearPublish)

lemma voice_inv_confirm [inv_intros]: "voice_inv s \<Longrightarrow> voice_inv (snd (confirm_control pc sent s))"
  by (auto simp: confirm_control_def split: option.splits
      intro: voice_inv_setConfirm voice_inv_clearConfirm)

lemma system_inv_publish:
  assumes "system_inv y" "rq \<in> set (sy_requests y)" "publish_control now rq (sy_server y) = (r, s')"
  shows "voice_inv s' \<and> told (sy_delivered y) s'"
  using voice_inv_publish [of "sy_server y" rq now] told_publish [of "sy_delivered y" "sy_server y" now rq]
    assms by (cases rq) (auto simp: system_inv_def)

lemma system_inv_step:
  assumes "voice_step fl y y'" and "system_inv y" shows "system_inv y'"
  using assms
proof cases
  case (step_publish rq now pc s')
  with system_inv_publish [OF assms(2)] assms(2) show ?thesis
    by (auto simp: system_inv_def dest: in_remove1D)
next
  case (step_no_publish rq now r s')
  with system_inv_publish [OF assms(2)] assms(2) show ?thesis
    by (auto simp: system_inv_def dest: in_remove1D)
next
  case (step_confirm pc)
  with assms(2) show ?thesis
    by (auto simp: system_inv_def intro!: told_confirm voice_inv_confirm dest: in_remove1D)
qed (auto simp: system_inv_def intro!: inv_intros intro: told_mono dest: in_remove1D split: option.splits)

lemma system_inv_init: "voice_system_init y \<Longrightarrow> system_inv y"
  by (auto simp: voice_system_init_def system_inv_def voice_inv_init)
    (simp add: told_def voice_server_def)

interpretation voice: step_system voice_system_init "voice_step fl" system_inv for fl
  by unfold_locales (auto intro: system_inv_init system_inv_step)

text \<open>The sequential operations are runs of the step system, so what holds of every reachable
  state holds between any of their calls.\<close>

lemma reach_addPeer:
  assumes "reachable voice_system_init (voice_step fl) y"
  shows "\<exists>y'. reachable voice_system_init (voice_step fl) y' \<and>
    sy_server y' = snd (addPeer fl now c cb (sy_server y))"
  using reach_step [OF assms step_add [of fl y now c cb]] by (auto intro!: exI)

lemma reach_request:
  assumes "reachable voice_system_init (voice_step fl) y" and "isValidPeerState st"
    and "lookupPeer c (sy_server y) = Some uid"
  shows "\<exists>y'. reachable voice_system_init (voice_step fl) y' \<and> sy_server y' = sy_server y \<and>
    (c, uid, Some st) \<in> set (sy_requests y')"
  using reach_step [OF assms(1) step_request [OF assms(3), of "Some st"]] assms(2) by fastforce

lemma reach_no_publish:
  assumes "reachable voice_system_init (voice_step fl) y" and "rq \<in> set (sy_requests y)"
    and "publish_control now rq (sy_server y) = (Inl r, s')"
  shows "\<exists>y'. reachable voice_system_init (voice_step fl) y' \<and> sy_server y' = s'"
  using reach_step [OF assms(1) step_no_publish [OF assms(2,3)]] by fastforce

lemma reach_publish:
  assumes "reachable voice_system_init (voice_step fl) y" and "rq \<in> set (sy_requests y)"
    and "publish_control now rq (sy_server y) = (Inr pc, s')"
  shows "\<exists>y'. reachable voice_system_init (voice_step fl) y' \<and> sy_server y' = s' \<and> pc \<in> set (sy_pending y')"
  using reach_step [OF assms(1) step_publish [OF assms(2,3)]] by fastforce

lemma reach_confirm:
  assumes "reachable voice_system_init (voice_step fl) y" and "pc \<in> set (sy_pending y)"
  shows "\<exists>y'. reachable voice_system_init (voice_step fl) y' \<and>
    sy_server y' = snd (confirm_control pc sent (sy_server y))"
proof (cases sent)
  case False
  then show ?thesis using reach_step [OF assms(1) step_failed [OF assms(2)]] by fastforce
next
  case True
  let ?y = "y\<lparr>sy_pending := remove1 pc (sy_pending y), sy_sent := pc # sy_sent y,
      sy_delivered := (pc_uid pc, control_packet pc) # sy_delivered y\<rparr>"
  have "reachable voice_system_init (voice_step fl) ?y"
    by (rule reach_step [OF assms(1) step_sent [OF assms(2)]])
  moreover have "voice_step fl ?y (?y\<lparr>sy_server := snd (confirm_control pc True (sy_server ?y)),
      sy_sent := remove1 pc (sy_sent ?y)\<rparr>)"
    by (rule step_confirm) simp
  ultimately show ?thesis using reach_step True by fastforce
qed

lemma setPeerState_publish_request:
  "setPeerState_publish now c uid st s = (Inr pc, s') \<Longrightarrow> pc_request pc = Some st"
  by (auto simp: setPeerState_publish_def Let_def split: option.splits if_splits)

lemma reach_setPeerState:
  assumes y: "reachable voice_system_init (voice_step fl) y" and st: "isValidPeerState st"
  shows "\<exists>y'. reachable voice_system_init (voice_step fl) y' \<and>
    sy_server y' = snd (setPeerState deliver now c st (sy_server y))"
proof (cases "lookupPeer c (sy_server y)")
  case None
  then have "snd (setPeerState deliver now c st (sy_server y)) = sy_server y"
    using st by (simp add: setPeerState_def)
  with y show ?thesis by metis
next
  case (Some uid)
  obtain y1 where y1: "reachable voice_system_init (voice_step fl) y1" "sy_server y1 = sy_server y"
      "(c, uid, Some st) \<in> set (sy_requests y1)"
    using reach_request [OF y st Some] by blast
  obtain r s' where pub: "setPeerState_publish now c uid st (sy_server y) = (r, s')"
    by (cases "setPeerState_publish now c uid st (sy_server y)")
  show ?thesis
  proof (cases r)
    case (Inl b)
    with pub Some st have "snd (setPeerState deliver now c st (sy_server y)) = s'"
      by (simp add: setPeerState_def)
    with reach_no_publish [OF y1(1,3)] pub Inl y1(2) show ?thesis by fastforce
  next
    case (Inr pc)
    with reach_publish [OF y1(1,3)] pub y1(2) obtain y2 where
      y2: "reachable voice_system_init (voice_step fl) y2" "sy_server y2 = s'" "pc \<in> set (sy_pending y2)"
      by fastforce
    have "pc_request pc = Some st" using setPeerState_publish_request pub Inr by blast
    then have "snd (setPeerState deliver now c st (sy_server y)) = snd (confirm_control pc
        (deliver (pc_send pc) (ControlMessage (control_packet pc)) gGetTeamVoiceControlSendOptions) s')"
      using pub Inr Some st by (simp add: setPeerState_def confirm_control_def)
    with reach_confirm [OF y2(1,3)] y2(2) show ?thesis by metis
  qed
qed

text \<open>The servers some run of the step system reaches.\<close>

definition voice_reaches :: "'f fops \<Rightarrow> ('f, 'cb) VoiceServer \<Rightarrow> bool" where
  "voice_reaches fl s \<longleftrightarrow> (\<exists>y. reachable voice_system_init (voice_step fl) y \<and> sy_server y = s)"

lemma voice_reaches_init: "voice_reaches fl (voice_server cfg)"
  unfolding voice_reaches_def
  by (rule exI [of _ "\<lparr>sy_server = voice_server cfg, sy_requests = [], sy_pending = [], sy_sent = [],
      sy_delivered = []\<rparr>"]) (auto intro!: reach_init simp: voice_system_init_def)

lemma voice_reaches_addPeer: "voice_reaches fl s \<Longrightarrow> voice_reaches fl (snd (addPeer fl now c cb s))"
  unfolding voice_reaches_def using reach_addPeer by blast

lemma voice_reaches_setPeerState:
  "voice_reaches fl s \<Longrightarrow> isValidPeerState st \<Longrightarrow>
    voice_reaches fl (snd (setPeerState deliver now c st s))"
  unfolding voice_reaches_def using reach_setPeerState by blast

subsection \<open>What one packet does\<close>

lemma may_transmit_iff:
  "may_transmit packet p \<longleftrightarrow> pr_hasstate p \<and> pr_controlpublished p \<and> ps_cantransmit (pr_state p) \<and>
     isValidPeerState (pr_state p) \<and> ps_sessionid (pr_state p) = up_sessionid packet \<and>
     pr_generation p = up_membershipgeneration packet"
  by (auto simp: may_transmit_def)

text \<open>Whom the router serves: the receiving half of a team voice session.\<close>

definition hears :: "bool \<Rightarrow> PeerState \<Rightarrow> ('f, 'cb) Peer \<Rightarrow> bool" where
  "hears hear st p \<longleftrightarrow> pr_hasstate p \<and> pr_controlpublished p \<and> ps_canreceive (pr_state p) \<and>
     ps_sessionid (pr_state p) = ps_sessionid st \<and> (hear \<or> ps_teamid (pr_state p) = ps_teamid st)"

lemma may_receive_hears:
  "peer_ok p \<Longrightarrow> isValidPeerState st \<Longrightarrow> may_receive hear st p \<longleftrightarrow> hears hear st p"
  by (auto simp: may_receive_def hears_def peer_ok_def isValidPeerState_def split: if_splits)

text \<open>A packet is admitted when its sender may transmit and has the tokens for it.\<close>

definition admitted ::
  "'f fops \<Rightarrow> int \<Rightarrow> u64 \<Rightarrow> gTeamVoiceUplinkPacket \<Rightarrow> ('f, 'cb) VoiceServer \<Rightarrow> ('f, 'cb) Peer option" where
  "admitted fl now c packet s =
     (if gValidateTeamVoiceUplinkPacket packet \<noteq> NONE then None
      else case um_find (vs_peers s) c of None \<Rightarrow> None
      | Some p \<Rightarrow> if may_transmit packet p
          \<and> fst (consumeRate fl (vs_config s) now p (length (up_payload packet))) then Some p else None)"

lemma admitted_SomeD:
  "admitted fl now c packet s = Some p \<Longrightarrow> um_find (vs_peers s) c = Some p \<and> may_transmit packet p \<and>
     gValidateTeamVoiceUplinkPacket packet = NONE"
  by (auto simp: admitted_def split: if_splits option.splits)

lemma handle_not_admitted:
  "admitted fl now c packet s = None \<Longrightarrow> fst (handleVoicePacket fl deliver now c packet s) = []"
  by (auto simp: admitted_def handleVoicePacket_def Let_def split: option.splits prod.splits if_splits)

lemma handle_admitted:
  assumes "admitted fl now c packet s = Some p"
  shows "fst (handleVoicePacket fl deliver now c packet s) =
    map (\<lambda>r. (rc_send r, relay_packet packet (pr_state p) (pr_generation p) r,
        deliver (rc_send r) (RelayMessage (relay_packet packet (pr_state p) (pr_generation p) r))
          gGetTeamVoiceDataSendOptions))
      (map (\<lambda>(_, p). \<lparr>rc_send = pr_send p, rc_generation = pr_generation p\<rparr>)
        (filter (\<lambda>(c', p'). c' \<noteq> c \<and> may_receive (hearEnemies s) (pr_state p) p') (vs_peers s)))"
proof -
  obtain ok p' where r: "consumeRate fl (vs_config s) now p (length (up_payload packet)) = (ok, p')"
    by (cases "consumeRate fl (vs_config s) now p (length (up_payload packet))")
  note frame = consumeRate_frame [OF r]
  from assms r have p: "um_find (vs_peers s) c = Some p" and
      "gValidateTeamVoiceUplinkPacket packet = NONE" "may_transmit packet p" ok
    by (auto simp: admitted_def split: if_splits option.splits)
  then show ?thesis
    by (simp add: handleVoicePacket_def Let_def r relay_all_log frame select_recipients_map
        um_filter_put [OF p])
qed

lemma handle_admitted_hears:
  assumes "voice_inv s" "admitted fl now c packet s = Some p"
  shows "filter (\<lambda>(c', p'). c' \<noteq> c \<and> may_receive (hearEnemies s) (pr_state p) p') (vs_peers s) =
    filter (\<lambda>(c', p'). c' \<noteq> c \<and> hears (hearEnemies s) (pr_state p) p') (vs_peers s)"
proof (rule filter_cong [OF refl])
  fix x assume "x \<in> set (vs_peers s)"
  moreover have "um_wf (vs_peers s)" using assms(1) by (simp add: voice_inv_def)
  ultimately have "um_find (vs_peers s) (fst x) = Some (snd x)" by (metis prod.collapse um_in_find)
  then have "peer_ok (snd x)" using voice_inv_find [OF assms(1)] by blast
  moreover have "isValidPeerState (pr_state p)"
    using admitted_SomeD [OF assms(2)] by (simp add: may_transmit_iff)
  ultimately show "(case x of (c', p') \<Rightarrow> c' \<noteq> c \<and> may_receive (hearEnemies s) (pr_state p) p') =
      (case x of (c', p') \<Rightarrow> c' \<noteq> c \<and> hears (hearEnemies s) (pr_state p) p')"
    by (cases x) (simp add: may_receive_hears)
qed

lemma relay_packet_valid:
  assumes "gValidateTeamVoiceUplinkPacket packet = NONE" "may_transmit packet p"
    and "rc_generation r \<noteq> 0"
  shows "gValidateTeamVoiceDownlinkPacket (relay_packet packet (pr_state p) (pr_generation p) r) = NONE"
  using assms
  by (auto simp: validate_uplink_NONE validate_downlink_NONE relay_packet_def downlink_default_def
      may_transmit_iff isValidPeerState_def)

subsection \<open>Properties\<close>

text \<open>C1. Isolation of team voice. Whatever packet a client sends, each relay goes to another
  connection whose client was told it is in the same voice session and may listen, on the same
  team unless enemies may be heard; and the relay is stamped with the session, player and
  generation the server keeps for the sender, never with anything the client claimed, carries
  the sender's payload unchanged, and passes the receiver's validation.\<close>

theorem voice_isolation:
  assumes "voice_inv s"
    and "(cb, relay, ok) \<in> set (fst (handleVoicePacket fl deliver now c packet s))"
  shows "\<exists>sender c' p. um_find (vs_peers s) c = Some sender \<and> um_find (vs_peers s) c' = Some p \<and>
    c' \<noteq> c \<and> cb = pr_send p \<and>
    pr_hasstate sender \<and> pr_controlpublished sender \<and> ps_cantransmit (pr_state sender) \<and>
    up_sessionid packet = ps_sessionid (pr_state sender) \<and>
    pr_hasstate p \<and> pr_controlpublished p \<and> ps_canreceive (pr_state p) \<and>
    ps_sessionid (pr_state p) = ps_sessionid (pr_state sender) \<and>
    (hearEnemies s \<or> ps_teamid (pr_state p) = ps_teamid (pr_state sender)) \<and>
    dn_sessionid relay = ps_sessionid (pr_state sender) \<and>
    dn_speakerid relay = ps_playerid (pr_state sender) \<and>
    dn_speakergeneration relay = pr_generation sender \<and>
    dn_recipientgeneration relay = pr_generation p \<and>
    dn_payload relay = up_payload packet \<and> dn_sequence relay = up_sequence packet \<and>
    gValidateTeamVoiceDownlinkPacket relay = NONE"
proof -
  obtain sender where adm: "admitted fl now c packet s = Some sender"
    using assms(2) handle_not_admitted [of fl now c packet s] by fastforce
  note sender = admitted_SomeD [OF adm]
  from assms(2) obtain c' p where p: "(c', p) \<in> set (vs_peers s)" "c' \<noteq> c"
      "hears (hearEnemies s) (pr_state sender) p" "cb = pr_send p"
      "relay = relay_packet packet (pr_state sender) (pr_generation sender)
        \<lparr>rc_send = pr_send p, rc_generation = pr_generation p\<rparr>"
    unfolding handle_admitted [OF adm] handle_admitted_hears [OF assms(1) adm] by auto
  have find: "um_find (vs_peers s) c' = Some p"
    using p(1) assms(1) by (simp add: um_in_find voice_inv_def)
  have "pr_generation p \<noteq> 0"
    using voice_inv_find [OF assms(1) find] p(3) by (simp add: peer_ok_def hears_def)
  then have "gValidateTeamVoiceDownlinkPacket relay = NONE"
    using sender p(5) by (simp add: relay_packet_valid)
  with sender p find show ?thesis
    by - (rule exI [of _ sender], rule exI [of _ c'], rule exI [of _ p],
      auto simp: hears_def may_transmit_iff relay_packet_def)
qed

definition example_player :: "u64 \<Rightarrow> u64 \<Rightarrow> PeerState" where
  "example_player pid team = \<lparr>ps_playerid = pid, ps_teamid = team, ps_sessionid = 7,
     ps_cantransmit = True, ps_canreceive = True\<rparr>"

lemma example_player_valid: "pid \<noteq> 0 \<Longrightarrow> team \<noteq> 0 \<Longrightarrow> isValidPeerState (example_player pid team)"
  by (simp add: example_player_def isValidPeerState_def)

definition example_peer :: "nat \<Rightarrow> u64 \<Rightarrow> u64 \<Rightarrow> (rat, nat) Peer" where
  "example_peer uid pid team = \<lparr>pr_uid = uid, pr_send = uid, pr_state = example_player pid team,
     pr_hasstate = True, pr_controlpublished = True, pr_generation = 1,
     pr_packettokens = 20, pr_bytetokens = 8192, pr_ratetime = 0\<rparr>"

definition example_voice_server :: "(rat, nat) VoiceServer" where
  "example_voice_server = (voice_server (default_config rat_fops))\<lparr>vs_peers :=
     [(1, example_peer 1 11 5), (2, example_peer 2 12 5), (3, example_peer 3 13 6)], vs_nextuid := 4\<rparr>"

definition example_voice :: gTeamVoiceUplinkPacket where
  "example_voice = \<lparr>up_version = 1, up_flags = 1, up_sessionid = 7, up_membershipgeneration = 1,
     up_streamgeneration = 1, up_sequence = 0, up_sampleposition = 0, up_payload = [1, 2, 3]\<rparr>"

lemma example_voice_inv: "voice_inv example_voice_server"
  by (auto simp: example_voice_server_def example_peer_def voice_inv_def um_wf_def um_find_def
      voice_server_def peer_ok_def default_config_def example_player_def isValidPeerState_def
      split: if_splits)

lemma example_voice_valid: "gValidateTeamVoiceUplinkPacket example_voice = NONE"
  by (simp add: example_voice_def validate_uplink_NONE PROTOCOL_VERSION_def VALID_VOICE_FLAGS_def
      FLAG_STREAM_START_def FLAG_DISCONTINUITY_def NETWORK_MAX_OPUS_BYTES_def)

lemma example_voice_sends:
  "fst (handleVoicePacket rat_fops (\<lambda>_ _ _. True) 0 1 example_voice example_voice_server) =
    [(2 :: nat, relay_packet example_voice (example_player 11 5) 1
      (\<lparr>rc_send = 2, rc_generation = 1\<rparr> :: nat Recipient), True)]"
  by (simp add: handleVoicePacket_def example_voice_valid Let_def example_voice_server_def example_peer_def
      voice_server_def um_find_def um_put_def may_transmit_iff example_player_def isValidPeerState_def
      consumeRate_def default_config_def may_receive_def) (simp add: example_voice_def)

lemma voice_isolation_witness:
  "\<exists>sender c' p. um_find (vs_peers example_voice_server) 1 = Some sender \<and>
    um_find (vs_peers example_voice_server) c' = Some p \<and> c' \<noteq> 1 \<and>
    ps_teamid (pr_state p) = ps_teamid (pr_state sender)"
proof -
  have "(2, relay_packet example_voice (example_player 11 5) 1 (\<lparr>rc_send = 2, rc_generation = 1\<rparr> :: nat Recipient),
      True) \<in> set (fst (handleVoicePacket rat_fops (\<lambda>_ _ _. True) 0 1 example_voice example_voice_server))"
    by (simp add: example_voice_sends)
  from voice_isolation [OF example_voice_inv this] show ?thesis
    by (auto simp: example_voice_server_def voice_server_def)
qed

text \<open>C2. Completeness of the relay. When the router admits a packet, every connection of the
  sender's session that may listen and may hear it gets it exactly once, in the order of the
  peer table, and nobody else gets anything.\<close>

theorem voice_completeness:
  assumes "voice_inv s" and "admitted fl now c packet s = Some sender"
  shows "map (\<lambda>(cb, relay, _). (cb, dn_recipientgeneration relay))
      (fst (handleVoicePacket fl deliver now c packet s)) =
    map (\<lambda>(_, p). (pr_send p, pr_generation p))
      (filter (\<lambda>(c', p). c' \<noteq> c \<and> hears (hearEnemies s) (pr_state sender) p) (vs_peers s))"
  unfolding handle_admitted [OF assms(2)] handle_admitted_hears [OF assms]
  by (simp add: relay_packet_def split_beta)

lemma voice_completeness_witness:
  "map (\<lambda>(cb, relay, _). (cb, dn_recipientgeneration relay)) (fst (handleVoicePacket rat_fops
     (\<lambda>_ _ _. False) 0 1 example_voice example_voice_server)) = [(2, 1)]"
proof -
  have adm: "admitted rat_fops 0 1 example_voice example_voice_server = Some (example_peer 1 11 5)"
    using example_voice_valid
    by (simp add: admitted_def example_voice_server_def um_find_def
        may_transmit_iff example_peer_def example_player_def isValidPeerState_def
        consumeRate_def voice_server_def default_config_def Let_def) (simp add: example_voice_def)
  show ?thesis
    by (subst voice_completeness [OF example_voice_inv adm])
      (simp add: example_voice_server_def hears_def example_peer_def example_player_def voice_server_def)
qed

text \<open>C3. The router never relays voice on credentials it did not hand out. However threads
  interleave, when a packet from connection \<open>c\<close> is relayed, the send callback of that very
  connection had accepted a control packet with the session, generation and player id the packet
  was accepted under.\<close>

theorem voice_credentials:
  assumes "reachable voice_system_init (voice_step fl) y"
    and "fst (handleVoicePacket fl deliver now c packet (sy_server y)) \<noteq> []"
  shows "\<exists>p. um_find (vs_peers (sy_server y)) c = Some p \<and>
    (pr_uid p, session_default\<lparr>ss_enabled := True, ss_sessionid := up_sessionid packet,
      ss_membershipgeneration := up_membershipgeneration packet,
      ss_playerid := ps_playerid (pr_state p)\<rparr>) \<in> set (sy_delivered y)"
proof -
  have inv: "system_inv y" by (rule voice.inv_reachable [OF assms(1)])
  obtain p where "admitted fl now c packet (sy_server y) = Some p"
    using assms(2) handle_not_admitted [of fl now c packet "sy_server y"] by fastforce
  then have p: "um_find (vs_peers (sy_server y)) c = Some p" "may_transmit packet p"
    using admitted_SomeD by blast+
  with inv have "(pr_uid p, credentials p) \<in> set (sy_delivered y)"
    by (simp add: system_inv_def told_def may_transmit_iff)
  with p show ?thesis by (simp add: credentials_def may_transmit_iff)
qed

definition example_ops :: "(rat, nat) VoiceServer" where
  "example_ops = (let s = snd (addPeer rat_fops 0 1 (Some 1) (voice_server (default_config rat_fops)));
      s = snd (addPeer rat_fops 0 2 (Some 2) s);
      s = snd (setPeerState (\<lambda>_ _ _. True) 0 1 (example_player 11 5) s)
    in snd (setPeerState (\<lambda>_ _ _. True) 0 2 (example_player 12 5) s))"

lemma example_ops_value: "example_ops = (voice_server (default_config rat_fops))\<lparr>vs_peers :=
     [(1, (example_peer 1 11 5)\<lparr>pr_uid := 0\<rparr>), (2, (example_peer 2 12 5)\<lparr>pr_uid := 1\<rparr>)],
     vs_nextuid := 2\<rparr>"
proof -
  let ?ok = "\<lambda>(_::nat) (_::voice_message) (_::send_options). True"
  let ?empty = "\<lambda>uid. (example_peer uid 0 0)\<lparr>pr_uid := uid - 1, pr_state := peerstate_default,
      pr_hasstate := False, pr_generation := 0\<rparr>"
  let ?s = "\<lambda>ps. (voice_server (default_config rat_fops))\<lparr>vs_peers := ps,
     vs_nextuid := length ps\<rparr> :: (rat, nat) VoiceServer"
  let ?p1 = "(example_peer 1 11 5)\<lparr>pr_uid := 0\<rparr>" and ?p2 = "(example_peer 2 12 5)\<lparr>pr_uid := 1\<rparr>"
  have 1: "snd (addPeer rat_fops 0 1 (Some 1) (voice_server (default_config rat_fops))) = ?s [(1, ?empty 1)]"
    by (simp add: addPeer_def voice_server_def default_config_def Let_def um_put_def example_peer_def)
  have 2: "snd (addPeer rat_fops 0 2 (Some 2) (?s [(1, ?empty 1)])) = ?s [(1, ?empty 1), (2, ?empty 2)]"
    by (simp add: addPeer_def voice_server_def default_config_def Let_def um_put_def um_find_def example_peer_def)
  have 3: "snd (setPeerState ?ok 0 1 (example_player 11 5) (?s [(1, ?empty 1), (2, ?empty 2)])) =
      ?s [(1, ?p1), (2, ?empty 2)]"
    by (simp add: setPeerState_def isValidPeerState_def example_player_def lookupPeer_def um_find_def
        setPeerState_publish_def setPeerState_confirm_def um_put_def voice_server_def Let_def
        example_peer_def nextGeneration_def default_config_def)
  have 4: "snd (setPeerState ?ok 0 2 (example_player 12 5) (?s [(1, ?p1), (2, ?empty 2)])) =
      ?s [(1, ?p1), (2, ?p2)]"
    by (simp add: setPeerState_def isValidPeerState_def example_player_def lookupPeer_def um_find_def
        setPeerState_publish_def setPeerState_confirm_def um_put_def voice_server_def Let_def
        example_peer_def nextGeneration_def default_config_def)
  show ?thesis unfolding example_ops_def Let_def 1 2 3 4 by simp
qed

lemma example_ops_reachable: "voice_reaches rat_fops example_ops"
  unfolding example_ops_def Let_def
  by (intro voice_reaches_setPeerState voice_reaches_addPeer voice_reaches_init example_player_valid)
    simp_all

lemma voice_credentials_witness:
  "\<exists>y. (reachable voice_system_init (voice_step rat_fops) y \<and> sy_server y = example_ops) \<and>
    (\<exists>uid. (uid, session_default\<lparr>ss_enabled := True, ss_sessionid := 7,
      ss_membershipgeneration := 1, ss_playerid := 11\<rparr>) \<in> set (sy_delivered y))"
proof -
  obtain y :: "(rat, nat) voice_system" where y: "reachable voice_system_init (voice_step rat_fops) y" "sy_server y = example_ops"
    using example_ops_reachable by (auto simp: voice_reaches_def)
  have "fst (handleVoicePacket rat_fops (\<lambda>_ _ _. True) 0 1 example_voice (sy_server y)) \<noteq> []"
    using example_voice_valid
    by (simp add: y(2) example_ops_value handleVoicePacket_def Let_def
        voice_server_def um_find_def um_put_def may_transmit_iff example_player_def isValidPeerState_def
        consumeRate_def default_config_def may_receive_def example_peer_def) (simp add: example_voice_def)
  from voice_credentials [OF y(1) this] y show ?thesis
    by (auto simp: example_ops_value example_peer_def example_player_def example_voice_def um_find_def
        intro!: exI [of _ y])
qed

text \<open>C4. The bookkeeping of the router holds in every reachable state: connection ids are non-zero
  and distinct, at most \<open>maxconnections\<close> peers are registered, a peer with a state has a valid
  one and a non-zero generation, a peer without has the empty one, and each published peer was
  sent exactly its current credentials.\<close>

theorem voice_invariant:
  assumes "reachable voice_system_init (voice_step fl) y"
  shows "voice_inv (sy_server y) \<and> told (sy_delivered y) (sy_server y)"
  using voice.inv_reachable [OF assms] by (simp add: system_inv_def)

lemma voice_invariant_witness: "voice_inv example_ops"
proof -
  obtain y :: "(rat, nat) voice_system"
    where y: "reachable voice_system_init (voice_step rat_fops) y" "sy_server y = example_ops"
    using example_ops_reachable by (auto simp: voice_reaches_def)
  from voice_invariant [OF y(1)] y(2) show ?thesis by simp
qed

text \<open>C5. Changing a player's team, session or permissions invalidates everything in flight: after
  \<open>setPeerState\<close> with another state, valid or not, and whether or not its control packet could
  be sent, a packet that carries the old membership generation reaches nobody and only counts
  as a routing rejection.\<close>

theorem stale_generation_rejected:
  assumes "um_find (vs_peers s) c = Some p" and "pr_hasstate p" and "isValidPeerState (pr_state p)"
    and "st \<noteq> pr_state p" and "up_membershipgeneration packet = pr_generation p"
    and "gValidateTeamVoiceUplinkPacket packet = NONE"
  shows "handleVoicePacket fl deliver' now' c packet (snd (setPeerState deliver now c st s)) =
    ([], (snd (setPeerState deliver now c st s))\<lparr>receivedpackets := receivedpackets s + 1,
      receivedbytes := receivedbytes s + word_of_nat (length (up_payload packet)),
      routingrejections := routingrejections s + 1\<rparr>)"
proof -
  let ?s = "snd (setPeerState deliver now c st s)"
  have "\<exists>p'. um_find (vs_peers ?s) c = Some p' \<and> pr_generation p' = nextGeneration (pr_generation p)"
    "receivedpackets ?s = receivedpackets s" "receivedbytes ?s = receivedbytes s"
    "routingrejections ?s = routingrejections s"
    using assms(1,2,4)
    by (auto simp: setPeerState_def clearPeerState_def lookupPeer_def setPeerState_publish_def
        clearPeerState_publish_def setPeerState_confirm_def clearPeerState_confirm_def Let_def)
  moreover have "nextGeneration (pr_generation p) \<noteq> up_membershipgeneration packet"
    using assms(5) by simp
  ultimately show ?thesis
    using assms(6) by (auto simp: handleVoicePacket_def Let_def may_transmit_iff)
qed

lemma stale_generation_rejected_witness:
  "fst (handleVoicePacket rat_fops (\<lambda>_ _ _. True) 0 1 example_voice
     (snd (setPeerState (\<lambda>_ _ _. True) 0 1 (example_player 11 6) example_voice_server))) = []"
  by (subst stale_generation_rejected [where p = "example_peer 1 11 5"])
    (simp_all add: example_voice_valid example_voice_server_def um_find_def example_peer_def
      example_player_valid, simp_all add: example_player_def example_voice_def)

text \<open>A successful \<open>setPeerState\<close> leaves the connection with exactly the requested state,
  published under a non-zero generation, and touches no other connection; repeating it changes
  nothing and sends nothing, whatever the callback would answer.\<close>

theorem publish_idempotent:
  assumes "setPeerState deliver now c st s = (True, s')" and "isValidPeerState st" and "voice_inv s"
  shows "(\<exists>p. um_find (vs_peers s') c = Some p \<and> pr_state p = st \<and> pr_hasstate p \<and>
      pr_controlpublished p \<and> pr_generation p \<noteq> 0) \<and>
    (\<forall>c'. c' \<noteq> c \<longrightarrow> um_find (vs_peers s') c' = um_find (vs_peers s) c') \<and>
    setPeerState deliver' now' c st s' = (True, s')"
proof -
  obtain p where p: "um_find (vs_peers s) c = Some p"
    using assms(1,2) by (auto simp: setPeerState_def lookupPeer_def split: option.splits)
  have ok: "pr_hasstate p \<Longrightarrow> pr_generation p \<noteq> 0"
    using voice_inv_find [OF assms(3) p] by (simp add: peer_ok_def)
  have s': "\<exists>p. um_find (vs_peers s') c = Some p \<and> pr_state p = st \<and> pr_hasstate p \<and>
      pr_controlpublished p \<and> pr_generation p \<noteq> 0"
    "\<forall>c'. c' \<noteq> c \<longrightarrow> um_find (vs_peers s') c' = um_find (vs_peers s) c'"
    using assms(1,2) p ok
    by (auto simp: setPeerState_def lookupPeer_def setPeerState_publish_def setPeerState_confirm_def
        Let_def split: if_splits)
  then have "setPeerState deliver' now' c st s' = (True, s')"
    using assms(2) by (auto simp: setPeerState_def lookupPeer_def setPeerState_publish_def)
  with s' show ?thesis by blast
qed

lemma publish_idempotent_witness:
  "setPeerState (\<lambda>_ _ _. False) 9 1 (example_player 11 5) example_voice_server = (True, example_voice_server)"
proof -
  have "setPeerState (\<lambda>_ _ _. True) 0 1 (example_player 11 5) example_voice_server = (True, example_voice_server)"
    by (simp add: setPeerState_def example_player_valid lookupPeer_def setPeerState_publish_def
        example_voice_server_def um_find_def example_peer_def)
  from publish_idempotent [OF this example_player_valid example_voice_inv, of "\<lambda>_ _ _. False" 9]
  show ?thesis by simp
qed

definition well_formed :: "gTeamVoiceUplinkPacket \<Rightarrow> bool" where
  "well_formed packet \<longleftrightarrow> gValidateTeamVoiceUplinkPacket packet = NONE"

definition rejects :: "u64 \<Rightarrow> gTeamVoiceUplinkPacket \<Rightarrow> ('f, 'cb) VoiceServer \<Rightarrow> bool" where
  "rejects c packet s \<longleftrightarrow> well_formed packet \<and>
     (case um_find (vs_peers s) c of None \<Rightarrow> True | Some p \<Rightarrow> \<not> may_transmit packet p)"

text \<open>The statistics account for every packet. A malformed packet counts as malformed and
  nothing else; a well-formed one counts as received with its bytes and then as exactly one of
  rejected, rate limited or admitted; the sends of an admitted packet are split between relayed
  packets, with their bytes, and send failures. All counters are 64 bits wide and wrap.\<close>

theorem voice_accounting:
  "case handleVoicePacket fl deliver now c packet s of (sends, s') \<Rightarrow>
     malformedpackets s' = malformedpackets s + of_bool (\<not> well_formed packet) \<and>
     receivedpackets s' = receivedpackets s + of_bool (well_formed packet) \<and>
     receivedbytes s' = receivedbytes s
       + (if well_formed packet then word_of_nat (length (up_payload packet)) else 0) \<and>
     routingrejections s' = routingrejections s + of_bool (rejects c packet s) \<and>
     ratelimitedpackets s' = ratelimitedpackets s
       + of_bool (well_formed packet \<and> \<not> rejects c packet s \<and> admitted fl now c packet s = None) \<and>
     relayedpackets s' = relayedpackets s + word_of_nat (sent_ok sends) \<and>
     relayedbytes s' = relayedbytes s + word_of_nat (sent_ok sends * length (up_payload packet)) \<and>
     sendfailures s' = sendfailures s + word_of_nat (sent_failed sends) \<and>
     length sends = sent_ok sends + sent_failed sends"
proof -
  have split: "length xs = sent_ok xs + sent_failed xs" for xs
    by (simp add: sent_ok_def sent_failed_def sum_length_filter_compl)
  show ?thesis
    by (cases "um_find (vs_peers s) c")
      (auto simp: handleVoicePacket_def Let_def well_formed_def rejects_def admitted_def
        reportMalformedPacket_def relay_all_counts split_beta split split: prod.splits;
       simp add: sent_ok_def sent_failed_def)+
qed

subsection \<open>The rate limit, exactly\<close>

text \<open>A connection's packets offered to the rate limiter one after the other, each with its time
  and size: which of them it lets through.\<close>

fun admit_run ::
  "'f fops \<Rightarrow> 'f VoiceConfig \<Rightarrow> ('f, 'cb) Peer \<Rightarrow> (int \<times> nat) list \<Rightarrow> nat list \<times> ('f, 'cb) Peer" where
  "admit_run fl config peer [] = ([], peer)"
| "admit_run fl config peer ((now, n) # rest) =
     (case consumeRate fl config now peer n of (ok, peer) \<Rightarrow>
       (case admit_run fl config peer rest of (sizes, peer) \<Rightarrow> (if ok then n # sizes else sizes, peer)))"

definition sane_config :: "rat VoiceConfig \<Rightarrow> bool" where
  "sane_config cfg \<longleftrightarrow> 0 \<le> packetspersecond cfg \<and> 0 \<le> bytespersecond cfg \<and>
     0 \<le> packetburst cfg \<and> 0 \<le> byteburst cfg"

fun times_from :: "int \<Rightarrow> (int \<times> nat) list \<Rightarrow> bool" where
  "times_from t [] = True"
| "times_from t ((now, n) # rest) = (t \<le> now \<and> times_from now rest)"

definition seconds :: "int \<Rightarrow> rat" where
  "seconds ns = of_int ns / 1000000000"

lemma consumeRate_rat:
  assumes "consumeRate rat_fops cfg now p n = (ok, p')" "sane_config cfg" "pr_ratetime p \<le> now"
    and "0 \<le> pr_packettokens p" "0 \<le> pr_bytetokens p"
  shows "pr_ratetime p' = now" "0 \<le> pr_packettokens p'" "0 \<le> pr_bytetokens p'"
    and "of_bool ok + pr_packettokens p' \<le>
      pr_packettokens p + seconds (now - pr_ratetime p) * packetspersecond cfg"
    and "of_nat (if ok then n else 0) + pr_bytetokens p' \<le>
      pr_bytetokens p + seconds (now - pr_ratetime p) * bytespersecond cfg"
proof -
  have "0 \<le> seconds (now - pr_ratetime p)" using assms(3) by (simp add: seconds_def)
  then have "0 \<le> seconds (now - pr_ratetime p) * packetspersecond cfg"
    "0 \<le> seconds (now - pr_ratetime p) * bytespersecond cfg"
    using assms(2) by (simp_all add: sane_config_def)
  with assms show "pr_ratetime p' = now" "0 \<le> pr_packettokens p'" "0 \<le> pr_bytetokens p'"
    "of_bool ok + pr_packettokens p' \<le>
      pr_packettokens p + seconds (now - pr_ratetime p) * packetspersecond cfg"
    "of_nat (if ok then n else 0) + pr_bytetokens p' \<le>
      pr_bytetokens p + seconds (now - pr_ratetime p) * bytespersecond cfg"
    by (auto simp: consumeRate_def Let_def seconds_def sane_config_def not_less split: if_splits)
qed

lemma admit_run_rat:
  assumes "admit_run rat_fops cfg p reqs = (sizes, p')" "sane_config cfg"
    and "times_from (pr_ratetime p) reqs" "0 \<le> pr_packettokens p" "0 \<le> pr_bytetokens p"
  shows "0 \<le> pr_packettokens p' \<and> 0 \<le> pr_bytetokens p' \<and>
    of_nat (length sizes) + pr_packettokens p' \<le>
      pr_packettokens p + seconds (pr_ratetime p' - pr_ratetime p) * packetspersecond cfg \<and>
    of_nat (sum_list sizes) + pr_bytetokens p' \<le>
      pr_bytetokens p + seconds (pr_ratetime p' - pr_ratetime p) * bytespersecond cfg"
  using assms
proof (induction reqs arbitrary: p sizes)
  case Nil
  then show ?case by (simp add: seconds_def)
next
  case (Cons x reqs)
  obtain now n where x: "x = (now, n)" by (cases x)
  obtain ok q where q: "consumeRate rat_fops cfg now p n = (ok, q)"
    by (cases "consumeRate rat_fops cfg now p n")
  obtain rest where rest: "admit_run rat_fops cfg q reqs = (rest, p')"
    "sizes = (if ok then n # rest else rest)"
    using Cons.prems(1) by (auto simp: x q split: prod.splits if_splits)
  have le: "pr_ratetime p \<le> now" and times: "times_from now reqs" using Cons.prems(3) by (auto simp: x)
  note step = consumeRate_rat [OF q Cons.prems(2) le Cons.prems(4,5)]
  note IH = Cons.IH [OF rest(1) Cons.prems(2) _ step(2,3)]
  have split: "seconds (pr_ratetime p' - now) + seconds (now - pr_ratetime p) =
      seconds (pr_ratetime p' - pr_ratetime p)"
    by (simp add: seconds_def add_divide_distrib [symmetric])
  have "seconds (pr_ratetime p' - pr_ratetime p) * r =
      seconds (pr_ratetime p' - now) * r + seconds (now - pr_ratetime p) * r" for r
    unfolding split [symmetric] by (simp add: algebra_simps)
  with IH times step show ?case by (cases ok) (auto simp: rest(2))
qed



end
