(* ===== verification/MasterPackets.thy ===== *)
theory MasterPackets
  imports Znet_Buffer
begin

section \<open>The master server's protocol\<close>

text \<open>
  \<open>master/gMasterPackets.h\<close>: what hosts, clients and the master exchange, with every serializer and
  deserializer. znet writes and reads the candidate lists; its \<open>WriteCandidates\<close> and
  \<open>ReadCandidates\<close> are the arguments \<open>wc\<close> and \<open>rc\<close>, and a candidate is of a type \<open>'c\<close> of its own. A
  deserializer that returns \<open>nullptr\<close> is \<open>None\<close>.
\<close>

subsection \<open>Packets of fixed layout\<close>

record MasterHeartbeat =
  mh_ip :: string

definition MasterHeartbeat_serialize :: "('b, 'f) bufops \<Rightarrow> MasterHeartbeat \<Rightarrow> 'b \<Rightarrow> 'b" where
  "MasterHeartbeat_serialize z p b =
     (let b = wString z (mh_ip p) b in b)"

definition MasterHeartbeat_deserialize :: "('b, 'f) bufops \<Rightarrow> 'b \<Rightarrow> MasterHeartbeat \<times> 'b" where
  "MasterHeartbeat_deserialize z b =
     (let (ip, b) = rdString z b
      in (\<lparr>mh_ip = ip\<rparr>, b))"

text \<open>An \<open>int\<close> is its 32-bit pattern; the default filter \<open>-1\<close> asks for every state.\<close>

record MasterGetList =
  mg_matchStateFilter :: u32

definition MasterGetList_serialize :: "('b, 'f) bufops \<Rightarrow> MasterGetList \<Rightarrow> 'b \<Rightarrow> 'b" where
  "MasterGetList_serialize z p b =
     (let b = wU32 z (mg_matchStateFilter p) b in b)"

definition MasterGetList_deserialize :: "('b, 'f) bufops \<Rightarrow> 'b \<Rightarrow> MasterGetList \<times> 'b" where
  "MasterGetList_deserialize z b =
     (let (matchStateFilter, b) = rU32 z b
      in (\<lparr>mg_matchStateFilter = matchStateFilter\<rparr>, b))"

record MasterRegisterRes =
  ms_roomCode :: string

definition MasterRegisterRes_serialize :: "('b, 'f) bufops \<Rightarrow> MasterRegisterRes \<Rightarrow> 'b \<Rightarrow> 'b" where
  "MasterRegisterRes_serialize z p b =
     (let b = wString z (ms_roomCode p) b in b)"

definition MasterRegisterRes_deserialize :: "('b, 'f) bufops \<Rightarrow> 'b \<Rightarrow> MasterRegisterRes \<times> 'b" where
  "MasterRegisterRes_deserialize z b =
     (let (roomCode, b) = rdString z b
      in (\<lparr>ms_roomCode = roomCode\<rparr>, b))"

record MasterQueryRoom =
  mq_roomCode :: string

definition MasterQueryRoom_serialize :: "('b, 'f) bufops \<Rightarrow> MasterQueryRoom \<Rightarrow> 'b \<Rightarrow> 'b" where
  "MasterQueryRoom_serialize z p b =
     (let b = wString z (mq_roomCode p) b in b)"

definition MasterQueryRoom_deserialize :: "('b, 'f) bufops \<Rightarrow> 'b \<Rightarrow> MasterQueryRoom \<times> 'b" where
  "MasterQueryRoom_deserialize z b =
     (let (roomCode, b) = rdString z b
      in (\<lparr>mq_roomCode = roomCode\<rparr>, b))"

record MasterUserLogin =
  ml_email :: string
  ml_password :: string

definition MasterUserLogin_serialize :: "('b, 'f) bufops \<Rightarrow> MasterUserLogin \<Rightarrow> 'b \<Rightarrow> 'b" where
  "MasterUserLogin_serialize z p b =
     (let b = wString z (ml_email p) b;
          b = wString z (ml_password p) b in b)"

definition MasterUserLogin_deserialize :: "('b, 'f) bufops \<Rightarrow> 'b \<Rightarrow> MasterUserLogin \<times> 'b" where
  "MasterUserLogin_deserialize z b =
     (let (email, b) = rdString z b;
          (password, b) = rdString z b
      in (\<lparr>ml_email = email, ml_password = password\<rparr>, b))"

record MasterUserLoginRes =
  mr_success :: bool
  mr_message :: string
  mr_username :: string
  mr_token :: string

definition MasterUserLoginRes_serialize :: "('b, 'f) bufops \<Rightarrow> MasterUserLoginRes \<Rightarrow> 'b \<Rightarrow> 'b" where
  "MasterUserLoginRes_serialize z p b =
     (let b = wBool z (mr_success p) b;
          b = wString z (mr_message p) b;
          b = wString z (mr_username p) b;
          b = wString z (mr_token p) b in b)"

definition MasterUserLoginRes_deserialize :: "('b, 'f) bufops \<Rightarrow> 'b \<Rightarrow> MasterUserLoginRes \<times> 'b" where
  "MasterUserLoginRes_deserialize z b =
     (let (success, b) = rdBool z b;
          (message, b) = rdString z b;
          (username, b) = rdString z b;
          (token, b) = rdString z b
      in (\<lparr>mr_success = success, mr_message = message, mr_username = username, mr_token = token\<rparr>, b))"

record MasterUserRegister =
  me_username :: string
  me_email :: string
  me_password :: string

definition MasterUserRegister_serialize :: "('b, 'f) bufops \<Rightarrow> MasterUserRegister \<Rightarrow> 'b \<Rightarrow> 'b" where
  "MasterUserRegister_serialize z p b =
     (let b = wString z (me_username p) b;
          b = wString z (me_email p) b;
          b = wString z (me_password p) b in b)"

definition MasterUserRegister_deserialize :: "('b, 'f) bufops \<Rightarrow> 'b \<Rightarrow> MasterUserRegister \<times> 'b" where
  "MasterUserRegister_deserialize z b =
     (let (username, b) = rdString z b;
          (email, b) = rdString z b;
          (password, b) = rdString z b
      in (\<lparr>me_username = username, me_email = email, me_password = password\<rparr>, b))"

record MasterUserRegisterRes =
  mf_success :: bool
  mf_message :: string
  mf_token :: string

definition MasterUserRegisterRes_serialize :: "('b, 'f) bufops \<Rightarrow> MasterUserRegisterRes \<Rightarrow> 'b \<Rightarrow> 'b" where
  "MasterUserRegisterRes_serialize z p b =
     (let b = wBool z (mf_success p) b;
          b = wString z (mf_message p) b;
          b = wString z (mf_token p) b in b)"

definition MasterUserRegisterRes_deserialize :: "('b, 'f) bufops \<Rightarrow> 'b \<Rightarrow> MasterUserRegisterRes \<times> 'b" where
  "MasterUserRegisterRes_deserialize z b =
     (let (success, b) = rdBool z b;
          (message, b) = rdString z b;
          (token, b) = rdString z b
      in (\<lparr>mf_success = success, mf_message = message, mf_token = token\<rparr>, b))"

record MasterTokenLogin =
  mt_email :: string
  mt_token :: string

definition MasterTokenLogin_serialize :: "('b, 'f) bufops \<Rightarrow> MasterTokenLogin \<Rightarrow> 'b \<Rightarrow> 'b" where
  "MasterTokenLogin_serialize z p b =
     (let b = wString z (mt_email p) b;
          b = wString z (mt_token p) b in b)"

definition MasterTokenLogin_deserialize :: "('b, 'f) bufops \<Rightarrow> 'b \<Rightarrow> MasterTokenLogin \<times> 'b" where
  "MasterTokenLogin_deserialize z b =
     (let (email, b) = rdString z b;
          (token, b) = rdString z b
      in (\<lparr>mt_email = email, mt_token = token\<rparr>, b))"

record MasterLogout =
  mo_email :: string
  mo_token :: string

definition MasterLogout_serialize :: "('b, 'f) bufops \<Rightarrow> MasterLogout \<Rightarrow> 'b \<Rightarrow> 'b" where
  "MasterLogout_serialize z p b =
     (let b = wString z (mo_email p) b;
          b = wString z (mo_token p) b in b)"

definition MasterLogout_deserialize :: "('b, 'f) bufops \<Rightarrow> 'b \<Rightarrow> MasterLogout \<times> 'b" where
  "MasterLogout_deserialize z b =
     (let (email, b) = rdString z b;
          (token, b) = rdString z b
      in (\<lparr>mo_email = email, mo_token = token\<rparr>, b))"

subsection \<open>A room query's answer\<close>

record MasterQueryRoomRes =
  mv_roomCode :: string
  mv_found :: bool
  mv_name :: string
  mv_currentPlayers :: u32
  mv_maxPlayers :: u32
  mv_hasPassword :: bool
  mv_isDedicated :: bool
  mv_useP2P :: bool
  mv_ip :: string

definition query_room_res :: "string \<Rightarrow> bool \<Rightarrow> MasterQueryRoomRes" where
  "query_room_res roomCode found = \<lparr>mv_roomCode = roomCode, mv_found = found, mv_name = [],
     mv_currentPlayers = 0, mv_maxPlayers = 0, mv_hasPassword = False, mv_isDedicated = False,
     mv_useP2P = False, mv_ip = []\<rparr>"

definition MasterQueryRoomRes_serialize :: "('b, 'f) bufops \<Rightarrow> MasterQueryRoomRes \<Rightarrow> 'b \<Rightarrow> 'b" where
  "MasterQueryRoomRes_serialize z p b =
     (let b = wString z (mv_roomCode p) b;
          b = wBool z (mv_found p) b
      in if mv_found p then
           (let b = wString z (mv_name p) b;
                b = wU32 z (mv_currentPlayers p) b;
                b = wU32 z (mv_maxPlayers p) b;
                b = wBool z (mv_hasPassword p) b;
                b = wBool z (mv_isDedicated p) b;
                b = wBool z (mv_useP2P p) b;
                b = wString z (mv_ip p) b in b)
         else b)"

definition MasterQueryRoomRes_deserialize :: "('b, 'f) bufops \<Rightarrow> 'b \<Rightarrow> MasterQueryRoomRes \<times> 'b" where
  "MasterQueryRoomRes_deserialize z b =
     (let (roomCode, b) = rdString z b;
          (found, b) = rdBool z b;
          p = query_room_res roomCode found
      in if found then
           (let (name, b) = rdString z b;
                (currentPlayers, b) = rU32 z b;
                (maxPlayers, b) = rU32 z b;
                (hasPassword, b) = rdBool z b;
                (isDedicated, b) = rdBool z b;
                (useP2P, b) = rdBool z b;
                (ip, b) = rdString z b
            in (p\<lparr>mv_name := name, mv_currentPlayers := currentPlayers, mv_maxPlayers := maxPlayers,
                  mv_hasPassword := hasPassword, mv_isDedicated := isDedicated, mv_useP2P := useP2P,
                  mv_ip := ip\<rparr>, b))
         else (p, b))"

subsection \<open>The server list\<close>

record ('f, 'c, 's) gServerInfo =
  si_ip :: string
  si_peerCandidates :: "string list"
  si_candidates :: "'c list"
  si_name :: string
  si_currentPlayers :: u32
  si_maxPlayers :: u32
  si_matchState :: u32
  si_lastHeartbeat :: 'f
  si_isPrivate :: bool
  si_hasPassword :: bool
  si_isDedicated :: bool
  si_useP2P :: bool
  si_roomCode :: string
  si_hostSession :: "'s option"

definition server_info_default :: "'f fops \<Rightarrow> ('f, 'c, 's) gServerInfo" where
  "server_info_default fl = \<lparr>si_ip = [], si_peerCandidates = [], si_candidates = [], si_name = [],
     si_currentPlayers = 0, si_maxPlayers = 0, si_matchState = 0, si_lastHeartbeat = flit fl 0,
     si_isPrivate = False, si_hasPassword = False, si_isDedicated = False, si_useP2P = False,
     si_roomCode = [], si_hostSession = None\<rparr>"

definition put_server :: "('b, 'f) bufops \<Rightarrow> ('f, 'c, 's) gServerInfo \<Rightarrow> 'b \<Rightarrow> 'b" where
  "put_server z s b =
     (let b = wString z (si_ip s) b;
          b = wString z (si_name s) b;
          b = wU32 z (si_currentPlayers s) b;
          b = wU32 z (si_maxPlayers s) b;
          b = wU32 z (si_matchState s) b;
          b = wIntFlag z (si_isPrivate s) b;
          b = wIntFlag z (si_hasPassword s) b;
          b = wIntFlag z (si_isDedicated s) b;
          b = wIntFlag z (si_useP2P s) b;
          b = wString z (si_roomCode s) b in b)"

definition get_server :: "'f fops \<Rightarrow> ('b, 'f) bufops \<Rightarrow> 'b \<Rightarrow> ('f, 'c, 's) gServerInfo \<times> 'b" where
  "get_server fl z b =
     (let (ip, b) = rdString z b;
          (name, b) = rdString z b;
          (currentPlayers, b) = rU32 z b;
          (maxPlayers, b) = rU32 z b;
          (matchState, b) = rU32 z b;
          (isPrivate, b) = rIntFlag z b;
          (hasPassword, b) = rIntFlag z b;
          (isDedicated, b) = rIntFlag z b;
          (useP2P, b) = rIntFlag z b;
          (roomCode, b) = rdString z b
      in ((server_info_default fl)\<lparr>si_ip := ip, si_name := name, si_currentPlayers := currentPlayers,
            si_maxPlayers := maxPlayers, si_matchState := matchState, si_isPrivate := isPrivate,
            si_hasPassword := hasPassword, si_isDedicated := isDedicated, si_useP2P := useP2P,
            si_roomCode := roomCode\<rparr>, b))"

definition MasterSendList_serialize ::
  "('b, 'f) bufops \<Rightarrow> ('f, 'c, 's) gServerInfo list \<Rightarrow> 'b \<Rightarrow> 'b" where
  "MasterSendList_serialize z servers b = fold (put_server z) servers (wVarInt z (length servers) b)"

definition MasterSendList_deserialize ::
  "'f fops \<Rightarrow> ('b, 'f) bufops \<Rightarrow> 'b \<Rightarrow> ('f, 'c, 's) gServerInfo list \<times> 'b" where
  "MasterSendList_deserialize fl z b =
     (let (count, b) = rdVarInt z b
      in if count > readable_bytes z b then ([], b) else read_n (get_server fl z) count b)"

subsection \<open>Packets with candidates\<close>

record 'c MasterRegister =
  mi_ip :: string
  mi_name :: string
  mi_currentPlayers :: u32
  mi_maxPlayers :: u32
  mi_matchState :: u32
  mi_isPrivate :: bool
  mi_hasPassword :: bool
  mi_isDedicated :: bool
  mi_useP2P :: bool
  mi_candidates :: "'c list"

definition MasterRegister_serialize ::
  "('b, 'f) bufops \<Rightarrow> ('c list \<Rightarrow> 'b \<Rightarrow> 'b) \<Rightarrow> 'c MasterRegister \<Rightarrow> 'b \<Rightarrow> 'b" where
  "MasterRegister_serialize z wc p b =
     (let b = wString z (mi_ip p) b;
          b = wString z (mi_name p) b;
          b = wU32 z (mi_currentPlayers p) b;
          b = wU32 z (mi_maxPlayers p) b;
          b = wU32 z (mi_matchState p) b;
          b = wIntFlag z (mi_isPrivate p) b;
          b = wIntFlag z (mi_hasPassword p) b;
          b = wIntFlag z (mi_isDedicated p) b;
          b = wIntFlag z (mi_useP2P p) b;
          b = wc (mi_candidates p) b in b)"

definition MasterRegister_deserialize ::
  "('b, 'f) bufops \<Rightarrow> ('b \<Rightarrow> 'c list option \<times> 'b) \<Rightarrow> 'b \<Rightarrow> 'c MasterRegister option \<times> 'b" where
  "MasterRegister_deserialize z rc b =
     (let (ip, b) = rdString z b;
          (name, b) = rdString z b;
          (currentPlayers, b) = rU32 z b;
          (maxPlayers, b) = rU32 z b;
          (matchState, b) = rU32 z b;
          (isPrivate, b) = rIntFlag z b;
          (hasPassword, b) = rIntFlag z b;
          (isDedicated, b) = rIntFlag z b;
          (useP2P, b) = rIntFlag z b;
          (candidates, b) = rc b
      in (case candidates of None \<Rightarrow> (None, b)
          | Some cs \<Rightarrow> (Some \<lparr>mi_ip = ip, mi_name = name, mi_currentPlayers = currentPlayers,
              mi_maxPlayers = maxPlayers, mi_matchState = matchState, mi_isPrivate = isPrivate,
              mi_hasPassword = hasPassword, mi_isDedicated = isDedicated, mi_useP2P = useP2P,
              mi_candidates = cs\<rparr>, b)))"

record 'c MasterPunchReq =
  mp_targetIdentifier :: string
  mp_candidates :: "'c list"
  mp_clientGamePort :: u16

definition MasterPunchReq_serialize ::
  "('b, 'f) bufops \<Rightarrow> ('c list \<Rightarrow> 'b \<Rightarrow> 'b) \<Rightarrow> 'c MasterPunchReq \<Rightarrow> 'b \<Rightarrow> 'b" where
  "MasterPunchReq_serialize z wc p b =
     (let b = wString z (mp_targetIdentifier p) b;
          b = wc (mp_candidates p) b;
          b = wU16 z (mp_clientGamePort p) b in b)"

definition MasterPunchReq_deserialize ::
  "('b, 'f) bufops \<Rightarrow> ('b \<Rightarrow> 'c list option \<times> 'b) \<Rightarrow> 'b \<Rightarrow> 'c MasterPunchReq option \<times> 'b" where
  "MasterPunchReq_deserialize z rc b =
     (let (targetIdentifier, b) = rdString z b;
          (candidates, b) = rc b
      in (case candidates of None \<Rightarrow> (None, b)
          | Some cs \<Rightarrow> (let (clientGamePort, b) = rU16 z b
              in (Some \<lparr>mp_targetIdentifier = targetIdentifier, mp_candidates = cs,
                    mp_clientGamePort = clientGamePort\<rparr>, b))))"

record 'c MasterPunchExec =
  mx_candidates :: "'c list"
  mx_isHost :: bool

definition MasterPunchExec_serialize ::
  "('b, 'f) bufops \<Rightarrow> ('c list \<Rightarrow> 'b \<Rightarrow> 'b) \<Rightarrow> 'c MasterPunchExec \<Rightarrow> 'b \<Rightarrow> 'b" where
  "MasterPunchExec_serialize z wc p b =
     (let b = wc (mx_candidates p) b; b = wIntFlag z (mx_isHost p) b in b)"

definition MasterPunchExec_deserialize ::
  "('b, 'f) bufops \<Rightarrow> ('b \<Rightarrow> 'c list option \<times> 'b) \<Rightarrow> 'b \<Rightarrow> 'c MasterPunchExec option \<times> 'b" where
  "MasterPunchExec_deserialize z rc b =
     (let (candidates, b) = rc b
      in (case candidates of None \<Rightarrow> (None, b)
          | Some cs \<Rightarrow> (let (n, b) = rU32 z b in (Some \<lparr>mx_candidates = cs, mx_isHost = (n = 1)\<rparr>, b))))"

subsection \<open>The protocol as one type\<close>

datatype ('f, 'c, 's) master_packet =
  MRegister "'c MasterRegister" | MHeartbeat MasterHeartbeat | MGetList MasterGetList
| MSendList "('f, 'c, 's) gServerInfo list" | MRegisterRes MasterRegisterRes
| MPunchReq "'c MasterPunchReq" | MPunchExec "'c MasterPunchExec" | MQueryRoom MasterQueryRoom
| MQueryRoomRes MasterQueryRoomRes | MUserLogin MasterUserLogin | MUserLoginRes MasterUserLoginRes
| MUserRegister MasterUserRegister | MUserRegisterRes MasterUserRegisterRes
| MTokenLogin MasterTokenLogin | MLogout MasterLogout

fun master_id :: "('f, 'c, 's) master_packet \<Rightarrow> u64" where
  "master_id (MRegister _) = 300"
| "master_id (MHeartbeat _) = 301"
| "master_id (MGetList _) = 302"
| "master_id (MSendList _) = 303"
| "master_id (MRegisterRes _) = 304"
| "master_id (MPunchReq _) = 305"
| "master_id (MPunchExec _) = 306"
| "master_id (MQueryRoom _) = 307"
| "master_id (MQueryRoomRes _) = 308"
| "master_id (MUserLogin _) = 309"
| "master_id (MUserLoginRes _) = 310"
| "master_id (MUserRegister _) = 311"
| "master_id (MUserRegisterRes _) = 312"
| "master_id (MTokenLogin _) = 313"
| "master_id (MLogout _) = 314"

fun master_serialize ::
  "('b, 'f) bufops \<Rightarrow> ('c list \<Rightarrow> 'b \<Rightarrow> 'b) \<Rightarrow> ('f, 'c, 's) master_packet \<Rightarrow> 'b \<Rightarrow> 'b" where
  "master_serialize z wc (MRegister p) b = MasterRegister_serialize z wc p b"
| "master_serialize z wc (MHeartbeat p) b = MasterHeartbeat_serialize z p b"
| "master_serialize z wc (MGetList p) b = MasterGetList_serialize z p b"
| "master_serialize z wc (MSendList servers) b = MasterSendList_serialize z servers b"
| "master_serialize z wc (MRegisterRes p) b = MasterRegisterRes_serialize z p b"
| "master_serialize z wc (MPunchReq p) b = MasterPunchReq_serialize z wc p b"
| "master_serialize z wc (MPunchExec p) b = MasterPunchExec_serialize z wc p b"
| "master_serialize z wc (MQueryRoom p) b = MasterQueryRoom_serialize z p b"
| "master_serialize z wc (MQueryRoomRes p) b = MasterQueryRoomRes_serialize z p b"
| "master_serialize z wc (MUserLogin p) b = MasterUserLogin_serialize z p b"
| "master_serialize z wc (MUserLoginRes p) b = MasterUserLoginRes_serialize z p b"
| "master_serialize z wc (MUserRegister p) b = MasterUserRegister_serialize z p b"
| "master_serialize z wc (MUserRegisterRes p) b = MasterUserRegisterRes_serialize z p b"
| "master_serialize z wc (MTokenLogin p) b = MasterTokenLogin_serialize z p b"
| "master_serialize z wc (MLogout p) b = MasterLogout_serialize z p b"

text \<open>The serializer an id selects; a packet that fails to parse is \<open>Some (None, _)\<close>.\<close>

definition master_deserialize ::
  "'f fops \<Rightarrow> ('b, 'f) bufops \<Rightarrow> ('b \<Rightarrow> 'c list option \<times> 'b) \<Rightarrow> u64 \<Rightarrow> 'b
     \<Rightarrow> (('f, 'c, 's) master_packet option \<times> 'b) option" where
  "master_deserialize fl z rc pid b =
     (if pid = 300 then Some (map_prod (map_option MRegister) id (MasterRegister_deserialize z rc b))
      else if pid = 301 then Some (map_prod (Some \<circ> MHeartbeat) id (MasterHeartbeat_deserialize z b))
      else if pid = 302 then Some (map_prod (Some \<circ> MGetList) id (MasterGetList_deserialize z b))
      else if pid = 303 then Some (map_prod (Some \<circ> MSendList) id (MasterSendList_deserialize fl z b))
      else if pid = 304 then Some (map_prod (Some \<circ> MRegisterRes) id (MasterRegisterRes_deserialize z b))
      else if pid = 305 then Some (map_prod (map_option MPunchReq) id (MasterPunchReq_deserialize z rc b))
      else if pid = 306 then Some (map_prod (map_option MPunchExec) id (MasterPunchExec_deserialize z rc b))
      else if pid = 307 then Some (map_prod (Some \<circ> MQueryRoom) id (MasterQueryRoom_deserialize z b))
      else if pid = 308 then Some (map_prod (Some \<circ> MQueryRoomRes) id (MasterQueryRoomRes_deserialize z b))
      else if pid = 309 then Some (map_prod (Some \<circ> MUserLogin) id (MasterUserLogin_deserialize z b))
      else if pid = 310 then Some (map_prod (Some \<circ> MUserLoginRes) id (MasterUserLoginRes_deserialize z b))
      else if pid = 311 then Some (map_prod (Some \<circ> MUserRegister) id (MasterUserRegister_deserialize z b))
      else if pid = 312 then Some (map_prod (Some \<circ> MUserRegisterRes) id (MasterUserRegisterRes_deserialize z b))
      else if pid = 313 then Some (map_prod (Some \<circ> MTokenLogin) id (MasterTokenLogin_deserialize z b))
      else if pid = 314 then Some (map_prod (Some \<circ> MLogout) id (MasterLogout_deserialize z b))
      else None)"

subsection \<open>Round trips\<close>

text \<open>What a server list carries of an entry, and what a packet carries of itself: a list entry loses
  its candidates, heartbeat and session, and a negative answer to a room query loses the room.\<close>

definition listed :: "'f fops \<Rightarrow> ('f, 'c, 's) gServerInfo \<Rightarrow> ('f, 'c, 's) gServerInfo" where
  "listed fl s = s\<lparr>si_peerCandidates := [], si_candidates := [], si_lastHeartbeat := flit fl 0, si_hostSession := None\<rparr>"

definition answered :: "MasterQueryRoomRes \<Rightarrow> MasterQueryRoomRes" where
  "answered p = (if mv_found p then p else query_room_res (mv_roomCode p) False)"

fun carried :: "'f fops \<Rightarrow> ('f, 'c, 's) master_packet \<Rightarrow> ('f, 'c, 's) master_packet" where
  "carried fl (MSendList servers) = MSendList (map (listed fl) servers)"
| "carried fl (MQueryRoomRes p) = MQueryRoomRes (answered p)"
| "carried fl packet = packet"

text \<open>The lists znet carries (it bounds their length) are those \<open>ok\<close> holds of.\<close>

fun master_wf :: "('c list \<Rightarrow> bool) \<Rightarrow> ('f, 'c, 's) master_packet \<Rightarrow> bool" where
  "master_wf ok (MRegister p) = ok (mi_candidates p)"
| "master_wf ok (MPunchReq p) = ok (mp_candidates p)"
| "master_wf ok (MPunchExec p) = ok (mx_candidates p)"
| "master_wf ok _ = True"

locale candidate_buffer = znet_buffer z pend bad w
  for z :: "('b, 'f) bufops" and pend :: "'b \<Rightarrow> bytes" and bad :: "'b \<Rightarrow> bool" and w :: "'f wire" +
  fixes wc :: "'c list \<Rightarrow> 'b \<Rightarrow> 'b" and rc :: "'b \<Rightarrow> 'c list option \<times> 'b" and ok :: "'c list \<Rightarrow> bool"
    and ec :: "'c list \<Rightarrow> bytes"
  assumes wc: "ok cs \<Longrightarrow> pend (wc cs b) = pend b @ ec cs" "ok cs \<Longrightarrow> bad (wc cs b) = bad b"
    and rc: "ok cs \<Longrightarrow> pend b = ec cs @ r \<Longrightarrow> \<exists>b'. rc b = (Some cs, b') \<and> pend b' = r \<and> bad b' = bad b"
begin

lemma rcE:
  assumes "pend b = ec cs @ r" "ok cs" "\<And>b'. pend b' = r \<Longrightarrow> bad b' = bad b \<Longrightarrow> P (f (Some cs) b')"
  shows "P (case rc b of (x, b') \<Rightarrow> f x b')"
  using rc [OF assms(2,1)] assms(3) by auto

lemmas master_packet_defs =
  MasterHeartbeat_serialize_def MasterHeartbeat_deserialize_def
  MasterGetList_serialize_def MasterGetList_deserialize_def
  MasterRegisterRes_serialize_def MasterRegisterRes_deserialize_def
  MasterQueryRoom_serialize_def MasterQueryRoom_deserialize_def
  MasterUserLogin_serialize_def MasterUserLogin_deserialize_def
  MasterUserLoginRes_serialize_def MasterUserLoginRes_deserialize_def
  MasterUserRegister_serialize_def MasterUserRegister_deserialize_def
  MasterUserRegisterRes_serialize_def MasterUserRegisterRes_deserialize_def
  MasterTokenLogin_serialize_def MasterTokenLogin_deserialize_def
  MasterLogout_serialize_def MasterLogout_deserialize_def

lemma fixed_master_packets_carry:
  "carries pend bad 0 (MasterHeartbeat_serialize z p0) (MasterHeartbeat_deserialize z) p0"
  "carries pend bad 0 (MasterGetList_serialize z p1) (MasterGetList_deserialize z) p1"
  "carries pend bad 0 (MasterRegisterRes_serialize z p2) (MasterRegisterRes_deserialize z) p2"
  "carries pend bad 0 (MasterQueryRoom_serialize z p3) (MasterQueryRoom_deserialize z) p3"
  "carries pend bad 0 (MasterUserLogin_serialize z p4) (MasterUserLogin_deserialize z) p4"
  "carries pend bad 0 (MasterUserLoginRes_serialize z p5) (MasterUserLoginRes_deserialize z) p5"
  "carries pend bad 0 (MasterUserRegister_serialize z p6) (MasterUserRegister_deserialize z) p6"
  "carries pend bad 0 (MasterUserRegisterRes_serialize z p7) (MasterUserRegisterRes_deserialize z) p7"
  "carries pend bad 0 (MasterTokenLogin_serialize z p8) (MasterTokenLogin_deserialize z) p8"
  "carries pend bad 0 (MasterLogout_serialize z p9) (MasterLogout_deserialize z) p9"
  unfolding master_packet_defs Let_def
  by (rule carriesI, simp, simp, (simp only: append_assoc)?, (erule wire_reads)+, simp)+

lemma query_room_res_carries:
  "carries pend bad 0 (MasterQueryRoomRes_serialize z p) (MasterQueryRoomRes_deserialize z) (answered p)"
proof (cases "mv_found p")
  case True
  show ?thesis
    unfolding MasterQueryRoomRes_serialize_def MasterQueryRoomRes_deserialize_def Let_def if_P [OF True]
    by (rule carriesI, simp, simp, (simp only: append_assoc)?, (erule wire_reads)+, simp only: if_P [OF True],
      (erule wire_reads)+, simp add: answered_def query_room_res_def True)
next
  case False
  show ?thesis
    unfolding MasterQueryRoomRes_serialize_def MasterQueryRoomRes_deserialize_def Let_def if_not_P [OF False]
    by (rule carriesI, simp, simp, (simp only: append_assoc)?, (erule wire_reads)+, simp only: if_not_P [OF False],
      simp add: answered_def False)
qed

end

context candidate_buffer
begin

lemma server_entry_codec: "entry_codec pend bad (put_server z) (get_server fl z) (listed fl)"
proof
  show "carries pend bad 1 (put_server z x) (get_server fl z) (listed fl x)" for x
    unfolding put_server_def get_server_def Let_def
    by (rule carriesI, simp del: One_nat_def, simp, (simp only: append_assoc)?, (erule wire_reads)+,
      simp add: listed_def server_info_default_def)
qed

lemma send_list_carries:
  "carries pend bad 0 (MasterSendList_serialize z servers) (MasterSendList_deserialize fl z) (map (listed fl) servers)"
proof -
  obtain e where e: "\<And>b. pend (fold (put_server z) servers b) = pend b @ e"
    "\<And>b. bad (fold (put_server z) servers b) = bad b" "length servers \<le> length e"
    "\<And>b r. pend b = e @ r \<Longrightarrow> \<exists>b'. read_n (get_server fl z) (length servers) b = (map (listed fl) servers, b') \<and>
      pend b' = r \<and> bad b' = bad b"
    by (rule carriesE [OF entry_codec.vector [OF server_entry_codec]]) blast
  show ?thesis
    unfolding MasterSendList_serialize_def MasterSendList_deserialize_def Let_def
  proof (rule carriesI [where e = "eVarInt w (length servers) @ e"], goal_cases)
    case (1 b)
    show ?case by (simp add: e)
  next
    case (3 b r)
    then show ?case
      apply (simp only: append_assoc)
      apply (erule wire_reads)
      subgoal for b1 using e(3) e(4) [of b1 r] by auto
      done
  qed simp
qed

lemma candidate_packets_carry:
  "ok (mi_candidates p) \<Longrightarrow> carries pend bad 0 (MasterRegister_serialize z wc p) (MasterRegister_deserialize z rc) (Some p)"
  "ok (mp_candidates q) \<Longrightarrow> carries pend bad 0 (MasterPunchReq_serialize z wc q) (MasterPunchReq_deserialize z rc) (Some q)"
  "ok (mx_candidates x) \<Longrightarrow> carries pend bad 0 (MasterPunchExec_serialize z wc x) (MasterPunchExec_deserialize z rc) (Some x)"
proof -
  note wrap = rcE [where P = "\<lambda>x. \<exists>b'. x = (v', b') \<and> pend b' = r' \<and> bad b' = c" for v' r' c]
  show "carries pend bad 0 (MasterRegister_serialize z wc p) (MasterRegister_deserialize z rc) (Some p)"
    if ok: "ok (mi_candidates p)"
    unfolding MasterRegister_serialize_def MasterRegister_deserialize_def Let_def
    by (rule carriesI, simp add: wc ok, simp, (simp only: append_assoc)?, (erule wire_reads)+, erule wrap, rule ok, simp)
  show "carries pend bad 0 (MasterPunchReq_serialize z wc q) (MasterPunchReq_deserialize z rc) (Some q)"
    if ok: "ok (mp_candidates q)"
    unfolding MasterPunchReq_serialize_def MasterPunchReq_deserialize_def Let_def
    by (rule carriesI, simp add: wc ok, simp, (simp only: append_assoc)?, (erule wire_reads)+, erule wrap, rule ok,
      simp only: option.case, (erule wire_reads)+, simp)
  show "carries pend bad 0 (MasterPunchExec_serialize z wc x) (MasterPunchExec_deserialize z rc) (Some x)"
    if ok: "ok (mx_candidates x)"
    unfolding MasterPunchExec_serialize_def MasterPunchExec_deserialize_def Let_def
    by (rule carriesI, simp add: wc ok, simp, (simp only: append_assoc)?, erule wrap, rule ok, simp only: option.case,
      erule wire_reads, cases x, simp)
qed

definition master_reads_back :: "'f fops \<Rightarrow> 'b \<Rightarrow> ('f, 'c, 's) master_packet \<Rightarrow> bool" where
  "master_reads_back fl b packet \<longleftrightarrow> (\<exists>b'. master_deserialize fl z rc (master_id packet) (master_serialize z wc packet b) =
     Some (Some (carried fl packet), b') \<and> pend b' = [] \<and> bad b' = bad b)"

lemma carries_master:
  assumes "carries pend bad n put get p" "pend b = []" "master_serialize z wc packet b = put b"
    and "\<And>b. master_deserialize fl z rc (master_id packet) b = Some (map_prod con id (get b))" "con p = Some (carried fl packet)"
  shows "master_reads_back fl b packet"
proof -
  obtain e where e: "pend (put b) = pend b @ e" "bad (put b) = bad b"
    "\<And>b r. pend b = e @ r \<Longrightarrow> \<exists>b'. get b = (p, b') \<and> pend b' = r \<and> bad b' = bad b"
    by (rule carriesE [OF assms(1)]) blast
  from e(3) [of "put b" "[]"] e(1,2) assms(2) obtain b' where
    "get (put b) = (p, b')" "pend b' = []" "bad b' = bad b" by auto
  with assms(3,4) show ?thesis by (simp add: master_reads_back_def assms(5))
qed

lemmas master_carry = fixed_master_packets_carry [THEN carries_master] query_room_res_carries [THEN carries_master]
  send_list_carries [THEN carries_master] candidate_packets_carry [THEN carries_master]

lemma all_read_back:
  assumes "master_wf ok packet" "pend b = []"
  shows "master_reads_back fl b packet"
proof -
  note id_defs = master_deserialize_def comp_def
  show ?thesis
    using assms
    by (cases packet; simp only: master_wf.simps)
      (rule master_carry, assumption?, assumption?, simp, simp add: id_defs, simp)+
qed

end

subsection \<open>A candidate format\<close>

text \<open>Candidates as strings after a count, at most sixteen of them, over the byte-list buffer.\<close>

definition mem_wc :: "string list \<Rightarrow> mem_buffer \<Rightarrow> mem_buffer" where
  "mem_wc cs b = fold (wString mem_ops) cs (wVarInt mem_ops (length cs) b)"

definition mem_rc :: "mem_buffer \<Rightarrow> string list option \<times> mem_buffer" where
  "mem_rc b = (case rdVarInt mem_ops b of (n, b) \<Rightarrow>
     if 16 < n then (None, b) else map_prod Some id (read_n (rdString mem_ops) n b))"

definition mem_ec :: "string list \<Rightarrow> bytes" where
  "mem_ec cs = eVarInt mem_wire (length cs) @ concat (map (eString mem_wire) cs)"

lemma mem_strings:
  "fst (fold (wString mem_ops) cs b) = fst b @ concat (map (eString mem_wire) cs)"
  "snd (fold (wString mem_ops) cs b) = snd b"
  by (induction cs arbitrary: b) (simp_all add: mem.pend_writes mem.bad_writes)

lemma mem_read_strings:
  "fst b = concat (map (eString mem_wire) cs) @ r \<Longrightarrow> \<exists>b'. read_n (rdString mem_ops) (length cs) b = (cs, b') \<and> fst b' = r \<and> snd b' = snd b"
proof (induction cs arbitrary: b)
  case (Cons c cs)
  obtain b1 where b1: "rdString mem_ops b = (c, b1)" "fst b1 = concat (map (eString mem_wire) cs) @ r" "snd b1 = snd b"
    using mem.rdString [of b c "concat (map (eString mem_wire) cs) @ r"] Cons.prems by auto
  from Cons.IH [OF b1(2)] b1 show ?case by auto
qed auto

interpretation mem_candidates: candidate_buffer mem_ops fst snd mem_wire mem_wc mem_rc "\<lambda>cs. length cs \<le> 16" mem_ec
proof (unfold_locales, goal_cases)
  case (1 cs b)
  show ?case by (simp add: mem_wc_def mem_ec_def mem_strings mem.pend_writes)
next
  case (2 cs b)
  show ?case by (simp add: mem_wc_def mem_strings mem.bad_writes)
next
  case (3 cs b r)
  from 3(2) have "fst b = eVarInt mem_wire (length cs) @ (concat (map (eString mem_wire) cs) @ r)" by (simp add: mem_ec_def)
  from mem.rdVarInt [OF this] obtain b1 where b1: "rdVarInt mem_ops b = (length cs, b1)"
    "fst b1 = concat (map (eString mem_wire) cs) @ r" "snd b1 = snd b" by auto
  from mem_read_strings [OF b1(2)] b1 3(1) show ?case by (auto simp: mem_rc_def)
qed

subsection \<open>Properties\<close>

text \<open>C18. Every packet of the master protocol survives the wire, whatever follows from the candidate lists
  znet accepts: the deserializer its id selects returns the packet, consumes every byte and raises no
  error. A server list carries the public part of each entry and a negative answer nothing but the
  room code.\<close>

theorem master_roundtrip:
  assumes "candidate_buffer z pend bad w wc rc ok ec" "master_wf ok packet" "pend b = []" "\<not> bad b"
  shows "\<exists>b'. master_deserialize fl z rc (master_id packet) (master_serialize z wc packet b) =
    Some (Some (carried fl packet), b') \<and> pend b' = [] \<and> \<not> bad b'"
  using candidate_buffer.all_read_back [OF assms(1-3)] assms(4)
  unfolding candidate_buffer.master_reads_back_def [OF assms(1)] by fastforce

definition example_server :: "(u32, string, nat) gServerInfo" where
  "example_server = \<lparr>si_ip = ''10.0.0.1:25002'', si_peerCandidates = [], si_candidates = [''10.0.0.1''], si_name = ''Arena'',
     si_currentPlayers = 3, si_maxPlayers = 8, si_matchState = 1, si_lastHeartbeat = 7,
     si_isPrivate = False, si_hasPassword = True, si_isDedicated = False, si_useP2P = True,
     si_roomCode = ''AB12'', si_hostSession = Some 4\<rparr>"

lemma master_roundtrip_witness:
  "\<forall>fl. \<exists>b'. master_deserialize fl mem_ops mem_rc 303 (master_serialize mem_ops mem_wc (MSendList [example_server]) ([], False)) =
    Some (Some (MSendList [listed fl example_server]), b') \<and> fst b' = [] \<and> \<not> snd b'"
proof
  fix fl :: "u32 fops"
  show "\<exists>b'. master_deserialize fl mem_ops mem_rc 303 (master_serialize mem_ops mem_wc (MSendList [example_server]) ([], False)) =
    Some (Some (MSendList [listed fl example_server]), b') \<and> fst b' = [] \<and> \<not> snd b'"
    using master_roundtrip [OF mem_candidates.candidate_buffer_axioms, of "MSendList [example_server]" "([], False)" fl]
    by simp
qed

text \<open>Whatever bytes arrive as a server list, the list that comes out has no more entries than the
  buffer had readable bytes after the count, so a forged count cannot make the client allocate
  without bound.\<close>

theorem server_list_bounded:
  "length (fst (MasterSendList_deserialize fl z b)) \<le> readable_bytes z (snd (rdVarInt z b))"
  by (simp add: MasterSendList_deserialize_def Let_def split_beta read_n_length)

end
