(* ===== verification/GameBackendLocal.thy ===== *)
theory GameBackendLocal
  imports GameBackend VoiceServer MasterPackets
begin

section \<open>The host's backend\<close>

text \<open>
  \<open>GameBackendLocal.h\<close> and \<open>.cpp\<close> (and \<open>GameBackendServer.cpp\<close>, which only sets its fields): the
  sessions of the connected clients, the packet handler of a session, the host's side of the
  virtual operations of the game backend, the voice router's peers, and the link to the master.

  A session object is a number, its handle. What znet answers about it (its id, whether it is
  alive, its transport) is in the environment record, which each operation gets anew; its user
  pointer, the tag, lives in the table \<open>lo_tags\<close>, since the code keeps writing through it after the
  session has left the vector. Every operation is atomic. Sends are effects, in order, with
  \<open>SendPacket\<close> assumed to take the packet.
\<close>

datatype voice_target = HostVoice | SessionVoice nat

datatype ('f, 'c) host_effect =
  SendTo nat "'f game_packet" | Callback "'f backend_effect" | ToMaster "('f, 'c, nat) master_packet"

record ('f, 'c) LocalState =
  lo_base :: "'f BackendState"
  lo_sessions :: "nat list"
  lo_tags :: "(nat, u32) umap"
  lo_pings :: "(u32, int) umap"
  lo_pingSnapshotTimer :: 'f
  lo_masterHeartbeatTimer :: 'f
  lo_isConnectedToMaster :: bool
  lo_assignedRoomCode :: string
  lo_voice :: "('f, voice_target) VoiceServer"
  lo_voiceSessionId :: u64
  lo_isDedicatedServer :: bool
  lo_serverName :: string
  lo_isPrivateServer :: bool
  lo_serverPassword :: string
  lo_publicIp :: string
  lo_useP2P :: bool
  lo_port :: u16
  lo_gatheredCandidates :: "'c list"

record ('f, 'c) host_env =
  he_base :: "'f backend_env"
  he_sid :: "nat \<Rightarrow> u64"
  he_isAlive :: "nat \<Rightarrow> bool"
  he_isZdt :: "nat \<Rightarrow> bool"
  he_deliver :: "voice_target \<Rightarrow> voice_message \<Rightarrow> send_options \<Rightarrow> bool"
  he_steady :: int
  he_loggedInUsername :: string
  he_localCandidates :: "u16 \<Rightarrow> 'c list"
  he_containsAddress :: "'c list \<Rightarrow> 'c \<Rightarrow> bool"
  he_masterSession :: bool

type_synonym ('f, 'c) host_step = "('f, 'c) host_effect list \<times> ('f, 'c) LocalState"

definition LOCAL_HOST_VOICE_CONN_ID :: u64 where
  "LOCAL_HOST_VOICE_CONN_ID = 0xFFFFFFFFFFFFFFFF"

text \<open>A new backend; the static sequence of voice sessions is the argument \<open>seq\<close>.\<close>

definition local_state :: "'f fops \<Rightarrow> u64 \<Rightarrow> u16 \<Rightarrow> ('f, 'c) LocalState" where
  "local_state fl seq port = \<lparr>lo_base = backend_state fl, lo_sessions = [], lo_tags = [], lo_pings = [],
     lo_pingSnapshotTimer = flit fl 0, lo_masterHeartbeatTimer = flit fl 0, lo_isConnectedToMaster = False,
     lo_assignedRoomCode = [], lo_voice = voice_server (default_config fl), lo_voiceSessionId = seq,
     lo_isDedicatedServer = False, lo_serverName = [], lo_isPrivateServer = False, lo_serverPassword = [],
     lo_publicIp = ''127.0.0.1'', lo_useP2P = False, lo_port = port, lo_gatheredCandidates = []\<rparr>"

definition enqueue :: "'f game_packet \<Rightarrow> ('f, 'c) LocalState \<Rightarrow> ('f, 'c) LocalState" where
  "enqueue packet s = s\<lparr>lo_base := enqueuePacket packet (lo_base s)\<rparr>"

definition set_tag :: "nat \<Rightarrow> u32 \<Rightarrow> ('f, 'c) LocalState \<Rightarrow> ('f, 'c) LocalState" where
  "set_tag h i s = s\<lparr>lo_tags := um_put h i (lo_tags s)\<rparr>"

subsection \<open>Sending\<close>

definition broadcast :: "'f game_packet \<Rightarrow> nat option \<Rightarrow> ('f, 'c) LocalState \<Rightarrow> ('f, 'c) host_effect list" where
  "broadcast packet exclude s = map (\<lambda>h. SendTo h packet) (filter (\<lambda>h. Some h \<noteq> exclude) (lo_sessions s))"

definition session_of :: "u32 \<Rightarrow> ('f, 'c) LocalState \<Rightarrow> nat option" where
  "session_of netId s = List.find (\<lambda>h. um_find (lo_tags s) h = Some netId) (lo_sessions s)"

definition sendToPlayer :: "u32 \<Rightarrow> 'f game_packet \<Rightarrow> ('f, 'c) LocalState \<Rightarrow> ('f, 'c) host_effect list" where
  "sendToPlayer netId packet s = (case session_of netId s of None \<Rightarrow> [] | Some h \<Rightarrow> [SendTo h packet])"

definition relayChat :: "ChatMessagePacket \<Rightarrow> ('f, 'c) LocalState \<Rightarrow> ('f, 'c) host_effect list" where
  "relayChat p s =
     (if ch_channel p = CHAT_ALL then broadcast (ChatMessage p) None s
      else if ch_channel p = CHAT_TEAM then
        (case find_player (ch_senderId p) (gb_roomPlayers (lo_base s)) of
           None \<Rightarrow> []
         | Some sender \<Rightarrow> concat (map (\<lambda>rp. sendToPlayer (rp_id rp) (ChatMessage p) s)
             (filter (\<lambda>rp. rp_team rp = rp_team sender) (gb_roomPlayers (lo_base s)))))
      else if ch_channel p = CHAT_PRIVATE then
        sendToPlayer (ch_targetId p) (ChatMessage p) s @
        (if ch_senderId p \<noteq> ch_targetId p then sendToPlayer (ch_senderId p) (ChatMessage p) s else [])
      else [])"

subsection \<open>Voice peers\<close>

definition player_state :: "u32 \<Rightarrow> u8 \<Rightarrow> u64 \<Rightarrow> PeerState" where
  "player_state pid team sessionid = \<lparr>ps_playerid = ucast pid, ps_teamid = ucast team,
     ps_sessionid = sessionid, ps_cantransmit = True, ps_canreceive = True\<rparr>"

text \<open>The host is the player with the name it is logged in with, or player 1.\<close>

definition host_player :: "string \<Rightarrow> RoomPlayerInfo list \<Rightarrow> u32" where
  "host_player hostName players =
     (case List.find (\<lambda>rp. hostName \<noteq> [] \<and> rp_name rp = hostName) players of None \<Rightarrow> 1 | Some rp \<Rightarrow> rp_id rp)"

text \<open>The player and team a session speaks for: its tag if it has one, else its id cut to 32 bits,
  looked up in the lobby under either.\<close>

definition session_player ::
  "('f, 'c) host_env \<Rightarrow> RoomPlayerInfo list \<Rightarrow> (nat, u32) umap \<Rightarrow> nat \<Rightarrow> u32 \<times> u8" where
  "session_player env players tags h =
     (let pid = (case um_find tags h of None \<Rightarrow> ucast (he_sid env h)
            | Some i \<Rightarrow> if i \<noteq> 0 then i else ucast (he_sid env h))
      in case List.find (\<lambda>rp. rp_id rp = pid \<or> ucast (rp_id rp) = he_sid env h) players of
           None \<Rightarrow> (pid, 0)
         | Some rp \<Rightarrow> (rp_id rp, rp_team rp))"

definition set_peer ::
  "('f, 'c) host_env \<Rightarrow> u64 \<Rightarrow> PeerState \<Rightarrow> ('f, 'c) LocalState \<Rightarrow> ('f, 'c) LocalState" where
  "set_peer env conn st s = s\<lparr>lo_voice := snd (setPeerState (he_deliver env) (he_steady env) conn st (lo_voice s))\<rparr>"

definition sync_session :: "('f, 'c) host_env \<Rightarrow> nat \<Rightarrow> ('f, 'c) LocalState \<Rightarrow> ('f, 'c) LocalState" where
  "sync_session env h s =
     (if \<not> he_isAlive env h then s
      else case session_player env (gb_roomPlayers (lo_base s)) (lo_tags s) h of (pid, team) \<Rightarrow>
        set_peer env (he_sid env h) (player_state pid team (lo_voiceSessionId s)) s)"

definition syncVoicePeerStates :: "('f, 'c) host_env \<Rightarrow> ('f, 'c) LocalState \<Rightarrow> ('f, 'c) LocalState" where
  "syncVoicePeerStates env s =
     (if lo_voiceSessionId s = 0 then s
      else let s = (if lo_isDedicatedServer s then s
             else set_peer env LOCAL_HOST_VOICE_CONN_ID
               (player_state (host_player (he_loggedInUsername env) (gb_roomPlayers (lo_base s)))
                  (gb_localTeam (lo_base s)) (lo_voiceSessionId s)) s)
           in fold (sync_session env) (lo_sessions s) s)"

subsection \<open>The virtual operations of the game backend\<close>

definition lobby_packet :: "RoomPlayerInfo list \<Rightarrow> bool \<Rightarrow> ('f, 'c) LocalState \<Rightarrow> LobbyStatePacket" where
  "lobby_packet players inProgress s = \<lparr>ls_isGlobalServer = lo_isDedicatedServer s,
     ls_matchInProgress = inProgress, ls_roomCode = lo_assignedRoomCode s,
     ls_playerIds = map rp_id players, ls_playerNames = map rp_name players,
     ls_playerTeams = map rp_team players, ls_playerReadys = map (\<lambda>rp. if rp_isReady rp then 1 else 0) players\<rparr>"

definition broadcastLobbyState ::
  "('f, 'c) host_env \<Rightarrow> RoomPlayerInfo list \<Rightarrow> bool \<Rightarrow> ('f, 'c) LocalState \<Rightarrow> ('f, 'c) host_step" where
  "broadcastLobbyState env players inProgress s =
     (let p = lobby_packet players inProgress s;
          s = syncVoicePeerStates env s
      in (broadcast (LobbyState p) None s @ [Callback (OnLobbyStateUpdated p)], s))"

definition broadcastState ::
  "u32 \<Rightarrow> 'f \<times> 'f \<times> 'f \<Rightarrow> 'f \<Rightarrow> u8 \<Rightarrow> u8 \<Rightarrow> ('f, 'c) LocalState \<Rightarrow> ('f, 'c) host_effect list" where
  "broadcastState netid pos yaw team animState s = (case pos of (x, y, zpos) \<Rightarrow>
     broadcast (NodeState \<lparr>ns_netid = netid, ns_x = x, ns_y = y, ns_z = zpos, ns_yaw = yaw, ns_team = team,
       ns_animState = animState\<rparr>) None s)"

text \<open>An effect of the game backend, done by the host: virtual operations here, callbacks by the game.\<close>

fun host_perform :: "('f, 'c) host_env \<Rightarrow> 'f backend_effect \<Rightarrow> ('f, 'c) LocalState \<Rightarrow> ('f, 'c) host_step" where
  "host_perform env (SendPacket packet) s = (broadcast packet None s, s)"
| "host_perform env (BroadcastEvent packet) s = (broadcast packet None s, s)"
| "host_perform env (BroadcastLobby players inProgress) s = broadcastLobbyState env players inProgress s"
| "host_perform env (RelayChat p) s = (relayChat p s, s)"
| "host_perform env (BroadcastState netid pos yaw team animState) s = (broadcastState netid pos yaw team animState s, s)"
| "host_perform env e s = ([Callback e], s)"

fun host_perform_all ::
  "('f, 'c) host_env \<Rightarrow> 'f backend_effect list \<Rightarrow> ('f, 'c) LocalState \<Rightarrow> ('f, 'c) host_step" where
  "host_perform_all env [] s = ([], s)"
| "host_perform_all env (e # es) s = (case host_perform env e s of (done, s) \<Rightarrow>
     (case host_perform_all env es s of (others, s) \<Rightarrow> (done @ others, s)))"

text \<open>A step of the shared backend, with its effects performed on the spot.\<close>

definition host_do ::
  "('f, 'c) host_env \<Rightarrow> ('f BackendState \<Rightarrow> 'f step) \<Rightarrow> ('f, 'c) LocalState \<Rightarrow> ('f, 'c) host_step" where
  "host_do env f s = (case f (lo_base s) of (effects, base) \<Rightarrow> host_perform_all env effects (s\<lparr>lo_base := base\<rparr>))"

subsection \<open>Packets of a session\<close>

definition query_response :: "('f, 'c) host_env \<Rightarrow> ('f, 'c) LocalState \<Rightarrow> ServerQueryResPacket" where
  "query_response env s =
     (let teamSize = (ucast (be_lobbyTeamSize (he_base env)) :: u32)
      in \<lparr>sq_lobbyName = lo_serverName s,
          sq_format = to_string (unat teamSize) @ ''v'' @ to_string (unat teamSize),
          sq_sizeStr = to_string (unat (gb_playerCount (lo_base s))) @ ''/'' @ to_string (unat (teamSize * 2)),
          sq_isDedicated = lo_isDedicatedServer s,
          sq_matchInProgress = gb_matchInProgress (lo_base s)\<rparr>)"

definition reportPlayerPing :: "u32 \<Rightarrow> int \<Rightarrow> ('f, 'c) LocalState \<Rightarrow> ('f, 'c) LocalState" where
  "reportPlayerPing playerId pingMs s = s\<lparr>lo_pings := um_put playerId pingMs (lo_pings s)\<rparr>"

definition on_session_join ::
  "('f, 'c) host_env \<Rightarrow> nat \<Rightarrow> LobbyJoinPacket \<Rightarrow> ('f, 'c) LocalState \<Rightarrow> ('f, 'c) host_step" where
  "on_session_join env h p s =
     (if lo_isPrivateServer s \<and> lo_serverPassword s \<noteq> lj_password p
      then ([SendTo h (LobbyKick \<lparr>lk_reason = ''PASSWORD_REQUIRED''\<rparr>)], s)
      else let s = enqueue (LobbyJoin p) s;
               s = set_tag h (lj_senderId p) s
           in ([], syncVoicePeerStates env s))"

definition on_session_ping :: "nat \<Rightarrow> PingPacket \<Rightarrow> ('f, 'c) LocalState \<Rightarrow> ('f, 'c) host_step" where
  "on_session_ping h p s =
     ([SendTo h (Pong \<lparr>po_timestamp = pi_timestamp p\<rparr>)],
      (case um_find (lo_tags s) h of
         None \<Rightarrow> s
       | Some i \<Rightarrow> if i \<noteq> 0 then reportPlayerPing i (sint (pi_reportedPing p)) s else s))"

text \<open>The chat handler stamps the session's tag on the message, if it has one.\<close>

definition stamp_sender :: "u32 option \<Rightarrow> ChatMessagePacket \<Rightarrow> ChatMessagePacket" where
  "stamp_sender tag p = (case tag of None \<Rightarrow> p | Some i \<Rightarrow> p\<lparr>ch_senderId := i\<rparr>)"

text \<open>\<open>now_ms\<close> is the clock a pong is read at. A packet without a handler is dropped; the handler
  class lists \<open>NodeLeavePacket\<close> but has no handler for it.\<close>

fun on_session_packet ::
  "('f, 'c) host_env \<Rightarrow> u64 \<Rightarrow> nat \<Rightarrow> 'f game_packet \<Rightarrow> ('f, 'c) LocalState \<Rightarrow> ('f, 'c) host_step" where
  "on_session_packet env now_ms h (NodeState p) s =
     (let s = enqueue (NodeState p) s; s = set_tag h (ns_netid p) s in (broadcast (NodeState p) (Some h) s, s))"
| "on_session_packet env now_ms h (PlayerFire p) s =
     (let s = enqueue (PlayerFire p) s in (broadcast (PlayerFire p) (Some h) s, s))"
| "on_session_packet env now_ms h (PlayerHit p) s =
     (let s = enqueue (PlayerHit p) s in (broadcast (PlayerHit p) (Some h) s, s))"
| "on_session_packet env now_ms h (PlayerKilled p) s =
     (let s = enqueue (PlayerKilled p) s in (broadcast (PlayerKilled p) (Some h) s, s))"
| "on_session_packet env now_ms h ServerQueryReq s = ([SendTo h (ServerQueryRes (query_response env s))], s)"
| "on_session_packet env now_ms h (LobbyJoin p) s = on_session_join env h p s"
| "on_session_packet env now_ms h (ToggleReady p) s = ([], enqueue (ToggleReady p) s)"
| "on_session_packet env now_ms h (SwitchTeam p) s = ([], enqueue (SwitchTeam p) s)"
| "on_session_packet env now_ms h StartMatch s = ([], enqueue StartMatch s)"
| "on_session_packet env now_ms h KeepAlive s = ([], enqueue KeepAlive s)"
| "on_session_packet env now_ms h (Ping p) s = on_session_ping h p s"
| "on_session_packet env now_ms h (Pong p) s = ([], s\<lparr>lo_base := onPongReceived now_ms (po_timestamp p) (lo_base s)\<rparr>)"
| "on_session_packet env now_ms h (ChatMessage p) s =
     ([], enqueue (ChatMessage (stamp_sender (um_find (lo_tags s) h) p)) s)"
| "on_session_packet env now_ms h _ s = ([], s)"

definition handleVoiceUplinkPacket ::
  "'f fops \<Rightarrow> ('f, 'c) host_env \<Rightarrow> u64 \<Rightarrow> gTeamVoiceUplinkPacket \<Rightarrow> ('f, 'c) LocalState \<Rightarrow> ('f, 'c) LocalState" where
  "handleVoiceUplinkPacket fl env connId p s =
     s\<lparr>lo_voice := snd (handleVoicePacket fl (he_deliver env) (he_steady env) connId p (lo_voice s))\<rparr>"

subsection \<open>Sessions come and go\<close>

definition adoptSession ::
  "'f fops \<Rightarrow> ('f, 'c) host_env \<Rightarrow> nat option \<Rightarrow> ('f, 'c) LocalState \<Rightarrow> ('f, 'c) LocalState" where
  "adoptSession fl env sess s = (case sess of None \<Rightarrow> s
   | Some h \<Rightarrow>
       (let s = s\<lparr>lo_sessions := lo_sessions s @ [h]\<rparr>;
            s = s\<lparr>lo_voice := snd (addPeer_session fl (he_steady env) (he_isAlive env) (he_isZdt env) (he_sid env)
                  SessionVoice (Some h) (lo_voice s))\<rparr>
        in syncVoicePeerStates env s))"

definition onPeerDisconnected ::
  "('f, 'c) host_env \<Rightarrow> nat \<Rightarrow> ('f, 'c) LocalState \<Rightarrow> ('f, 'c) host_step" where
  "onPeerDisconnected env h s =
     (let leavingid = (case um_find (lo_tags s) h of None \<Rightarrow> 0 | Some i \<Rightarrow> i);
          s = s\<lparr>lo_voice := removePeer (he_sid env h) (lo_voice s)\<rparr>;
          s = s\<lparr>lo_sessions := filter (\<lambda>h'. h' \<noteq> h) (lo_sessions s)\<rparr>
      in if leavingid \<noteq> 0
         then let s = enqueue (NodeLeave \<lparr>nl_netid = leavingid\<rparr>) s
              in (broadcast (NodeLeave \<lparr>nl_netid = leavingid\<rparr>) None s, s)
         else ([], s))"

text \<open>\<open>remove_if\<close> and \<open>erase\<close> drop every player with the id.\<close>

definition kickPlayer :: "('f, 'c) host_env \<Rightarrow> u32 \<Rightarrow> ('f, 'c) LocalState \<Rightarrow> ('f, 'c) host_step" where
  "kickPlayer env playerId s =
     (let told = sendToPlayer playerId (LobbyKick \<lparr>lk_reason = []\<rparr>) s;
          players = gb_roomPlayers (lo_base s);
          kept = filter (\<lambda>rp. rp_id rp \<noteq> playerId) players
      in if kept \<noteq> players
         then (case host_do env (\<lambda>b. let b = publishPlayerCount (b\<lparr>gb_roomPlayers := kept\<rparr>) in ([broadcast_lobby b], b)) s of
             (sent, s) \<Rightarrow> (told @ sent, s))
         else (told, s))"

subsection \<open>The host's frame\<close>

fun host_receive_all ::
  "'f fops \<Rightarrow> ('f, 'c) host_env \<Rightarrow> ('f game_packet \<times> 'f) list \<Rightarrow> ('f, 'c) LocalState \<Rightarrow> ('f, 'c) host_step" where
  "host_receive_all fl env [] s = ([], s)"
| "host_receive_all fl env ((packet, now) # batch) s =
     (case host_do env (onPacketReceived fl (he_base env) now packet) s of (sent, s) \<Rightarrow>
       (case host_receive_all fl env batch s of (others, s) \<Rightarrow> (sent @ others, s)))"

fun host_run_tasks :: "('f, 'c) host_env \<Rightarrow> backend_task list \<Rightarrow> ('f, 'c) LocalState \<Rightarrow> ('f, 'c) host_step" where
  "host_run_tasks env [] s = ([], s)"
| "host_run_tasks env (task # tasks) s =
     (case host_do env (run_task task) s of (sent, s) \<Rightarrow>
       (case host_run_tasks env tasks s of (others, s) \<Rightarrow> (sent @ others, s)))"

text \<open>\<open>GameBackend::update\<close> with the host's virtual operations.\<close>

definition host_base_update ::
  "'f fops \<Rightarrow> ('f, 'c) host_env \<Rightarrow> (nat \<Rightarrow> 'f) \<Rightarrow> u64 \<Rightarrow> 'f \<Rightarrow> ('f, 'c) LocalState \<Rightarrow> ('f, 'c) host_step" where
  "host_base_update fl env clock now_ms deltaTime s =
     (let batch = gb_packetQueue (lo_base s); tasks = gb_tasks (lo_base s);
          s = s\<lparr>lo_base := (lo_base s)\<lparr>gb_packetQueue := [], gb_tasks := []\<rparr>\<rparr>;
          (received, s) = host_receive_all fl env (zip batch (map clock [0..<length batch])) s;
          (run, s) = host_run_tasks env tasks s;
          (sent, s) = host_do env (frame_tail fl (he_base env) now_ms deltaTime) s
      in (received @ run @ sent, s))"

text \<open>The sweep over dead sessions: it clears the tag of each and collects it.\<close>

fun sweep_tags :: "(nat \<Rightarrow> bool) \<Rightarrow> nat list \<Rightarrow> (nat, u32) umap \<Rightarrow> u32 list \<times> (nat, u32) umap" where
  "sweep_tags alive [] tags = ([], tags)"
| "sweep_tags alive (h # hs) tags =
     (if alive h then sweep_tags alive hs tags
      else case um_find tags h of
          None \<Rightarrow> sweep_tags alive hs tags
        | Some i \<Rightarrow> if i = 0 then sweep_tags alive hs tags
            else (case sweep_tags alive hs (um_put h 0 tags) of (deadIds, tags) \<Rightarrow> (i # deadIds, tags)))"

fun announce_leaves :: "u32 list \<Rightarrow> ('f, 'c) LocalState \<Rightarrow> ('f, 'c) host_step" where
  "announce_leaves [] s = ([], s)"
| "announce_leaves (i # deadIds) s =
     (let s = enqueue (NodeLeave \<lparr>nl_netid = i\<rparr>) s
      in case announce_leaves deadIds s of (others, s') \<Rightarrow>
        (broadcast (NodeLeave \<lparr>nl_netid = i\<rparr>) None s @ others, s'))"

definition sweep_dead :: "('f, 'c) host_env \<Rightarrow> ('f, 'c) LocalState \<Rightarrow> ('f, 'c) host_step" where
  "sweep_dead env s = (case sweep_tags (he_isAlive env) (lo_sessions s) (lo_tags s) of (deadIds, tags) \<Rightarrow>
     announce_leaves deadIds (s\<lparr>lo_tags := tags, lo_sessions := filter (he_isAlive env) (lo_sessions s)\<rparr>))"

definition broadcastPingSnapshot :: "('f, 'c) LocalState \<Rightarrow> ('f, 'c) host_effect list" where
  "broadcastPingSnapshot s = broadcast (PlayerPingSnapshot \<lparr>pp_playerIds = map fst (lo_pings s),
     pp_playerPings = map (\<lambda>(i, ping). word_of_int ping) (lo_pings s)\<rparr>) None s"

definition ping_tick :: "'f fops \<Rightarrow> 'f \<Rightarrow> ('f, 'c) LocalState \<Rightarrow> ('f, 'c) host_step" where
  "ping_tick fl deltaTime s =
     (let s = s\<lparr>lo_pingSnapshotTimer := fadd fl (lo_pingSnapshotTimer s) deltaTime\<rparr> in
      if fle fl (flit fl 1) (lo_pingSnapshotTimer s)
      then let s = s\<lparr>lo_pingSnapshotTimer := flit fl 0\<rparr> in (broadcastPingSnapshot s, s)
      else ([], s))"

definition advertisedPort :: "('f, 'c) LocalState \<Rightarrow> u16" where
  "advertisedPort s = (if lo_isDedicatedServer s \<and> \<not> lo_useP2P s then lo_port s else lo_port s + 2)"

definition advertisedAddress :: "('f, 'c) LocalState \<Rightarrow> string" where
  "advertisedAddress s = lo_publicIp s @ '':'' @ to_string (unat (advertisedPort s))"

text \<open>The local candidates join the gathered ones unless their address is there already.\<close>

fun add_candidates :: "('c list \<Rightarrow> 'c \<Rightarrow> bool) \<Rightarrow> 'c list \<Rightarrow> 'c list \<Rightarrow> 'c list" where
  "add_candidates contains [] cs = cs"
| "add_candidates contains (l # locals) cs =
     add_candidates contains locals (if contains cs l then cs else cs @ [l])"

definition makeRegisterPacket :: "('f, 'c) host_env \<Rightarrow> ('f, 'c) LocalState \<Rightarrow> 'c MasterRegister" where
  "makeRegisterPacket env s = \<lparr>mi_ip = advertisedAddress s, mi_name = lo_serverName s,
     mi_currentPlayers = gb_playerCount (lo_base s),
     mi_maxPlayers = word_of_nat (unat (be_lobbyTeamSize (he_base env)) * 2),
     mi_matchState = (if gb_matchInProgress (lo_base s) then 1 else 0),
     mi_isPrivate = lo_isPrivateServer s, mi_hasPassword = (lo_serverPassword s \<noteq> []),
     mi_isDedicated = lo_isDedicatedServer s, mi_useP2P = lo_useP2P s,
     mi_candidates = add_candidates (he_containsAddress env) (he_localCandidates env (advertisedPort s))
       (lo_gatheredCandidates s)\<rparr>"

definition heartbeat_tick ::
  "'f fops \<Rightarrow> ('f, 'c) host_env \<Rightarrow> 'f \<Rightarrow> ('f, 'c) LocalState \<Rightarrow> ('f, 'c) host_step" where
  "heartbeat_tick fl env deltaTime s =
     (let s = s\<lparr>lo_masterHeartbeatTimer := fadd fl (lo_masterHeartbeatTimer s) deltaTime\<rparr> in
      if fle fl (flit fl 10) (lo_masterHeartbeatTimer s)
      then let s = s\<lparr>lo_masterHeartbeatTimer := flit fl 0\<rparr> in
        (if lo_isConnectedToMaster s \<and> he_masterSession env
         then [ToMaster (MHeartbeat \<lparr>mh_ip = advertisedAddress s\<rparr>), ToMaster (MRegister (makeRegisterPacket env s))]
         else [], s)
      else ([], s))"

text \<open>\<open>uplinks\<close> are the packets the host's own voice client hands over in this frame.\<close>

definition host_update ::
  "'f fops \<Rightarrow> ('f, 'c) host_env \<Rightarrow> (nat \<Rightarrow> 'f) \<Rightarrow> u64 \<Rightarrow> gTeamVoiceUplinkPacket list \<Rightarrow> 'f
     \<Rightarrow> ('f, 'c) LocalState \<Rightarrow> ('f, 'c) host_step" where
  "host_update fl env clock now_ms uplinks deltaTime s =
     (let (framed, s) = host_base_update fl env clock now_ms deltaTime s;
          (left, s) = sweep_dead env s;
          (pings, s) = ping_tick fl deltaTime s;
          s = (if lo_isDedicatedServer s then s
            else fold (handleVoiceUplinkPacket fl env LOCAL_HOST_VOICE_CONN_ID) uplinks s);
          (beats, s) = heartbeat_tick fl env deltaTime s
      in (framed @ left @ pings @ beats, s))"

subsection \<open>Start, master link and voice switches\<close>

text \<open>The servers' sockets and the voice devices are not modelled; the router gets the host's own peer.\<close>

definition host_start :: "'f fops \<Rightarrow> ('f, 'c) host_env \<Rightarrow> ('f, 'c) LocalState \<Rightarrow> ('f, 'c) LocalState" where
  "host_start fl env s =
     (let s = (if lo_isDedicatedServer s then s
        else let s = s\<lparr>lo_voice := snd (addPeer fl (he_steady env) LOCAL_HOST_VOICE_CONN_ID (Some HostVoice) (lo_voice s))\<rparr>
             in syncVoicePeerStates env s)
      in s\<lparr>lo_base := notifyConnected (lo_base s)\<rparr>)"

definition registerWithMasterServer ::
  "string \<Rightarrow> bool \<Rightarrow> string \<Rightarrow> string \<Rightarrow> bool \<Rightarrow> ('f, 'c) LocalState \<Rightarrow> ('f, 'c) LocalState" where
  "registerWithMasterServer name isPrivate password pubIp useP2P s =
     s\<lparr>lo_serverName := name, lo_isPrivateServer := isPrivate, lo_serverPassword := password,
       lo_publicIp := pubIp, lo_useP2P := useP2P\<rparr>"

definition on_master_connected :: "('f, 'c) host_env \<Rightarrow> ('f, 'c) LocalState \<Rightarrow> ('f, 'c) host_step" where
  "on_master_connected env s =
     (let s = s\<lparr>lo_isConnectedToMaster := True\<rparr> in ([ToMaster (MRegister (makeRegisterPacket env s))], s))"

definition on_master_disconnected :: "('f, 'c) LocalState \<Rightarrow> ('f, 'c) LocalState" where
  "on_master_disconnected s = s\<lparr>lo_isConnectedToMaster := False\<rparr>"

definition on_master_registered :: "MasterRegisterRes \<Rightarrow> ('f, 'c) LocalState \<Rightarrow> ('f, 'c) LocalState" where
  "on_master_registered p s =
     (let s = s\<lparr>lo_assignedRoomCode := ms_roomCode p\<rparr>
      in s\<lparr>lo_base := runOnMainThread (TaskRoomCode (ms_roomCode p)) (lo_base s)\<rparr>)"

definition on_gathered :: "('f, 'c) host_env \<Rightarrow> 'c list \<Rightarrow> ('f, 'c) LocalState \<Rightarrow> ('f, 'c) host_step" where
  "on_gathered env candidates s =
     (let s = s\<lparr>lo_gatheredCandidates := candidates\<rparr>
      in (if lo_isConnectedToMaster s \<and> he_masterSession env
          then [ToMaster (MRegister (makeRegisterPacket env s))] else [], s))"

text \<open>The candidates a punch is tried with. znet's addresses are a parameter: the address of a
  candidate, whether it is unspecified, the same port at the master, whether it is valid.\<close>

definition punch_candidates ::
  "('c \<Rightarrow> 'a option) \<Rightarrow> ('c \<Rightarrow> 'a option \<Rightarrow> 'c) \<Rightarrow> ('a \<Rightarrow> bool) \<Rightarrow> ('a \<Rightarrow> 'a option) \<Rightarrow> ('a \<Rightarrow> bool) \<Rightarrow> 'c list \<Rightarrow> 'c list" where
  "punch_candidates address with_address isUnspecified fromMaster isValid cs =
     (let atMaster = (\<lambda>a. case a of None \<Rightarrow> None | Some x \<Rightarrow> if \<not> isUnspecified x then Some x else fromMaster x)
      in filter (\<lambda>c. case address c of None \<Rightarrow> False | Some x \<Rightarrow> isValid x)
           (map (\<lambda>c. with_address c (atMaster (address c))) cs))"

definition onPunchResolved ::
  "'f fops \<Rightarrow> ('f, 'c) host_env \<Rightarrow> bool \<Rightarrow> nat option \<Rightarrow> ('f, 'c) LocalState \<Rightarrow> ('f, 'c) LocalState" where
  "onPunchResolved fl env success sess s = (if \<not> success \<or> sess = None then s else adoptSession fl env sess s)"

definition host_setHearEnemiesVoice :: "bool \<Rightarrow> ('f, 'c) LocalState \<Rightarrow> ('f, 'c) LocalState" where
  "host_setHearEnemiesVoice hear s = s\<lparr>lo_voice := setHearEnemiesVoice hear (lo_voice s)\<rparr>"

definition host_canHearEnemiesVoice :: "('f, 'c) LocalState \<Rightarrow> bool" where
  "host_canHearEnemiesVoice s = canHearEnemiesVoice (lo_voice s)"

definition host_shutdownVoice :: "('f, 'c) LocalState \<Rightarrow> ('f, 'c) LocalState" where
  "host_shutdownVoice s = s\<lparr>lo_voice := voice_reset (lo_voice s)\<rparr>"

text \<open>A dedicated server: the constructor of \<open>GameBackendServer\<close>.\<close>

definition server_state :: "'f fops \<Rightarrow> u64 \<Rightarrow> u16 \<Rightarrow> string \<Rightarrow> string \<Rightarrow> bool \<Rightarrow> ('f, 'c) LocalState" where
  "server_state fl seq port serverName publicIp useP2P = (local_state fl seq port)\<lparr>lo_serverName := serverName,
     lo_publicIp := publicIp, lo_isDedicatedServer := True, lo_useP2P := useP2P\<rparr>"

definition server_start :: "'f fops \<Rightarrow> ('f, 'c) host_env \<Rightarrow> ('f, 'c) LocalState \<Rightarrow> ('f, 'c) LocalState" where
  "server_start fl env s =
     registerWithMasterServer (lo_serverName s) False [] (lo_publicIp s) (lo_useP2P s) (host_start fl env s)"

end
