(* ===== verification/HostInvariants.thy ===== *)
theory HostInvariants
  imports GameBackendLocal
begin

section \<open>Properties of the host\<close>

text \<open>
  What the host's operations keep and promise: its frame is the shared backend's frame with the
  virtual operations done; its lobby, packet queue and voice router stay consistent however the
  operations interleave; chat reaches the players it is meant for; a player who leaves or is kicked
  is out of the lobby; the router's voice states follow the lobby.
\<close>

subsection \<open>What performing an effect changes\<close>

definition voice_only :: "('f, 'c) LocalState \<Rightarrow> ('f, 'c) LocalState \<Rightarrow> bool" where
  "voice_only s s' \<longleftrightarrow> s' = s\<lparr>lo_voice := lo_voice s'\<rparr>"

lemma voice_only_refl [simp]: "voice_only s s"
  by (simp add: voice_only_def)

lemma voice_only_trans: "voice_only s s' \<Longrightarrow> voice_only s' s'' \<Longrightarrow> voice_only s s''"
  by (simp add: voice_only_def) (metis LocalState.surjective LocalState.update_convs(9))

lemma voice_only_fields:
  "voice_only s s' \<Longrightarrow> lo_base s' = lo_base s \<and> lo_sessions s' = lo_sessions s \<and> lo_tags s' = lo_tags s \<and>
    lo_voiceSessionId s' = lo_voiceSessionId s \<and> lo_isDedicatedServer s' = lo_isDedicatedServer s \<and>
    lo_assignedRoomCode s' = lo_assignedRoomCode s \<and> lo_pings s' = lo_pings s \<and>
    lo_isPrivateServer s' = lo_isPrivateServer s"
  unfolding voice_only_def by (metis LocalState.ext_inject LocalState.surjective LocalState.update_convs(9))

lemma set_peer_voice_only [simp]: "voice_only s (set_peer env c st s)"
  by (simp add: voice_only_def set_peer_def)

lemma sync_session_voice_only [simp]: "voice_only s (sync_session env h s)"
  by (simp add: sync_session_def split: prod.split)

lemma fold_sync_voice_only [simp]: "voice_only s (fold (sync_session env) hs s)"
  by (induction hs arbitrary: s) (simp, metis fold_simps(2) voice_only_trans sync_session_voice_only)

lemma sync_voice_only [simp]: "voice_only s (syncVoicePeerStates env s)"
  unfolding syncVoicePeerStates_def Let_def
  by (auto intro: voice_only_trans [OF set_peer_voice_only fold_sync_voice_only])

lemma perform_voice_only [simp]: "voice_only s (snd (host_perform env e s))"
  by (cases e) (simp_all add: broadcastLobbyState_def Let_def)

lemma perform_all_voice_only [simp]: "voice_only s (snd (host_perform_all env es s))"
proof (induction es arbitrary: s)
  case (Cons e es)
  show ?case using voice_only_trans [OF perform_voice_only Cons] by (simp add: split_beta)
qed simp

lemmas sync_fields = sync_voice_only [THEN voice_only_fields]
lemmas perform_all_fields = perform_all_voice_only [THEN voice_only_fields]

lemma sync_frame [simp]:
  "lo_base (syncVoicePeerStates env s) = lo_base s" "lo_sessions (syncVoicePeerStates env s) = lo_sessions s"
  "lo_tags (syncVoicePeerStates env s) = lo_tags s"
  "lo_isPrivateServer (syncVoicePeerStates env s) = lo_isPrivateServer s"
  using sync_fields [where s = s and env = env] by auto

lemma host_do_base [simp]:
  "lo_base (snd (host_do env f s)) = snd (f (lo_base s))"
  "lo_sessions (snd (host_do env f s)) = lo_sessions s" "lo_tags (snd (host_do env f s)) = lo_tags s"
  "lo_isDedicatedServer (snd (host_do env f s)) = lo_isDedicatedServer s"
  "lo_assignedRoomCode (snd (host_do env f s)) = lo_assignedRoomCode s"
  using perform_all_fields [where s = "s\<lparr>lo_base := snd (f (lo_base s))\<rparr>" and env = env and es = "fst (f (lo_base s))"]
  by (simp_all add: host_do_def split_beta)

subsection \<open>The host's frame refines the backend's\<close>

text \<open>What the game sees of an effect: a lobby broadcast is shown to the host's own game, the other
  virtual operations are not.\<close>

fun shown :: "string \<Rightarrow> bool \<Rightarrow> 'f backend_effect \<Rightarrow> 'f backend_effect list" where
  "shown code dedicated (SendPacket p) = []"
| "shown code dedicated (BroadcastEvent p) = []"
| "shown code dedicated (RelayChat p) = []"
| "shown code dedicated (BroadcastState i pos yaw team anim) = []"
| "shown code dedicated (BroadcastLobby players inProgress) =
     [OnLobbyStateUpdated \<lparr>ls_isGlobalServer = dedicated, ls_matchInProgress = inProgress, ls_roomCode = code,
        ls_playerIds = map rp_id players, ls_playerNames = map rp_name players, ls_playerTeams = map rp_team players,
        ls_playerReadys = map (\<lambda>rp. if rp_isReady rp then 1 else 0) players\<rparr>]"
| "shown code dedicated e = [e]"

fun callback_of :: "('f, 'c) host_effect \<Rightarrow> 'f backend_effect list" where
  "callback_of (Callback e) = [e]" | "callback_of _ = []"

definition callbacks :: "('f, 'c) host_effect list \<Rightarrow> 'f backend_effect list" where
  "callbacks effects = concat (map callback_of effects)"

lemma callbacks_simps [simp]:
  "callbacks [] = []" "callbacks (xs @ ys) = callbacks xs @ callbacks ys"
  "callbacks (e # es) = callback_of e @ callbacks es" "callbacks (broadcast p x s) = []"
  by (simp_all add: callbacks_def broadcast_def comp_def)

lemma callbacks_sendToPlayer [simp]: "callbacks (sendToPlayer i p s) = []"
  by (simp add: sendToPlayer_def split: option.split)

lemma callbacks_concat: "(\<And>x. x \<in> set xs \<Longrightarrow> callbacks (f x) = []) \<Longrightarrow> callbacks (concat (map f xs)) = []"
  by (induction xs) simp_all

lemma relayChat_sends [simp]: "callbacks (relayChat p s) = []"
  by (simp add: relayChat_def callbacks_concat split: option.split)

lemma perform_shown:
  "callbacks (fst (host_perform env e s)) = shown (lo_assignedRoomCode s) (lo_isDedicatedServer s) e"
  by (cases e) (simp_all add: relayChat_sends broadcastLobbyState_def lobby_packet_def broadcastState_def Let_def split: prod.split)

lemma perform_all_shown:
  "callbacks (fst (host_perform_all env es s)) = concat (map (shown (lo_assignedRoomCode s) (lo_isDedicatedServer s)) es)"
proof (induction es arbitrary: s)
  case (Cons e es)
  have "lo_assignedRoomCode (snd (host_perform env e s)) = lo_assignedRoomCode s \<and>
      lo_isDedicatedServer (snd (host_perform env e s)) = lo_isDedicatedServer s"
    using voice_only_fields [OF perform_voice_only [of s env e]] by simp
  then show ?case using Cons by (simp add: split_beta perform_shown)
qed simp

lemma host_do_shown [simp]:
  "callbacks (fst (host_do env f s)) = concat (map (shown (lo_assignedRoomCode s) (lo_isDedicatedServer s)) (fst (f (lo_base s))))"
  by (simp add: host_do_def split_beta perform_all_shown)

text \<open>A run of the host that does a step of the backend.\<close>

definition does :: "('f, 'c) LocalState \<Rightarrow> ('f, 'c) host_step \<Rightarrow> 'f step \<Rightarrow> bool" where
  "does s r b \<longleftrightarrow> lo_base (snd r) = snd b \<and> lo_sessions (snd r) = lo_sessions s \<and> lo_tags (snd r) = lo_tags s \<and>
     lo_isDedicatedServer (snd r) = lo_isDedicatedServer s \<and> lo_assignedRoomCode (snd r) = lo_assignedRoomCode s \<and>
     callbacks (fst r) = concat (map (shown (lo_assignedRoomCode s) (lo_isDedicatedServer s)) (fst b))"

lemma does_host_do: "does s (host_do env f s) (f (lo_base s))"
  by (simp add: does_def)

lemma does_bind:
  assumes "does s r b" "\<And>s1. lo_base s1 = snd b \<Longrightarrow> does s1 (g s1) (g' (snd b))"
  shows "does s (case r of (x, s1) \<Rightarrow> (case g s1 of (y, s2) \<Rightarrow> (x @ y, s2)))
    (case b of (x, s1) \<Rightarrow> (case g' s1 of (y, s2) \<Rightarrow> (x @ y, s2)))"
  using assms(1) assms(2) [of "snd r"] by (simp add: does_def split_beta)

lemma does_receive_all: "does s (host_receive_all fl env batch s) (receive_all fl (he_base env) batch (lo_base s))"
proof (induction batch arbitrary: s)
  case (Cons b batch)
  obtain packet now where b: "b = (packet, now)" by (cases b)
  show ?case
    unfolding b host_receive_all.simps receive_all.simps
    by (rule does_bind, rule does_host_do, drule sym, simp add: Cons)
qed (simp add: does_def)

lemma does_run_tasks: "does s (host_run_tasks env tasks s) (run_tasks tasks (lo_base s))"
proof (induction tasks arbitrary: s)
  case (Cons task tasks)
  show ?case
    unfolding host_run_tasks.simps run_tasks.simps
    by (rule does_bind, rule does_host_do, drule sym, simp add: Cons)
qed (simp add: does_def)

lemma does_update: "does s (host_base_update fl env clock ms dt s) (backend_update fl (he_base env) clock ms dt (lo_base s))"
proof -
  let ?s0 = "s\<lparr>lo_base := (lo_base s)\<lparr>gb_packetQueue := [], gb_tasks := []\<rparr>\<rparr>"
  let ?batch = "zip (gb_packetQueue (lo_base s)) (map clock [0..<length (gb_packetQueue (lo_base s))])"
  obtain e1 s1 where 1: "host_receive_all fl env ?batch ?s0 = (e1, s1)" by fastforce
  obtain e2 s2 where 2: "host_run_tasks env (gb_tasks (lo_base s)) s1 = (e2, s2)" by fastforce
  obtain e3 s3 where 3: "host_do env (frame_tail fl (he_base env) ms dt) s2 = (e3, s3)" by fastforce
  have "does ?s0 (e1, s1) (receive_all fl (he_base env) ?batch (lo_base ?s0))"
    using does_receive_all [where s = ?s0 and fl = fl and env = env and batch = ?batch] unfolding 1 .
  moreover have "does s1 (e2, s2) (run_tasks (gb_tasks (lo_base s)) (lo_base s1))"
    using does_run_tasks [where s = s1 and env = env and tasks = "gb_tasks (lo_base s)"] unfolding 2 .
  moreover have "does s2 (e3, s3) (frame_tail fl (he_base env) ms dt (lo_base s2))"
    using does_host_do [where s = s2 and env = env and f = "frame_tail fl (he_base env) ms dt"] unfolding 3 .
  moreover have "host_base_update fl env clock ms dt s = (e1 @ e2 @ e3, s3)"
    by (simp add: host_base_update_def Let_def 1 2 3)
  ultimately show ?thesis
    by (simp add: does_def backend_update_def drain_queues_def Let_def split_beta)
qed

text \<open>The host's frame is the shared backend's frame with the virtual operations done where they are
  called: it leaves the backend state the shared code would leave, the game sees the same callbacks in
  the same order, each lobby broadcast also shown to the host's own game, and no session is touched.\<close>

theorem host_frame_refines:
  "lo_base (snd (host_base_update fl env clock ms dt s)) = snd (backend_update fl (he_base env) clock ms dt (lo_base s)) \<and>
   callbacks (fst (host_base_update fl env clock ms dt s)) =
     concat (map (shown (lo_assignedRoomCode s) (lo_isDedicatedServer s))
       (fst (backend_update fl (he_base env) clock ms dt (lo_base s)))) \<and>
   lo_sessions (snd (host_base_update fl env clock ms dt s)) = lo_sessions s \<and>
   lo_tags (snd (host_base_update fl env clock ms dt s)) = lo_tags s"
  using does_update [of s fl env clock ms dt] by (simp add: does_def)

subsection \<open>The invariant of the host\<close>

lemma lobby_inv_env:
  "be_lobbyTeamSize env = be_lobbyTeamSize env' \<Longrightarrow> lobby_inv env s = lobby_inv env' s"
  by (simp add: lobby_inv_def)

lemma voice_inv_setPeerState [inv_intros]:
  assumes "voice_inv v" shows "voice_inv (snd (setPeerState deliver now c st v))"
proof -
  have clear: "voice_inv (snd (clearPeerState deliver c v))"
    using assms voice_inv_clearPublish [OF assms, of c]
    by (auto simp: clearPeerState_def split: option.splits sum.splits prod.splits intro!: inv_intros) (metis snd_conv)+
  show ?thesis
  proof (cases "isValidPeerState st")
    case True
    with assms voice_inv_setPublish [OF assms True, of now c] show ?thesis
      by (auto simp: setPeerState_def split: option.splits sum.splits prod.splits intro!: inv_intros) (metis snd_conv)+
  qed (use clear in \<open>simp add: setPeerState_def\<close>)
qed

lemma sync_voice_inv [inv_intros]:
  assumes "voice_inv (lo_voice s)" shows "voice_inv (lo_voice (syncVoicePeerStates env s))"
proof -
  have peer: "voice_inv (lo_voice (set_peer env c st s))" if "voice_inv (lo_voice s)" for s :: "('a, 'b) LocalState" and c st
    using that by (simp add: set_peer_def inv_intros)
  have "voice_inv (lo_voice (sync_session env h s))" if "voice_inv (lo_voice s)" for s :: "('a, 'b) LocalState" and h
    using that by (simp add: sync_session_def peer split: prod.split)
  then have "voice_inv (lo_voice (fold (sync_session env) hs s))" if "voice_inv (lo_voice s)" for s :: "('a, 'b) LocalState" and hs
    using that by (induction hs arbitrary: s) auto
  with assms peer show ?thesis by (simp add: syncVoicePeerStates_def Let_def)
qed

lemma perform_voice_inv:
  "voice_inv (lo_voice s) \<Longrightarrow> voice_inv (lo_voice (snd (host_perform env e s)))"
  by (cases e) (simp_all add: broadcastLobbyState_def Let_def inv_intros)

lemma perform_all_voice_inv:
  "voice_inv (lo_voice s) \<Longrightarrow> voice_inv (lo_voice (snd (host_perform_all env es s)))"
  by (induction es arbitrary: s) (simp_all add: split_beta perform_voice_inv)

lemma host_do_voice_inv:
  "voice_inv (lo_voice s) \<Longrightarrow> voice_inv (lo_voice (snd (host_do env f s)))"
  by (simp add: host_do_def split_beta perform_all_voice_inv)

lemma host_base_update_voice_inv:
  assumes "voice_inv (lo_voice s)" shows "voice_inv (lo_voice (snd (host_base_update fl env clock ms dt s)))"
proof -
  have 1: "voice_inv (lo_voice (snd (host_receive_all fl env batch s)))" if "voice_inv (lo_voice s)" for batch and s :: "('a, 'b) LocalState"
    using that by (induction batch arbitrary: s) (auto simp: split_beta host_do_voice_inv)
  have 2: "voice_inv (lo_voice (snd (host_run_tasks env tasks s)))" if "voice_inv (lo_voice s)" for tasks and s :: "('a, 'b) LocalState"
    using that by (induction tasks arbitrary: s) (auto simp: split_beta host_do_voice_inv)
  show ?thesis
    using assms by (simp add: host_base_update_def Let_def split_beta 1 2 host_do_voice_inv)
qed

text \<open>Nothing the backend does puts a packet into its own queue.\<close>

lemma handlers_queue:
  "gb_packetQueue (snd (on_leave a s)) = gb_packetQueue s" "gb_packetQueue (snd (on_node_state env b s)) = gb_packetQueue s"
  "gb_packetQueue (snd (on_chat fl env now c s)) = gb_packetQueue s" "gb_packetQueue (snd (on_lobby_join env d s)) = gb_packetQueue s"
  "gb_packetQueue (snd (on_start_match env s)) = gb_packetQueue s"
  by (auto simp: on_leave_def on_node_state_def on_chat_def host_route_chat_def allowChatRate_def on_lobby_join_def
      on_start_match_def publishPlayerCount_def Let_def split: option.splits bool.splits prod.splits)

lemma receive_queue: "gb_packetQueue (snd (onPacketReceived fl env now packet s)) = gb_packetQueue s"
  by (cases packet) (simp_all add: onPacketReceived_def handlers_queue on_lobby_state_def on_toggle_ready_def
      on_switch_team_def on_ping_snapshot_def publishPlayerCount_def Let_def)

lemma receive_all_queue: "gb_packetQueue (snd (receive_all fl env batch s)) = gb_packetQueue s"
  by (induction batch arbitrary: s) (auto simp: split_beta receive_queue)

lemma run_tasks_queue: "gb_packetQueue (snd (run_tasks tasks s)) = gb_packetQueue s"
proof (induction tasks arbitrary: s)
  case (Cons task tasks)
  then show ?case by (cases task) (simp_all add: split_beta Let_def)
qed simp

lemma frame_tail_queue: "gb_packetQueue (snd (frame_tail fl env ms dt s)) = gb_packetQueue s"
  by (simp add: frame_tail_def split_beta keep_alive_def watch_connection_def send_ping_def network_tick_def ease_nodes_def Let_def)

lemma backend_update_queue [simp]: "gb_packetQueue (snd (backend_update fl env clock ms dt s)) = []"
  by (simp add: backend_update_def drain_queues_def Let_def split_beta receive_all_queue run_tasks_queue frame_tail_queue)

definition host_inv :: "u8 \<Rightarrow> ('f, 'c) LocalState \<Rightarrow> bool" where
  "host_inv teamSize s \<longleftrightarrow> (\<forall>env. be_lobbyTeamSize env = teamSize \<longrightarrow> lobby_inv env (lo_base s)) \<and>
     (\<forall>packet \<in> set (gb_packetQueue (lo_base s)). host_packet packet) \<and> voice_inv (lo_voice s)"

lemma host_invI:
  assumes "be_lobbyTeamSize env = teamSize" "lobby_inv env (lo_base s)"
    "\<forall>packet \<in> set (gb_packetQueue (lo_base s)). host_packet packet" "voice_inv (lo_voice s)"
  shows "host_inv teamSize s"
  using assms lobby_inv_env by (auto simp: host_inv_def)

text \<open>Operations that leave the lobby as it is and queue only what a host may handle.\<close>

lemma host_inv_keeps:
  assumes "host_inv T s" "gb_roomPlayers (lo_base s') = gb_roomPlayers (lo_base s)"
    "gb_playerCount (lo_base s') = gb_playerCount (lo_base s)"
    "set (gb_packetQueue (lo_base s')) \<subseteq> set (gb_packetQueue (lo_base s)) \<union> {p. host_packet p}" "voice_inv (lo_voice s')"
  shows "host_inv T s'"
  using assms lobby_inv_cong [OF assms(2,3)] by (auto simp: host_inv_def)

lemma host_inv_voice: "host_inv T s \<Longrightarrow> voice_inv (lo_voice s)"
  by (simp add: host_inv_def)

lemma enqueue_simps [simp]:
  "gb_roomPlayers (lo_base (enqueue p s)) = gb_roomPlayers (lo_base s)" "gb_playerCount (lo_base (enqueue p s)) = gb_playerCount (lo_base s)"
  "gb_packetQueue (lo_base (enqueue p s)) = gb_packetQueue (lo_base s) @ [p]" "lo_voice (enqueue p s) = lo_voice s"
  "lo_tags (enqueue p s) = lo_tags s" "lo_sessions (enqueue p s) = lo_sessions s"
  "lo_base (set_tag h i s) = lo_base s" "lo_voice (set_tag h i s) = lo_voice s" "lo_sessions (set_tag h i s) = lo_sessions s"
  "lo_tags (set_tag h i s) = um_put h i (lo_tags s)"
  by (simp_all add: enqueue_def enqueuePacket_def set_tag_def)

lemma session_packet_inv [inv_intros]:
  assumes "host_inv T s" shows "host_inv T (snd (on_session_packet env ms h packet s))"
proof (rule host_inv_keeps [OF assms])
  note ops = on_session_join_def on_session_ping_def reportPlayerPing_def onPongReceived_def Let_def
  show "gb_roomPlayers (lo_base (snd (on_session_packet env ms h packet s))) = gb_roomPlayers (lo_base s)"
    by (cases packet) (auto simp: ops split: option.splits)
  show "gb_playerCount (lo_base (snd (on_session_packet env ms h packet s))) = gb_playerCount (lo_base s)"
    by (cases packet) (auto simp: ops split: option.splits)
  show "set (gb_packetQueue (lo_base (snd (on_session_packet env ms h packet s)))) \<subseteq>
      set (gb_packetQueue (lo_base s)) \<union> {p. host_packet p}"
    by (cases packet) (auto simp: ops split: option.splits)
  show "voice_inv (lo_voice (snd (on_session_packet env ms h packet s)))"
    using host_inv_voice [OF assms] by (cases packet) (auto simp: ops intro!: inv_intros split: option.splits)
qed

lemma host_inv_base_update [inv_intros]:
  assumes "host_inv (be_lobbyTeamSize (he_base env)) s"
  shows "host_inv (be_lobbyTeamSize (he_base env)) (snd (host_base_update fl env clock ms dt s))"
proof (rule host_invI [OF refl])
  have b: "lo_base (snd (host_base_update fl env clock ms dt s)) = snd (backend_update fl (he_base env) clock ms dt (lo_base s))"
    using does_update [of s fl env clock ms dt] by (simp add: does_def)
  show "lobby_inv (he_base env) (lo_base (snd (host_base_update fl env clock ms dt s)))"
    unfolding b using assms by (intro backend_update_inv) (auto simp: host_inv_def)
  show "\<forall>packet \<in> set (gb_packetQueue (lo_base (snd (host_base_update fl env clock ms dt s)))). host_packet packet"
    unfolding b by simp
  show "voice_inv (lo_voice (snd (host_base_update fl env clock ms dt s)))"
    using assms by (intro host_base_update_voice_inv host_inv_voice)
qed

lemma announce_frame:
  "gb_roomPlayers (lo_base (snd (announce_leaves ids s))) = gb_roomPlayers (lo_base s) \<and>
   gb_playerCount (lo_base (snd (announce_leaves ids s))) = gb_playerCount (lo_base s) \<and>
   gb_packetQueue (lo_base (snd (announce_leaves ids s))) = gb_packetQueue (lo_base s) @ map (\<lambda>i. NodeLeave \<lparr>nl_netid = i\<rparr>) ids \<and>
   lo_voice (snd (announce_leaves ids s)) = lo_voice s \<and> lo_sessions (snd (announce_leaves ids s)) = lo_sessions s \<and>
   lo_tags (snd (announce_leaves ids s)) = lo_tags s"
  by (induction ids arbitrary: s) (simp_all add: Let_def split_beta)

lemma sweep_inv [inv_intros]:
  assumes "host_inv T s" shows "host_inv T (snd (sweep_dead env s))"
proof -
  obtain ids tags where st: "sweep_tags (he_isAlive env) (lo_sessions s) (lo_tags s) = (ids, tags)" by fastforce
  show ?thesis
    using host_inv_voice [OF assms] announce_frame [of ids "s\<lparr>lo_tags := tags, lo_sessions := filter (he_isAlive env) (lo_sessions s)\<rparr>"]
    by (intro host_inv_keeps [OF assms]) (auto simp: sweep_dead_def st)
qed

lemma uplink_inv [inv_intros]:
  "host_inv T s \<Longrightarrow> host_inv T (handleVoiceUplinkPacket fl env c p s)"
  by (rule host_inv_keeps) (auto simp: handleVoiceUplinkPacket_def intro!: inv_intros host_inv_voice)

lemma uplinks_inv [inv_intros]:
  "host_inv T s \<Longrightarrow> host_inv T (fold (handleVoiceUplinkPacket fl env c) ps s)"
  by (induction ps arbitrary: s) (auto intro: inv_intros)

lemma ticks_inv [inv_intros]:
  "host_inv T s \<Longrightarrow> host_inv T (snd (ping_tick fl dt s))" "host_inv T s \<Longrightarrow> host_inv T (snd (heartbeat_tick fl env dt s))"
  by (rule host_inv_keeps; auto simp: ping_tick_def heartbeat_tick_def Let_def intro: host_inv_voice)+

lemma host_update_inv [inv_intros]:
  assumes "host_inv (be_lobbyTeamSize (he_base env)) s"
  shows "host_inv (be_lobbyTeamSize (he_base env)) (snd (host_update fl env clock ms uplinks dt s))"
  unfolding host_update_def Let_def split_beta snd_conv
  using assms by (auto intro!: inv_intros)

lemma host_inv_enqueue: "host_inv T s \<Longrightarrow> host_packet packet \<Longrightarrow> host_inv T (enqueue packet s)"
  by (rule host_inv_keeps [of T s]) (auto intro: host_inv_voice)

lemma disconnect_inv [inv_intros]:
  assumes "host_inv T s" shows "host_inv T (snd (onPeerDisconnected env h s))"
  using host_inv_voice [OF assms]
  by (intro host_inv_keeps [OF assms]) (auto simp: onPeerDisconnected_def Let_def intro!: inv_intros split: option.splits)

lemma adopt_inv [inv_intros]:
  assumes "host_inv T s" shows "host_inv T (adoptSession fl env sess s)"
proof (cases sess)
  case (Some h)
  have "voice_inv (snd (addPeer_session fl (he_steady env) (he_isAlive env) (he_isZdt env) (he_sid env) SessionVoice (Some h) (lo_voice s)))"
    using host_inv_voice [OF assms] by (simp add: addPeer_session_def inv_intros)
  with Some show ?thesis
    by (intro host_inv_keeps [OF assms]) (auto simp: adoptSession_def Let_def intro!: inv_intros)
qed (use assms in \<open>simp add: adoptSession_def\<close>)

lemma kick_inv [inv_intros]:
  assumes "host_inv T s" shows "host_inv T (snd (kickPlayer env i s))"
proof -
  let ?kept = "filter (\<lambda>rp. rp_id rp \<noteq> i) (gb_roomPlayers (lo_base s))"
  let ?b = "publishPlayerCount ((lo_base s)\<lparr>gb_roomPlayers := ?kept\<rparr>)"
  have "host_inv T s'" if b: "lo_base s' = ?b" and v: "voice_inv (lo_voice s')" for s' :: "('a, 'b) LocalState"
    using assms v distinct_map_filter [of rp_id] distinct_map_filter [of rp_name]
      order_trans [OF length_filter_le [of "\<lambda>rp. rp_id rp \<noteq> i" "gb_roomPlayers (lo_base s)"]]
    by (auto simp: host_inv_def b lobby_inv_def publishPlayerCount_def)
  then show ?thesis
    using assms host_do_voice_inv [OF host_inv_voice [OF assms]]
    by (simp add: kickPlayer_def Let_def split_beta)
qed

lemma master_inv [inv_intros]:
  assumes "host_inv T s"
  shows "host_inv T (host_start fl env s)" "host_inv T (registerWithMasterServer n p pw ip u s)"
    "host_inv T (snd (on_master_connected env s))" "host_inv T (on_master_disconnected s)"
    "host_inv T (on_master_registered r s)" "host_inv T (snd (on_gathered env cs s))"
    "host_inv T (host_setHearEnemiesVoice b s)" "host_inv T (host_shutdownVoice s)"
  using host_inv_voice [OF assms]
  by (auto intro!: host_inv_keeps [OF assms] inv_intros simp: host_start_def registerWithMasterServer_def on_master_connected_def
      on_master_disconnected_def on_master_registered_def on_gathered_def host_setHearEnemiesVoice_def host_shutdownVoice_def
      notifyConnected_def runOnMainThread_def Let_def)

text \<open>The steps of a host, in any order: network threads run the handlers and connection events, the
  master link its own, the main thread frames and calls. \<open>T\<close> is the lobby's team size.\<close>

inductive host_step_rel :: "'f fops \<Rightarrow> u8 \<Rightarrow> ('f, 'c) LocalState \<Rightarrow> ('f, 'c) LocalState \<Rightarrow> bool" for fl T where
  h_packet: "host_step_rel fl T s (snd (on_session_packet env now_ms h packet s))"
| h_uplink: "host_step_rel fl T s (handleVoiceUplinkPacket fl env c up s)"
| h_adopt: "host_step_rel fl T s (adoptSession fl env sess s)"
| h_punched: "host_step_rel fl T s (onPunchResolved fl env ok sess s)"
| h_disconnect: "host_step_rel fl T s (snd (onPeerDisconnected env h s))"
| h_kick: "host_step_rel fl T s (snd (kickPlayer env i s))"
| h_frame: "be_lobbyTeamSize (he_base env) = T \<Longrightarrow>
    host_step_rel fl T s (snd (host_update fl env clock now_ms uplinks dt s))"
| h_start: "host_step_rel fl T s (host_start fl env s)"
| h_register: "host_step_rel fl T s (registerWithMasterServer n p pw ip u s)"
| h_connected: "host_step_rel fl T s (snd (on_master_connected env s))"
| h_disconnected: "host_step_rel fl T s (on_master_disconnected s)"
| h_registered: "host_step_rel fl T s (on_master_registered r s)"
| h_gathered: "host_step_rel fl T s (snd (on_gathered env cs s))"
| h_hear: "host_step_rel fl T s (host_setHearEnemiesVoice b s)"
| h_quiet: "host_step_rel fl T s (host_shutdownVoice s)"
| h_own: "host_packet packet \<Longrightarrow> host_step_rel fl T s (enqueue packet s)"

inductive_cases host_step_relE: "host_step_rel fl T s s'"

definition host_init :: "'f fops \<Rightarrow> ('f, 'c) LocalState \<Rightarrow> bool" where
  "host_init fl s \<longleftrightarrow> (\<exists>seq port name ip p2p. s = local_state fl seq port \<or> s = server_state fl seq port name ip p2p)"

lemma host_inv_init: "host_init fl s \<Longrightarrow> host_inv T s"
  by (auto simp: host_init_def host_inv_def lobby_inv_def server_state_def local_state_def backend_state_def
      intro: voice_inv_init)

lemma host_inv_step: "host_inv T s \<Longrightarrow> host_step_rel fl T s s' \<Longrightarrow> host_inv T s'"
proof (erule host_step_relE, goal_cases)
  case (7 env clock ms ups dt)
  then show ?case using host_update_inv [of env s] by auto
next
  case (16 packet)
  then show ?case by (simp add: host_inv_enqueue)
qed (auto intro!: inv_intros simp: onPunchResolved_def)

interpretation host: step_system "host_init fl" "host_step_rel fl T" "host_inv T" for fl T
  by unfold_locales (auto intro: host_inv_init host_inv_step)

text \<open>C21. However packets, connections, punches, kicks, frames and the master's messages interleave, the
  host's lobby never lists an id or a name twice, never holds more players than two full teams, and
  the count the other threads read is its size; no packet waits in the queue that only a host may
  send; and the voice router keeps its invariant.\<close>

theorem host_invariant:
  assumes "reachable (host_init fl) (host_step_rel fl T) s"
  shows "distinct (map rp_id (gb_roomPlayers (lo_base s))) \<and> distinct (map rp_name (gb_roomPlayers (lo_base s))) \<and>
    length (gb_roomPlayers (lo_base s)) \<le> unat T * 2 \<and>
    unat (gb_playerCount (lo_base s)) = length (gb_roomPlayers (lo_base s)) \<and>
    (\<forall>packet \<in> set (gb_packetQueue (lo_base s)). host_packet packet) \<and> voice_inv (lo_voice s)"
proof -
  let ?env = "\<lparr>be_isServer = True, be_localNodeId = 0, be_lobbyTeamSize = T, be_onjoin = (\<lambda>_ n. n)\<rparr> :: 'a backend_env"
  have inv: "host_inv T s" by (rule host.inv_reachable [OF assms])
  then have l: "lobby_inv ?env (lo_base s)" by (simp add: host_inv_def)
  have "unat T < 256 ^ 1" by (rule order.strict_trans2 [OF unsigned_less]) simp
  with l have "unat (gb_playerCount (lo_base s)) = length (gb_roomPlayers (lo_base s))"
    by (simp add: lobby_inv_def unsigned_of_nat take_bit_nat_eq_self)
  with l inv show ?thesis by (simp add: host_inv_def lobby_inv_def)
qed

definition example_host_env :: "(rat, nat) host_env" where
  "example_host_env = \<lparr>he_base = example_env, he_sid = (\<lambda>h. of_nat h + 100), he_isAlive = (\<lambda>_. True), he_isZdt = (\<lambda>_. True),
     he_deliver = (\<lambda>_ _ _. True), he_steady = 0, he_loggedInUsername = ''Ann'', he_localCandidates = (\<lambda>_. []),
     he_containsAddress = (\<lambda>cs c. c \<in> set cs), he_masterSession = False\<rparr>"

definition example_host :: "(rat, nat) LocalState" where
  "example_host = snd (on_session_packet example_host_env 0 3
     (LobbyJoin \<lparr>lj_senderId = 7, lj_playerName = ''Bo'', lj_password = []\<rparr>)
     (adoptSession rat_fops example_host_env (Some 3) (local_state rat_fops 1000 25001)))"

lemma example_host_reachable: "reachable (host_init rat_fops) (host_step_rel rat_fops 2) example_host"
proof -
  let ?s0 = "local_state rat_fops 1000 25001 :: (rat, nat) LocalState"
  have "reachable (host_init rat_fops) (host_step_rel rat_fops 2) ?s0" by (rule reach_init) (auto simp: host_init_def)
  from reach_step [OF this h_adopt [where sess = "Some 3" and env = example_host_env]]
  show ?thesis unfolding example_host_def by (rule reach_step) (rule h_packet)
qed

lemma host_invariant_witness:
  "unat (gb_playerCount (lo_base example_host)) = length (gb_roomPlayers (lo_base example_host)) \<and>
   voice_inv (lo_voice example_host)"
  using host_invariant [OF example_host_reachable] by blast

subsection \<open>Chat reaches whom it is meant for\<close>

lemma session_of_Some: "session_of i s = Some h \<Longrightarrow> h \<in> set (lo_sessions s) \<and> um_find (lo_tags s) h = Some i"
  by (auto simp: session_of_def dest: find_SomeD)

lemma session_of_tagged:
  "h \<in> set (lo_sessions s) \<Longrightarrow> um_find (lo_tags s) h = Some i \<Longrightarrow> \<exists>h'. session_of i s = Some h'"
  by (cases "session_of i s") (auto simp: session_of_def find_None_iff)

text \<open>The sessions a relayed message goes to, in order.\<close>

definition chat_targets :: "ChatMessagePacket \<Rightarrow> ('f, 'c) LocalState \<Rightarrow> nat list" where
  "chat_targets p s =
     (if ch_channel p = CHAT_ALL then lo_sessions s
      else if ch_channel p = CHAT_TEAM then
        (case find_player (ch_senderId p) (gb_roomPlayers (lo_base s)) of None \<Rightarrow> []
         | Some sender \<Rightarrow> List.map_filter (\<lambda>rp. session_of (rp_id rp) s)
             (filter (\<lambda>rp. rp_team rp = rp_team sender) (gb_roomPlayers (lo_base s))))
      else if ch_channel p = CHAT_PRIVATE then
        List.map_filter (\<lambda>i. session_of i s)
          (if ch_senderId p \<noteq> ch_targetId p then [ch_targetId p, ch_senderId p] else [ch_targetId p])
      else [])"

lemma in_map_filter: "y \<in> set (List.map_filter f xs) \<longleftrightarrow> (\<exists>x \<in> set xs. f x = Some y)"
  by (induction xs) (auto simp: List.map_filter_simps split: option.splits)

lemma sendToPlayer_targets:
  "concat (map (\<lambda>x. sendToPlayer (f x) packet s) xs) = map (\<lambda>h. SendTo h packet) (List.map_filter (\<lambda>x. session_of (f x) s) xs)"
  by (induction xs) (auto simp: sendToPlayer_def List.map_filter_simps split: option.splits)

lemma relayChat_targets: "relayChat p s = map (\<lambda>h. SendTo h (ChatMessage p)) (chat_targets p s)"
  using sendToPlayer_targets [of "\<lambda>i. i" "ChatMessage p" s]
    sendToPlayer_targets [of rp_id "ChatMessage p" s]
  by (auto simp: relayChat_def chat_targets_def broadcast_def sendToPlayer_def List.map_filter_simps split: option.splits)

lemma distinct_map_filter_tags:
  assumes "distinct xs"
  shows "distinct (List.map_filter (\<lambda>i. session_of i s) xs)"
  using assms
proof (induction xs)
  case (Cons x xs)
  show ?case
  proof (cases "session_of x s")
    case (Some h)
    have "h \<notin> set (List.map_filter (\<lambda>i. session_of i s) xs)"
      using Cons.prems session_of_Some [OF Some] by (auto simp: in_map_filter dest!: session_of_Some)
    then show ?thesis using Cons Some by (simp add: List.map_filter_simps)
  qed (use Cons in \<open>simp add: List.map_filter_simps\<close>)
qed (simp add: List.map_filter_simps)

lemma chat_targets_distinct:
  assumes "distinct (lo_sessions s)" "distinct (map rp_id (gb_roomPlayers (lo_base s)))"
  shows "distinct (chat_targets p s)"
proof -
  have "distinct (List.map_filter (\<lambda>rp. session_of (rp_id rp) s) (filter P (gb_roomPlayers (lo_base s))))" for P
    using distinct_map_filter_tags [of "map rp_id (filter P (gb_roomPlayers (lo_base s)))" s] distinct_map_filter [OF assms(2)]
    by (simp add: List.map_filter_def comp_def filter_map)
  with assms(1) show ?thesis
    unfolding chat_targets_def using distinct_map_filter_tags [of "[ch_targetId p, ch_senderId p]" s]
      distinct_map_filter_tags [of "[ch_targetId p]" s]
    by (auto split: option.split)
qed

text \<open>Who may read a message: everybody, the sender's team, or the two players of a private one.\<close>

definition chat_reader :: "ChatMessagePacket \<Rightarrow> ('f, 'c) LocalState \<Rightarrow> nat \<Rightarrow> bool" where
  "chat_reader p s h \<longleftrightarrow> h \<in> set (lo_sessions s) \<and>
     (ch_channel p = CHAT_ALL \<or>
      ch_channel p = CHAT_TEAM \<and> (\<exists>rp sender. rp \<in> set (gb_roomPlayers (lo_base s)) \<and>
        find_player (ch_senderId p) (gb_roomPlayers (lo_base s)) = Some sender \<and>
        rp_team rp = rp_team sender \<and> um_find (lo_tags s) h = Some (rp_id rp)) \<or>
      ch_channel p = CHAT_PRIVATE \<and> um_find (lo_tags s) h \<in> {Some (ch_targetId p), Some (ch_senderId p)})"

lemma chat_targets_read: "h \<in> set (chat_targets p s) \<Longrightarrow> chat_reader p s h"
  by (auto simp: chat_targets_def chat_reader_def in_map_filter CHAT_ALL_def CHAT_TEAM_def CHAT_PRIVATE_def
      dest!: session_of_Some split: if_splits option.splits) metis

lemma chat_targets_all:
  assumes "chat_reader p s h"
  shows "\<exists>h' \<in> set (chat_targets p s). h' = h \<or> um_find (lo_tags s) h' = um_find (lo_tags s) h"
  using assms unfolding chat_reader_def
proof (elim conjE disjE exE, goal_cases)
  case 1
  then show ?case by (auto simp: chat_targets_def)
next
  case (2 rp sender)
  with session_of_tagged [of h s] obtain h' where h': "session_of (rp_id rp) s = Some h'" by blast
  with 2 have "h' \<in> set (chat_targets p s)"
    by (auto simp: chat_targets_def in_map_filter CHAT_ALL_def CHAT_TEAM_def)
  then show ?case using session_of_Some [OF h'] 2 by auto
next
  case 3
  then obtain i where i: "um_find (lo_tags s) h = Some i" "i = ch_targetId p \<or> i = ch_senderId p" by auto
  with 3 session_of_tagged [of h s i] obtain h' where h': "session_of i s = Some h'" by blast
  with 3 i have "h' \<in> set (chat_targets p s)"
    by (auto simp: chat_targets_def List.map_filter_simps CHAT_ALL_def CHAT_TEAM_def CHAT_PRIVATE_def split: option.splits)
  then show ?case using session_of_Some [OF h'] i by auto
qed

text \<open>C19. When the host handles a chat message, the copies it sends go only to sessions that may read it:
  any session for a message to all, sessions of the sender's teammates for a team message, sessions of
  the two players for a private one. No session gets it twice, every reader's player gets it, and
  every copy is the same, sanitized and under the sender's lobby name.\<close>

theorem chat_confidential:
  assumes "be_isServer (he_base env)" "distinct (lo_sessions s)" "distinct (map rp_id (gb_roomPlayers (lo_base s)))"
    and "host_do env (onPacketReceived fl (he_base env) now (ChatMessage p)) s = (sent, s')"
    and "sent \<noteq> []"
  shows "\<exists>q sender hs rest. sent = map (\<lambda>h. SendTo h (ChatMessage q)) hs @ rest \<and> distinct hs \<and>
    (\<forall>h \<in> set hs. chat_reader q s h) \<and>
    (\<forall>h. chat_reader q s h \<longrightarrow> (\<exists>h' \<in> set hs. h' = h \<or> um_find (lo_tags s) h' = um_find (lo_tags s) h)) \<and>
    (\<forall>e \<in> set rest. \<exists>c. e = Callback c) \<and> ch_channel q = ch_channel p \<and> ch_senderId q = ch_senderId p \<and>
    ch_text q = clean_text (ch_text p) \<and>
    find_player (ch_senderId p) (gb_roomPlayers (lo_base s)) = Some sender \<and> ch_senderName q = rp_name sender"
proof -
  let ?b = "(lo_base s)\<lparr>gb_timeSinceLastKeepAlive := flit fl 0\<rparr>"
  obtain effects b where c: "on_chat fl (he_base env) now p ?b = (effects, b)" by fastforce
  have d: "onPacketReceived fl (he_base env) now (ChatMessage p) (lo_base s) = (effects, b)"
    using c by (simp add: onPacketReceived_def)
  have players: "gb_roomPlayers b = gb_roomPlayers (lo_base s)" using on_chat_lobby(1) [of fl "he_base env" now p ?b] c by simp
  have "effects \<noteq> []" using assms(4,5) d by (auto simp: host_do_def)
  then obtain r s1 q where q: "host_route_chat fl now (p\<lparr>ch_text := clean_text (ch_text p)\<rparr>) ?b = (r, s1)" "r = Some q" "b = s1"
    "effects = RelayChat q # (if shouldDisplayChat (he_base env) (gb_roomPlayers s1) q
        then [ShowChat (ch_channel q) (ch_senderId q) (ch_senderName q) (ch_text q)] else [])"
    using c assms(1) by (auto simp: on_chat_def Let_def split: if_splits option.splits prod.splits)
  from q(1,2) obtain sender where sender: "find_player (ch_senderId p) (gb_roomPlayers (lo_base s)) = Some sender"
    "q = p\<lparr>ch_text := clean_text (ch_text p), ch_senderName := rp_name sender\<rparr>"
    by (auto simp: host_route_chat_Some)
  let ?s = "s\<lparr>lo_base := b\<rparr>"
  obtain rest where rest: "sent = relayChat q ?s @ rest" "\<forall>e \<in> set rest. \<exists>c. e = Callback c"
    using assms(4) d q(4) by (auto simp: host_do_def split: if_splits)
  have same: "chat_reader q ?s = chat_reader q s" "lo_tags ?s = lo_tags s"
    by (auto simp: chat_reader_def players fun_eq_iff)
  have "distinct (chat_targets q ?s)" using assms(2,3) by (intro chat_targets_distinct) (simp_all add: players)
  with rest sender chat_targets_read [of _ q ?s] chat_targets_all [of q ?s] show ?thesis
    unfolding same relayChat_targets
    by (intro exI [of _ q] exI [of _ sender] exI [of _ "chat_targets q ?s"] exI [of _ rest]) (auto simp: relayChat_targets)
qed

text \<open>Player 2 writes to everybody on a host with two sessions.\<close>

definition example_chat_host :: "(rat, nat) LocalState" where
  "example_chat_host = (local_state rat_fops 1000 25001)\<lparr>lo_base := example_lobby_state, lo_sessions := [3, 4],
     lo_tags := [(3, 1), (4, 2)]\<rparr>"

lemma example_chat_text: "clean_text (ch_text example_chat) = ''hi''"
  by (simp add: clean_text_def example_chat_def printable_def MAX_TEXT_LENGTH_def)

lemma chat_confidential_witness:
  "\<exists>q hs rest. fst (host_do example_host_env (onPacketReceived rat_fops (he_base example_host_env) 0 (ChatMessage example_chat))
      example_chat_host) = map (\<lambda>h. SendTo h (ChatMessage q)) hs @ rest \<and> distinct hs \<and> 3 \<in> set hs \<and>
    ch_text q = ''hi'' \<and> ch_senderName q = ''Ann 1''"
proof -
  let ?r = "host_do example_host_env (onPacketReceived rat_fops (he_base example_host_env) 0 (ChatMessage example_chat)) example_chat_host"
  obtain sent s' where r: "?r = (sent, s')" by fastforce
  have players: "gb_roomPlayers (lo_base example_chat_host) = [example_player_info 1 ''Ann'' 1, example_player_info 2 ''Ann 1'' 2]"
    by (simp add: example_chat_host_def example_lobby_state_def)
  have found: "find_player (ch_senderId example_chat) (gb_roomPlayers (lo_base example_chat_host)) = Some (example_player_info 2 ''Ann 1'' 2)"
    unfolding players by (simp add: example_chat_def find_player_def example_player_info_def)
  have "sent \<noteq> []"
  proof -
    have "\<exists>q. fst (onPacketReceived rat_fops example_env 0 (ChatMessage example_chat) (lo_base example_chat_host)) = RelayChat q #
        (if shouldDisplayChat example_env (gb_roomPlayers (lo_base example_chat_host)) q then [ShowChat CHAT_ALL 2 ''Ann 1'' ''hi''] else [])
        \<and> ch_channel q = CHAT_ALL"
      using found example_chat_text
      by (simp add: onPacketReceived_def on_chat_def host_route_chat_def Let_def example_env_def allowChatRate_def
          example_chat_host_def example_lobby_state_def backend_state_def example_chat_def example_player_info_def CHAT_ALL_def CHAT_PRIVATE_def)
    then show ?thesis
      using r by (auto simp: host_do_def split_beta example_host_env_def relayChat_targets chat_targets_def example_chat_host_def
        CHAT_ALL_def CHAT_TEAM_def CHAT_PRIVATE_def)
  qed
  then obtain q sender hs rest where c: "sent = map (\<lambda>h. SendTo h (ChatMessage q)) hs @ rest" "distinct hs"
    "\<forall>h. chat_reader q example_chat_host h \<longrightarrow> (\<exists>h' \<in> set hs. h' = h \<or> um_find (lo_tags example_chat_host) h' = um_find (lo_tags example_chat_host) h)"
    "ch_channel q = ch_channel example_chat" "ch_text q = clean_text (ch_text example_chat)" "ch_senderName q = rp_name sender"
    "\<forall>h \<in> set hs. chat_reader q example_chat_host h"
    "find_player (ch_senderId example_chat) (gb_roomPlayers (lo_base example_chat_host)) = Some sender"
    using chat_confidential [OF _ _ _ r] players by (auto simp: example_host_env_def example_env_def example_chat_host_def example_player_info_def)
  have "chat_reader q example_chat_host 3" using c(4) by (simp add: chat_reader_def example_chat_host_def example_chat_def)
  with c(3) obtain h' where h': "h' \<in> set hs" "h' = 3 \<or> um_find (lo_tags example_chat_host) h' = um_find (lo_tags example_chat_host) 3" by blast
  moreover have "h' \<in> {3, 4}" using c(7) h'(1) by (auto simp: chat_reader_def example_chat_host_def)
  ultimately have "3 \<in> set hs" by (auto simp: example_chat_host_def um_find_def)
  moreover have "ch_senderName q = ''Ann 1''" using c(6,8) found by (auto simp: example_player_info_def)
  ultimately show ?thesis
    using c(1,2,5) example_chat_text unfolding r fst_conv by (intro exI [of _ q] exI [of _ hs] exI [of _ rest]) simp
qed

subsection \<open>Leaving and being kicked\<close>

lemma receive_all_append:
  "snd (receive_all fl env (xs @ ys) s) = snd (receive_all fl env ys (snd (receive_all fl env xs s)))"
  by (induction xs arbitrary: s) (auto simp: split_beta)

lemma leave_received:
  assumes "lobby_inv env s" shows "nl_netid p \<notin> rp_id ` set (gb_roomPlayers (snd (onPacketReceived fl env now (NodeLeave p) s)))"
  using assms erase_first_distinct [of rp_id "gb_roomPlayers s" "nl_netid p"] find_player_None [of "nl_netid p" "gb_roomPlayers s"]
  by (auto simp: onPacketReceived_def on_leave_def lobby_inv_def publishPlayerCount_def Let_def)

lemma run_tasks_lobby: "gb_roomPlayers (snd (run_tasks tasks s)) = gb_roomPlayers s"
proof (induction tasks arbitrary: s)
  case (Cons task tasks)
  then show ?case by (cases task) (simp_all add: split_beta Let_def)
qed simp

lemma update_after_leave:
  assumes "lobby_inv env s" "gb_packetQueue s = queue @ [NodeLeave \<lparr>nl_netid = i\<rparr>]" "\<forall>packet \<in> set queue. host_packet packet"
  shows "i \<notin> rp_id ` set (gb_roomPlayers (snd (backend_update fl env clock ms dt s)))"
proof -
  let ?s = "s\<lparr>gb_packetQueue := [], gb_tasks := []\<rparr>"
  let ?xs = "zip queue (map clock [0..<length queue])"
  have batch: "zip (gb_packetQueue s) (map clock [0..<length (gb_packetQueue s)]) =
      ?xs @ [(NodeLeave \<lparr>nl_netid = i\<rparr>, clock (length queue))]"
    by (simp add: assms(2))
  have "lobby_inv env (snd (receive_all fl env ?xs ?s))"
    using assms(1,3) by (intro receive_all_inv) (auto simp: lobby_inv_def dest: set_zip_leftD)
  from leave_received [OF this, of "\<lparr>nl_netid = i\<rparr>"]
  show ?thesis
    by (simp add: backend_update_lobby drain_queues_def Let_def split_beta batch receive_all_append run_tasks_lobby
        del: zip_append)
qed

lemma host_update_base:
  "gb_roomPlayers (lo_base (snd (host_update fl env clock ms ups dt s))) =
    gb_roomPlayers (lo_base (snd (host_base_update fl env clock ms dt s)))"
  "set (lo_sessions (snd (host_update fl env clock ms ups dt s))) \<subseteq> set (lo_sessions s)"
proof -
  have uplinks: "lo_base (fold (handleVoiceUplinkPacket fl env c) ups s) = lo_base s \<and>
      lo_sessions (fold (handleVoiceUplinkPacket fl env c) ups s) = lo_sessions s" for c ups and s :: "('a, 'b) LocalState"
    by (induction ups arbitrary: s) (simp_all add: handleVoiceUplinkPacket_def)
  have ticks: "lo_base (snd (ping_tick fl dt s)) = lo_base s" "lo_sessions (snd (ping_tick fl dt s)) = lo_sessions s"
    "lo_base (snd (heartbeat_tick fl env dt s)) = lo_base s" "lo_sessions (snd (heartbeat_tick fl env dt s)) = lo_sessions s"
    for s :: "('a, 'b) LocalState"
    by (simp_all add: ping_tick_def heartbeat_tick_def Let_def)
  have sweep: "gb_roomPlayers (lo_base (snd (sweep_dead env s))) = gb_roomPlayers (lo_base s)"
    "set (lo_sessions (snd (sweep_dead env s))) \<subseteq> set (lo_sessions s)" for s :: "('a, 'b) LocalState"
    by (auto simp: sweep_dead_def announce_frame split: prod.splits)
  show "gb_roomPlayers (lo_base (snd (host_update fl env clock ms ups dt s))) =
      gb_roomPlayers (lo_base (snd (host_base_update fl env clock ms dt s)))"
    by (simp add: host_update_def Let_def split_beta uplinks ticks sweep)
  show "set (lo_sessions (snd (host_update fl env clock ms ups dt s))) \<subseteq> set (lo_sessions s)"
    using sweep(2) [of "snd (host_base_update fl env clock ms dt s)"] does_update [of s fl env clock ms dt]
    by (simp add: host_update_def Let_def split_beta uplinks ticks does_def)
qed

text \<open>C22. When the session of a tagged player goes, every remaining session is told once that the player
  left, and by the end of the next frame the session is gone and the player is out of the lobby, whatever
  else the frame had to handle before.\<close>

theorem leave_removes_player:
  assumes "host_inv (be_lobbyTeamSize (he_base env)) s" "um_find (lo_tags s) h = Some i" "i \<noteq> 0"
    and "onPeerDisconnected env' h s = (sent, s1)" "host_update fl env clock now_ms uplinks dt s1 = (sent', s2)"
  shows "sent = map (\<lambda>h'. SendTo h' (NodeLeave \<lparr>nl_netid = i\<rparr>)) (filter (\<lambda>h'. h' \<noteq> h) (lo_sessions s)) \<and>
    h \<notin> set (lo_sessions s2) \<and> i \<notin> rp_id ` set (gb_roomPlayers (lo_base s2))"
proof -
  have s1: "lo_sessions s1 = filter (\<lambda>h'. h' \<noteq> h) (lo_sessions s)"
    "gb_packetQueue (lo_base s1) = gb_packetQueue (lo_base s) @ [NodeLeave \<lparr>nl_netid = i\<rparr>]"
    "sent = map (\<lambda>h'. SendTo h' (NodeLeave \<lparr>nl_netid = i\<rparr>)) (filter (\<lambda>h'. h' \<noteq> h) (lo_sessions s))"
    using assms(2-4) by (auto simp: onPeerDisconnected_def Let_def broadcast_def enqueue_def enqueuePacket_def)
  have inv: "host_inv (be_lobbyTeamSize (he_base env)) s1" using disconnect_inv [OF assms(1), of env' h] assms(4) by simp
  then have "lobby_inv (he_base env) (lo_base s1)" by (simp add: host_inv_def)
  moreover have "\<forall>packet \<in> set (gb_packetQueue (lo_base s)). host_packet packet" using assms(1) by (simp add: host_inv_def)
  ultimately have "i \<notin> rp_id ` set (gb_roomPlayers (lo_base (snd (host_base_update fl env clock now_ms dt s1))))"
    using does_update [of s1 fl env clock now_ms dt] s1(2) by (simp add: does_def update_after_leave)
  with host_update_base [of fl env clock now_ms uplinks dt s1] s1 assms(5) show ?thesis by auto
qed

lemma leave_removes_player_witness:
  "3 \<notin> set (lo_sessions (snd (host_update rat_fops example_host_env (\<lambda>_. 0) 0 [] (1/60) (snd (onPeerDisconnected example_host_env 3 example_host))))) \<and>
   7 \<notin> rp_id ` set (gb_roomPlayers (lo_base (snd (host_update rat_fops example_host_env (\<lambda>_. 0) 0 [] (1/60)
      (snd (onPeerDisconnected example_host_env 3 example_host))))))"
proof -
  have inv: "host_inv (be_lobbyTeamSize (he_base example_host_env)) example_host"
    using host.inv_reachable [OF example_host_reachable] by (simp add: example_host_env_def example_env_def)
  have tag: "um_find (lo_tags example_host) 3 = Some 7"
    by (simp add: example_host_def on_session_join_def Let_def adoptSession_def local_state_def)
  show ?thesis
    using leave_removes_player [OF inv tag _ surjective_pairing surjective_pairing] by simp
qed

text \<open>Kicking a player tells the player's session, takes every entry of the player and no other out of
  the lobby, and silences the player's chat: a message from a kicked player is neither relayed nor shown.\<close>

theorem kick_removes_player:
  assumes "kickPlayer env i s = (sent, s')"
  shows "gb_roomPlayers (lo_base s') = filter (\<lambda>rp. rp_id rp \<noteq> i) (gb_roomPlayers (lo_base s)) \<and>
    (\<forall>h. session_of i s = Some h \<longrightarrow> hd sent = SendTo h (LobbyKick \<lparr>lk_reason = []\<rparr>)) \<and>
    (be_isServer (he_base env) \<longrightarrow> (\<forall>p. ch_senderId p = i \<longrightarrow>
      fst (host_do env (onPacketReceived fl (he_base env) now (ChatMessage p)) s') = []))"
proof -
  let ?kept = "filter (\<lambda>rp. rp_id rp \<noteq> i) (gb_roomPlayers (lo_base s))"
  have players: "gb_roomPlayers (lo_base s') = ?kept"
    using assms by (auto simp: kickPlayer_def Let_def split_beta publishPlayerCount_def split: if_splits)
  have "fst (onPacketReceived fl (he_base env) now (ChatMessage p) (lo_base s')) = []"
    if "be_isServer (he_base env)" "ch_senderId p = i" for p
  proof -
    have "find_player i ?kept = None" by (auto simp: find_player_None)
    with that players show ?thesis by (simp add: onPacketReceived_def on_chat_def host_route_chat_def Let_def)
  qed
  then have "fst (host_do env (onPacketReceived fl (he_base env) now (ChatMessage p)) s') = []"
    if "be_isServer (he_base env)" "ch_senderId p = i" for p
    using that by (simp add: host_do_def split_beta)
  moreover have "hd sent = SendTo h (LobbyKick \<lparr>lk_reason = []\<rparr>)" if "session_of i s = Some h" for h
    using assms that by (auto simp: kickPlayer_def Let_def split_beta sendToPlayer_def split: if_splits)
  ultimately show ?thesis using players by blast
qed

lemma kick_removes_player_witness:
  "gb_roomPlayers (lo_base (snd (kickPlayer example_host_env 2 example_chat_host))) = [example_player_info 1 ''Ann'' 1] \<and>
   fst (host_do example_host_env (onPacketReceived rat_fops example_env 0 (ChatMessage example_chat))
     (snd (kickPlayer example_host_env 2 example_chat_host))) = []"
  using kick_removes_player [OF surjective_pairing, of example_host_env 2 example_chat_host rat_fops 0]
  by (simp add: example_chat_host_def example_lobby_state_def example_player_info_def example_chat_def example_host_env_def example_env_def)

subsection \<open>Voice follows the lobby\<close>

text \<open>What the router holds for a connection whose state was set and whose control packet was taken.\<close>

definition voice_set :: "PeerState \<Rightarrow> ('f, 'cb) Peer \<Rightarrow> bool" where
  "voice_set st peer \<longleftrightarrow> (if isValidPeerState st
     then pr_hasstate peer \<and> pr_controlpublished peer \<and> pr_state peer = st else \<not> pr_hasstate peer)"

lemma clearPeerState_delivered:
  assumes "\<And>t m opt. deliver t m opt"
  shows "um_find (vs_peers (snd (clearPeerState deliver c v))) c' =
     (case um_find (vs_peers v) c' of None \<Rightarrow> None | Some peer \<Rightarrow>
       if c' \<noteq> c then Some peer
       else Some (if pr_hasstate peer
         then peer\<lparr>pr_hasstate := False, pr_state := peerstate_default, pr_generation := nextGeneration (pr_generation peer),
           pr_controlpublished := True\<rparr>
         else peer\<lparr>pr_controlpublished := True\<rparr>))"
    and "hearEnemies (snd (clearPeerState deliver c v)) = hearEnemies v"
  using assms
  by (auto simp: clearPeerState_def lookupPeer_def clearPeerState_publish_def clearPeerState_confirm_def Let_def
      split: option.splits)

lemma setPeerState_delivered:
  assumes "\<And>t m opt. deliver t m opt"
  shows "um_find (vs_peers v) c = Some peer \<Longrightarrow>
      \<exists>p'. um_find (vs_peers (snd (setPeerState deliver now c st v))) c = Some p' \<and> voice_set st p'"
    and "c' \<noteq> c \<Longrightarrow> um_find (vs_peers (snd (setPeerState deliver now c st v))) c' = um_find (vs_peers v) c'"
    and "um_find (vs_peers v) c' = None \<Longrightarrow> um_find (vs_peers (snd (setPeerState deliver now c st v))) c' = None"
    and "hearEnemies (snd (setPeerState deliver now c st v)) = hearEnemies v"
  using assms clearPeerState_delivered [where deliver = deliver and c = c and v = v, OF assms]
  by (auto simp: setPeerState_def lookupPeer_def setPeerState_publish_def setPeerState_confirm_def voice_set_def Let_def
      split: option.splits)

text \<open>The voice state a session's player is given.\<close>

definition lobby_voice :: "('f, 'c) host_env \<Rightarrow> ('f, 'c) LocalState \<Rightarrow> nat \<Rightarrow> PeerState" where
  "lobby_voice env s h = (case session_player env (gb_roomPlayers (lo_base s)) (lo_tags s) h of (pid, team) \<Rightarrow>
     player_state pid team (lo_voiceSessionId s))"

lemma sync_session_lobby:
  assumes "\<And>t m opt. he_deliver env t m opt"
  shows "um_find (vs_peers (lo_voice (sync_session env h s))) (he_sid env h) = Some peer \<Longrightarrow> he_isAlive env h \<Longrightarrow>
      voice_set (lobby_voice env s h) peer"
    and "c \<noteq> he_sid env h \<Longrightarrow> um_find (vs_peers (lo_voice (sync_session env h s))) c = um_find (vs_peers (lo_voice s)) c"
    and "hearEnemies (lo_voice (sync_session env h s)) = hearEnemies (lo_voice s)"
proof -
  obtain pid team where sp: "session_player env (gb_roomPlayers (lo_base s)) (lo_tags s) h = (pid, team)" by fastforce
  note d = setPeerState_delivered [where deliver = "he_deliver env", OF assms]
  show "voice_set (lobby_voice env s h) peer"
    if "um_find (vs_peers (lo_voice (sync_session env h s))) (he_sid env h) = Some peer" "he_isAlive env h"
  proof (cases "um_find (vs_peers (lo_voice s)) (he_sid env h)")
    case None
    from that d(3) [OF None] sp show ?thesis by (simp add: sync_session_def set_peer_def)
  next
    case (Some old)
    from that d(1) [OF Some, of "he_steady env" "lobby_voice env s h"] sp show ?thesis
      by (auto simp: sync_session_def set_peer_def lobby_voice_def)
  qed
  show "c \<noteq> he_sid env h \<Longrightarrow> um_find (vs_peers (lo_voice (sync_session env h s))) c = um_find (vs_peers (lo_voice s)) c"
    using d(2) [of c "he_sid env h"] by (auto simp: sync_session_def set_peer_def sp)
  show "hearEnemies (lo_voice (sync_session env h s)) = hearEnemies (lo_voice s)"
    using d(4) by (auto simp: sync_session_def set_peer_def sp)
qed

lemma lobby_voice_same [simp]: "lobby_voice env (sync_session env h' s) h = lobby_voice env s h"
  "lobby_voice env (set_peer env c st s) h = lobby_voice env s h"
  using voice_only_fields [OF sync_session_voice_only [where s = s and env = env and h = h']]
    voice_only_fields [OF set_peer_voice_only [where s = s and env = env and c = c and st = st]]
  by (simp_all add: lobby_voice_def)

lemma fold_sync_lobby:
  assumes "\<And>t m opt. he_deliver env t m opt" "distinct (map (he_sid env) hs)"
  shows "h \<in> set hs \<Longrightarrow> he_isAlive env h \<Longrightarrow>
      um_find (vs_peers (lo_voice (fold (sync_session env) hs s))) (he_sid env h) = Some peer \<Longrightarrow> voice_set (lobby_voice env s h) peer"
    and "c \<notin> he_sid env ` set hs \<Longrightarrow>
      um_find (vs_peers (lo_voice (fold (sync_session env) hs s))) c = um_find (vs_peers (lo_voice s)) c"
    and "hearEnemies (lo_voice (fold (sync_session env) hs s)) = hearEnemies (lo_voice s)"
  using assms(2)
proof (induction hs arbitrary: s c)
  case (Cons h' hs)
  note one = sync_session_lobby [where env = env, OF assms(1)]
  {
    case 1
    show ?case
    proof (cases "h = h'")
      case True
      have "um_find (vs_peers (lo_voice (sync_session env h' s))) (he_sid env h') = Some peer"
        using 1(3,4) True Cons.IH(2) [where c = "he_sid env h'" and s = "sync_session env h' s"] by simp
      then show ?thesis using one(1) 1(2) True by blast
    next
      case False
      then have "voice_set (lobby_voice env (sync_session env h' s) h) peer" using 1 by (intro Cons.IH(1)) auto
      then show ?thesis by simp
    qed
  next
    case 2
    then show ?case using Cons.IH(2) [where c = c and s = "sync_session env h' s"] one(2) [of c h' s] by auto
  next
    case 3
    then show ?case using Cons.IH(3) [where s = "sync_session env h' s"] one(3) [of h' s] by auto
  }
qed simp_all

lemma sync_lobby:
  assumes "\<And>t m opt. he_deliver env t m opt" "distinct (map (he_sid env) (lo_sessions s))" "lo_voiceSessionId s \<noteq> 0"
    and "h \<in> set (lo_sessions s)" "he_isAlive env h"
    and "um_find (vs_peers (lo_voice (syncVoicePeerStates env s))) (he_sid env h) = Some peer"
  shows "voice_set (lobby_voice env s h) peer"
    and "hearEnemies (lo_voice (syncVoicePeerStates env s)) = hearEnemies (lo_voice s)"
proof -
  have set_peer: "hearEnemies (lo_voice (set_peer env c st s)) = hearEnemies (lo_voice s)"
    "lo_sessions (set_peer env c st s) = lo_sessions s" for c st
    using setPeerState_delivered(4) [where deliver = "he_deliver env", OF assms(1)] by (simp_all add: set_peer_def)
  show "voice_set (lobby_voice env s h) peer"
    using assms(3-6) fold_sync_lobby(1) [where env = env, OF assms(1,2,4,5)]
    by (fastforce simp: syncVoicePeerStates_def Let_def set_peer split: if_splits)
  show "hearEnemies (lo_voice (syncVoicePeerStates env s)) = hearEnemies (lo_voice s)"
    using fold_sync_lobby(3) [where env = env, OF assms(1,2)] by (simp add: syncVoicePeerStates_def Let_def set_peer)
qed


text \<open>Two teammates whose voice states are published already: the packet of one reaches the other.\<close>

definition example_voice_peer :: "nat \<Rightarrow> u32 \<Rightarrow> (rat, voice_target) Peer" where
  "example_voice_peer h pid = \<lparr>pr_uid = h, pr_send = SessionVoice h, pr_state = player_state pid 1 1000,
     pr_hasstate = True, pr_controlpublished = True, pr_generation = 1,
     pr_packettokens = 20, pr_bytetokens = 8192, pr_ratetime = 0\<rparr>"

definition example_voice_host :: "(rat, nat) LocalState" where
  "example_voice_host = (local_state rat_fops 1000 25001)\<lparr>lo_base := (backend_state rat_fops)\<lparr>gb_roomPlayers :=
       [example_player_info 1 ''Ann'' 1, example_player_info 2 ''Ben'' 1]\<rparr>,
     lo_sessions := [3, 4], lo_tags := [(3, 1), (4, 2)],
     lo_voice := (voice_server (default_config rat_fops))\<lparr>vs_peers := [(103, example_voice_peer 3 1), (104, example_voice_peer 4 2)],
       vs_nextuid := 5\<rparr>\<rparr>"

definition example_uplink :: gTeamVoiceUplinkPacket where
  "example_uplink = \<lparr>up_version = 1, up_flags = 1, up_sessionid = 1000, up_membershipgeneration = 1,
     up_streamgeneration = 1, up_sequence = 0, up_sampleposition = 0, up_payload = [1, 2, 3]\<rparr>"

lemma example_voice_facts:
  "um_find (vs_peers (lo_voice example_voice_host)) 103 = Some (example_voice_peer 3 1)"
  "um_find (vs_peers (lo_voice example_voice_host)) 104 = Some (example_voice_peer 4 2)"
  "um_find (vs_peers (lo_voice example_voice_host)) 0xFFFFFFFFFFFFFFFF = None"
  "isValidPeerState (player_state 1 1 1000)" "isValidPeerState (player_state 2 1 1000)"
  by (simp_all add: example_voice_host_def um_find_def isValidPeerState_def player_state_def)

lemma example_voice_session: "lo_voiceSessionId example_voice_host = 1000"
  by (simp add: example_voice_host_def local_state_def)

lemma example_sids: "he_sid example_host_env 3 = 103" "he_sid example_host_env 4 = 104" "he_isAlive example_host_env h"
  by (simp_all add: example_host_env_def)

lemma example_publish:
  "um_find (vs_peers v) c = Some peer \<Longrightarrow> pr_hasstate peer \<Longrightarrow> pr_controlpublished peer \<Longrightarrow> pr_state peer = st \<Longrightarrow>
    isValidPeerState st \<Longrightarrow> snd (setPeerState deliver now c st v) = v"
  "um_find (vs_peers v) c = None \<Longrightarrow> snd (setPeerState deliver now c st v) = v"
  by (auto simp: setPeerState_def clearPeerState_def lookupPeer_def setPeerState_publish_def split: option.splits)

lemma example_sync: "syncVoicePeerStates example_host_env example_voice_host = example_voice_host"
proof -
  have same: "example_voice_host\<lparr>lo_voice := lo_voice example_voice_host\<rparr> = example_voice_host" by simp
  have sp: "session_player example_host_env (gb_roomPlayers (lo_base example_voice_host)) (lo_tags example_voice_host) 3 = (1, 1)"
    "session_player example_host_env (gb_roomPlayers (lo_base example_voice_host)) (lo_tags example_voice_host) 4 = (2, 1)"
    by (simp_all add: session_player_def example_voice_host_def example_host_env_def um_find_def example_player_info_def)
  have one: "sync_session example_host_env 3 example_voice_host = example_voice_host"
    "sync_session example_host_env 4 example_voice_host = example_voice_host"
    using example_publish(1) [OF example_voice_facts(1)] example_publish(1) [OF example_voice_facts(2)] example_voice_facts(4,5)
    by (simp_all add: sync_session_def sp set_peer_def example_sids example_voice_peer_def example_voice_session same)
  have "set_peer example_host_env LOCAL_HOST_VOICE_CONN_ID st example_voice_host = example_voice_host" for st
    using example_publish(2) [OF example_voice_facts(3)] by (simp add: set_peer_def LOCAL_HOST_VOICE_CONN_ID_def same)
  moreover have "lo_sessions example_voice_host = [3, 4]" by (simp add: example_voice_host_def)
  ultimately show ?thesis by (simp add: syncVoicePeerStates_def Let_def one)
qed

lemma example_voice_relayed:
  "fst (handleVoicePacket rat_fops (\<lambda>_ _ _. True) 0 103 example_uplink (lo_voice example_voice_host)) =
    [(SessionVoice 4, relay_packet example_uplink (player_state 1 1 1000) 1 \<lparr>rc_send = SessionVoice 4, rc_generation = 1\<rparr>, True)]"
proof -
  have valid: "gValidateTeamVoiceUplinkPacket example_uplink = NONE"
    by (simp add: example_uplink_def validate_uplink_NONE PROTOCOL_VERSION_def VALID_VOICE_FLAGS_def
      FLAG_STREAM_START_def FLAG_DISCONTINUITY_def NETWORK_MAX_OPUS_BYTES_def)
  show ?thesis
    by (simp add: handleVoicePacket_def valid Let_def example_voice_host_def example_voice_peer_def
      voice_server_def um_find_def um_put_def may_transmit_iff player_state_def isValidPeerState_def
      consumeRate_def default_config_def may_receive_def) (simp add: example_uplink_def)
qed


end
