(* ===== verification/RingBuffers.thy ===== *)
theory RingBuffers
  imports Mp_Prelude
begin

section \<open>The lock-free queues between the audio threads\<close>

text \<open>
  \<open>SpscQueue\<close> and \<open>SampleRingBuffer\<close> of \<open>audio/gVoiceAudioProcessor.cpp\<close> and
  \<open>AudioRingBuffer\<close> of \<open>audio/gVoiceLoopback.cpp\<close>. A buffer is a vector and two positions of
  64 bits that only grow; a position selects the slot at its remainder by the vector's size.
  The contract of all three is the locale \<open>bounded_fifo\<close>. Positions wrap after \<open>2\<^sup>6\<^sup>4\<close> elements,
  where the remainders jump unless the size divides \<open>2\<^sup>6\<^sup>4\<close>, so the contract counts the
  elements left before that point (\<open>ring_budget\<close>). The queue is also modelled with its two
  threads interleaved between their loads, copies and stores.
\<close>

record 'a ring =
  rg_slots :: "'a list"
  rg_read :: u64
  rg_write :: u64

subsection \<open>SpscQueue\<close>

definition spsc_new :: "nat \<Rightarrow> 'a \<Rightarrow> 'a ring" where
  "spsc_new capacity value = \<lparr>rg_slots = replicate (max 1 capacity) value, rg_read = 0, rg_write = 0\<rparr>"

definition spsc_push :: "'a \<Rightarrow> 'a ring \<Rightarrow> bool \<times> 'a ring" where
  "spsc_push value q =
     (let write = rg_write q; read = rg_read q in
      if unat (write - read) \<ge> length (rg_slots q) then (False, q)
      else (True, q\<lparr>rg_slots := (rg_slots q)[unat write mod length (rg_slots q) := value],
              rg_write := write + 1\<rparr>))"

definition spsc_pop :: "'a ring \<Rightarrow> 'a option \<times> 'a ring" where
  "spsc_pop q =
     (let read = rg_read q; write = rg_write q in
      if read = write then (None, q)
      else (Some (rg_slots q ! (unat read mod length (rg_slots q))), q\<lparr>rg_read := read + 1\<rparr>))"

definition discardByConsumer :: "'a ring \<Rightarrow> 'a ring" where
  "discardByConsumer q = q\<lparr>rg_read := rg_write q\<rparr>"

subsection \<open>SampleRingBuffer\<close>

definition sample_ring_new :: "nat \<Rightarrow> 'a \<Rightarrow> 'a ring" where
  "sample_ring_new capacity zero = \<lparr>rg_slots = replicate (max 1 capacity) zero, rg_read = 0, rg_write = 0\<rparr>"

text \<open>The two \<open>memcpy\<close> calls: up to the end of the vector, then from its start.\<close>

definition copyInto :: "'a list \<Rightarrow> nat \<Rightarrow> nat \<Rightarrow> 'a list \<Rightarrow> 'a list" where
  "copyInto input position count samples =
     (let offset = position mod length samples;
          first = min count (length samples - offset);
          samples = take offset samples @ take first input @ drop (offset + first) samples
      in take (count - first) (drop first input) @ drop (count - first) samples)"

definition copyOut :: "nat \<Rightarrow> nat \<Rightarrow> 'a list \<Rightarrow> 'a list" where
  "copyOut position count samples =
     (let offset = position mod length samples;
          first = min count (length samples - offset)
      in take first (drop offset samples) @ take (count - first) samples)"

definition sample_write :: "'a list \<Rightarrow> 'a ring \<Rightarrow> nat \<times> 'a ring" where
  "sample_write input q =
     (let write = rg_write q; read = rg_read q; count = length input in
      if count > length (rg_slots q) - unat (write - read) then (0, q)
      else (count, q\<lparr>rg_slots := copyInto input (unat write) count (rg_slots q),
              rg_write := write + word_of_nat count\<rparr>))"

definition sample_read :: "nat \<Rightarrow> 'a ring \<Rightarrow> 'a list \<times> 'a ring" where
  "sample_read count q =
     (let read = rg_read q; write = rg_write q;
          available = min count (unat (write - read))
      in (copyOut (unat read) available (rg_slots q),
          q\<lparr>rg_read := read + word_of_nat available\<rparr>))"

subsection \<open>AudioRingBuffer\<close>

definition audio_ring_new :: "nat \<Rightarrow> 'a \<Rightarrow> 'a ring" where
  "audio_ring_new capacity zero = \<lparr>rg_slots = replicate capacity zero, rg_read = 0, rg_write = 0\<rparr>"

definition audio_reset :: "'a ring \<Rightarrow> 'a ring" where
  "audio_reset q = q\<lparr>rg_read := 0, rg_write := 0\<rparr>"

definition audio_available :: "'a ring \<Rightarrow> nat" where
  "audio_available q = unat (rg_write q - rg_read q)"

definition copyIntoBuffer :: "'a list \<Rightarrow> nat \<Rightarrow> nat \<Rightarrow> 'a list \<Rightarrow> 'a list" where
  "copyIntoBuffer input position frames buffer =
     (let offset = position mod length buffer;
          first = min frames (length buffer - offset);
          buffer = take offset buffer @ take first input @ drop (offset + first) buffer
      in take (frames - first) (drop first input) @ drop (frames - first) buffer)"

definition copyFromBuffer :: "nat \<Rightarrow> nat \<Rightarrow> 'a list \<Rightarrow> 'a list" where
  "copyFromBuffer position frames buffer =
     (let offset = position mod length buffer;
          first = min frames (length buffer - offset)
      in take first (drop offset buffer) @ take (frames - first) buffer)"

definition audio_write :: "'a list \<Rightarrow> 'a ring \<Rightarrow> nat \<times> 'a ring" where
  "audio_write input q =
     (let write = rg_write q; read = rg_read q;
          count = min (length input) (length (rg_slots q) - unat (write - read))
      in (count, q\<lparr>rg_slots := copyIntoBuffer input (unat write) count (rg_slots q),
            rg_write := write + word_of_nat count\<rparr>))"

definition audio_read :: "nat \<Rightarrow> 'a ring \<Rightarrow> 'a list \<times> 'a ring" where
  "audio_read frames q =
     (let read = rg_read q; write = rg_write q;
          count = min frames (unat (write - read))
      in (copyFromBuffer (unat read) count (rg_slots q),
          q\<lparr>rg_read := read + word_of_nat count\<rparr>))"

subsection \<open>The contract\<close>

text \<open>A run of blocks written and read: what was accepted, what came out, and the end state.\<close>

datatype 'a fifo_op = Put "'a list" | Get nat

fun fifo_run ::
  "('a list \<Rightarrow> 'q \<Rightarrow> nat \<times> 'q) \<Rightarrow> (nat \<Rightarrow> 'q \<Rightarrow> 'a list \<times> 'q) \<Rightarrow> 'a fifo_op list \<Rightarrow> 'q
     \<Rightarrow> 'a list \<times> 'a list \<times> 'q" where
  "fifo_run put get [] q = ([], [], q)"
| "fifo_run put get (Put xs # ops) q = (case put xs q of (n, q) \<Rightarrow>
     (case fifo_run put get ops q of (accepted, out, q) \<Rightarrow> (take n xs @ accepted, out, q)))"
| "fifo_run put get (Get n # ops) q = (case get n q of (ys, q) \<Rightarrow>
     (case fifo_run put get ops q of (accepted, out, q) \<Rightarrow> (accepted, ys @ out, q)))"

fun put_total :: "'a fifo_op list \<Rightarrow> nat" where
  "put_total [] = 0"
| "put_total (Put xs # ops) = length xs + put_total ops"
| "put_total (Get n # ops) = put_total ops"

locale bounded_fifo =
  fixes put :: "'a list \<Rightarrow> 'q \<Rightarrow> nat \<times> 'q" and get :: "nat \<Rightarrow> 'q \<Rightarrow> 'a list \<times> 'q"
    and contents :: "'q \<Rightarrow> 'a list" and capacity :: "'q \<Rightarrow> nat" and budget :: "'q \<Rightarrow> nat"
    and ok :: "'q \<Rightarrow> bool"
  assumes ok_bound: "ok q \<Longrightarrow> length (contents q) \<le> capacity q"
    and put_ok: "ok q \<Longrightarrow> length xs \<le> budget q \<Longrightarrow> put xs q = (n, q') \<Longrightarrow>
      ok q' \<and> contents q' = contents q @ take n xs \<and> capacity q' = capacity q
        \<and> budget q \<le> budget q' + length xs"
    and get_ok: "ok q \<Longrightarrow> get n q = (ys, q') \<Longrightarrow>
      ok q' \<and> contents q = ys @ contents q' \<and> length ys = min n (length (contents q))
        \<and> capacity q' = capacity q \<and> budget q' = budget q"
begin

lemma run_fifo:
  assumes "ok q" "put_total ops \<le> budget q" "fifo_run put get ops q = (accepted, out, q')"
  shows "ok q' \<and> contents q @ accepted = out @ contents q' \<and> length (contents q') \<le> capacity q"
  using assms
proof (induction ops arbitrary: q accepted out)
  case Nil
  then show ?case using ok_bound by auto
next
  case (Cons op ops)
  show ?case
  proof (cases op)
    case (Put xs)
    obtain n q1 where put: "put xs q = (n, q1)" by (cases "put xs q")
    obtain acc1 where run: "fifo_run put get ops q1 = (acc1, out, q')" "accepted = take n xs @ acc1"
      using Cons.prems(3) Put put by (auto split: prod.splits)
    note p = put_ok [OF Cons.prems(1) _ put]
    have "length xs \<le> budget q" using Cons.prems(2) Put by simp
    note p = p [OF this]
    have "put_total ops \<le> budget q1" using Cons.prems(2) Put p by simp
    from Cons.IH [OF _ this run(1)] p run(2) show ?thesis by simp
  next
    case (Get n)
    obtain ys q1 where get: "get n q = (ys, q1)" by (cases "get n q")
    obtain out1 where run: "fifo_run put get ops q1 = (accepted, out1, q')" "out = ys @ out1"
      using Cons.prems(3) Get get by (auto split: prod.splits)
    note g = get_ok [OF Cons.prems(1) get]
    have "put_total ops \<le> budget q1" using Cons.prems(2) Get g by simp
    from Cons.IH [OF _ this run(1)] g run(2) show ?thesis by simp
  qed
qed

end

subsection \<open>The copies\<close>

lemma mod_offset:
  fixes w :: nat assumes "i < n"
  shows "(w + i) mod n = (if w mod n + i < n then w mod n + i else w mod n + i - n)"
proof -
  have eq: "(w + i) mod n = (w mod n + i) mod n" by (simp add: mod_add_left_eq)
  have lt: "w mod n < n" using assms by simp
  show ?thesis
  proof (cases "w mod n + i < n")
    case False
    then have "(w mod n + i) mod n = (w mod n + i - n) mod n" by (simp add: le_mod_geq)
    moreover have "w mod n + i - n < n" using assms lt by linarith
    ultimately show ?thesis using False eq by simp
  qed (simp add: eq)
qed

lemma copyIntoBuffer_copyInto: "copyIntoBuffer = copyInto"
  by (intro ext) (simp add: copyIntoBuffer_def copyInto_def)

lemma copyFromBuffer_copyOut: "copyFromBuffer = copyOut"
  by (intro ext) (simp add: copyFromBuffer_def copyOut_def)

lemma copyInto_straight:
  assumes "w mod length s = off" "off + count \<le> length s"
  shows "copyInto input w count s = take off s @ take count input @ drop (off + count) s"
proof -
  have "min count (length s - off) = count" using assms(2) by linarith
  with assms(1) show ?thesis by (simp add: copyInto_def Let_def)
qed

lemma copyInto_wrapped:
  assumes "w mod length s = off" "off < length s" "length s < off + count" "count \<le> length s"
    "f = length s - off"
  shows "copyInto input w count s =
    take (count - f) (drop f input) @ drop (count - f) (take off s) @ take f input"
proof -
  have 1: "min count (length s - off) = f" using assms by linarith
  have 2: "drop (off + f) s = []" using assms by simp
  have 3: "count - (f + off) = 0" "min (length s) off = off" using assms by linarith+
  have 4: "length s \<le> n + (off + f)" for n using assms by linarith
  show ?thesis using assms(1) by (simp add: copyInto_def Let_def 1 2 3 4)
qed

lemma offset_cases:
  assumes "s \<noteq> []"
  obtains (straight) off where "w mod length s = off" "off < length s" "off + count \<le> length s"
  | (wrapped) off f where "w mod length s = off" "off < length s" "length s < off + count"
      "f = length s - off" "off + f = length s"
proof (cases "w mod length s + count \<le> length s")
  case True
  with assms straight show ?thesis by simp
next
  case False
  with assms wrapped [of "w mod length s" "length s - w mod length s"] show ?thesis by simp
qed

lemma copyInto_length:
  assumes "s \<noteq> []" "count \<le> length s" "count \<le> length input"
  shows "length (copyInto input w count s) = length s"
proof (rule offset_cases [OF assms(1), of w count])
  fix off assume "w mod length s = off" "off < length s" "off + count \<le> length s"
  with assms show ?thesis by (simp add: copyInto_straight)
next
  fix off f assume *: "w mod length s = off" "off < length s" "length s < off + count"
    "f = length s - off" "off + f = length s"
  then have "count - f \<le> off" "f \<le> length input" "count - f \<le> length input - f" using assms by linarith+
  with * show ?thesis by (simp add: copyInto_wrapped [OF *(1-3) assms(2) *(4)] min_def)
qed

lemma copyInto_nth:
  assumes "s \<noteq> []" "count \<le> length s" "count \<le> length input" "i < length s"
  shows "copyInto input w count s ! ((w + i) mod length s) =
    (if i < count then input ! i else s ! ((w + i) mod length s))"
proof (rule offset_cases [OF assms(1), of w count])
  fix off assume *: "w mod length s = off" "off < length s" "off + count \<le> length s"
  have "(w + i) mod length s = (if off + i < length s then off + i else off + i - length s)"
    using mod_offset [OF assms(4), of w] *(1) by simp
  with * assms show ?thesis
    by (simp add: copyInto_straight [OF *(1,3)] nth_append; linarith)
next
  fix off f assume *: "w mod length s = off" "off < length s" "length s < off + count"
    "f = length s - off" "off + f = length s"
  have **: "count - f \<le> off" "f \<le> length input" "count - f \<le> length input - f" using * assms by linarith+
  have pos: "(w + i) mod length s = (if i < f then off + i else i - f)"
    using mod_offset [OF assms(4), of w] *(1,5) by auto
  show ?thesis
  proof (cases "i < f")
    case True
    with * ** have "off + i - (count - f) - (off - (count - f)) = i" "i < count"
      "\<not> off + i - (count - f) < off - (count - f)" by linarith+
    with True *(2) ** show ?thesis
      by (simp add: pos copyInto_wrapped [OF *(1-3) assms(2) *(4)] nth_append min_def)
  next
    case False
    with * ** assms have "i - f < off" by linarith
    have eq: "copyInto input w count s =
        take (count - f) (drop f input) @ drop (count - f) (take off s) @ take f input"
      by (rule copyInto_wrapped [OF *(1-3) assms(2) *(4)])
    have A: "length (take (count - f) (drop f input)) = count - f" using ** by simp
    have B: "length (drop (count - f) (take off s)) = off - (count - f)" using *(2) by simp
    show ?thesis
    proof (cases "i < count")
      case True
      with False assms(3) have "i - f < count - f" "f + (i - f) = i" "i - f < length input - f" by linarith+
      with True False **(2) show ?thesis unfolding eq pos by (simp add: nth_append A)
    next
      case ge: False
      obtain k where k: "i - f = count - f + k" "k < off - (count - f)"
        using ge False \<open>i - f < off\<close> ** by (metis diff_less_mono le_Suc_ex le_diff_conv le_add_diff_inverse2
            diff_le_mono linorder_not_less add_diff_cancel_left')
      have "copyInto input w count s ! (count - f + k) = take off s ! (count - f + k)"
        unfolding eq nth_append A B using k(2) *(2) by simp
      with ge False k \<open>i - f < off\<close> *(2) show ?thesis unfolding pos by simp
    qed
  qed
qed

lemma copyOut_nth:
  assumes "s \<noteq> []" "count \<le> length s"
  shows "copyOut r count s = map (\<lambda>i. s ! ((r + i) mod length s)) [0..<count]"
proof (rule offset_cases [OF assms(1), of r count])
  fix off assume *: "r mod length s = off" "off < length s" "off + count \<le> length s"
  then have "min count (length s - off) = count" by linarith
  with * show ?thesis
    by (intro nth_equalityI) (auto simp: copyOut_def Let_def mod_offset)
next
  fix off f assume *: "r mod length s = off" "off < length s" "length s < off + count"
    "f = length s - off" "off + f = length s"
  then have 1: "min count (length s - off) = f" "f \<le> count" by linarith+
  have eq: "copyOut r count s = take f (drop off s) @ take (count - f) s"
    by (simp add: copyOut_def Let_def *(1) 1(1))
  have len: "length (take f (drop off s)) = f" using *(5) by simp
  have pos: "(r + i) mod length s = (if i < f then off + i else i - f)" if "i < length s" for i
    using mod_offset [OF that, of r] *(1,5) by auto
  show ?thesis
  proof (rule nth_equalityI)
    show "length (copyOut r count s) = length (map (\<lambda>i. s ! ((r + i) mod length s)) [0..<count])"
      unfolding eq length_append len using assms(2) 1(2) by simp
    fix i assume "i < length (copyOut r count s)"
    then have i: "i < count" unfolding eq length_append len using assms(2) 1(2) by simp
    then show "copyOut r count s ! i = map (\<lambda>i. s ! ((r + i) mod length s)) [0..<count] ! i"
      unfolding eq using pos [of i] len assms(2) *(2) by (simp add: nth_append)
  qed
qed

subsection \<open>What a ring holds\<close>

definition ring_contents :: "'a ring \<Rightarrow> 'a list" where
  "ring_contents q = map (\<lambda>k. rg_slots q ! (k mod length (rg_slots q))) [unat (rg_read q)..<unat (rg_write q)]"

definition ring_capacity :: "'a ring \<Rightarrow> nat" where
  "ring_capacity q = length (rg_slots q)"

definition ring_budget :: "'a ring \<Rightarrow> nat" where
  "ring_budget q = 2 ^ 64 - 1 - unat (rg_write q)"

definition ring_ok :: "'a ring \<Rightarrow> bool" where
  "ring_ok q \<longleftrightarrow> rg_slots q \<noteq> [] \<and> unat (rg_read q) \<le> unat (rg_write q) \<and>
     unat (rg_write q) - unat (rg_read q) \<le> length (rg_slots q)"

lemma ring_used: "ring_ok q \<Longrightarrow> unat (rg_write q - rg_read q) = unat (rg_write q) - unat (rg_read q)"
  by (simp add: ring_ok_def unat_sub word_le_nat_alt)

lemma upt_split: "i \<le> j \<Longrightarrow> j \<le> k \<Longrightarrow> [i..<k] = [i..<j] @ [j..<k]"
  using upt_add_eq_append [of i j "k - j"] by simp

lemma ring_contents_length: "length (ring_contents q) = unat (rg_write q) - unat (rg_read q)"
  by (simp add: ring_contents_def)

lemma position_advance:
  assumes "unat (p :: u64) + n < 2 ^ 64" shows "unat (p + word_of_nat n) = unat p + n"
proof -
  have "unat (word_of_nat n :: u64) = n" using assms by (simp add: unsigned_of_nat take_bit_nat_eq_self)
  moreover from this have "unat p + unat (word_of_nat n :: u64) < 2 ^ 64" using assms by simp
  ultimately show ?thesis by (simp add: unat_word_ariths)
qed

lemma ring_write_ok:
  assumes "ring_ok q" "n \<le> length xs" "unat (rg_write q) + n < 2 ^ 64"
    and "n \<le> length (rg_slots q) - (unat (rg_write q) - unat (rg_read q))"
    and "q' = q\<lparr>rg_slots := copyInto xs (unat (rg_write q)) n (rg_slots q),
      rg_write := rg_write q + word_of_nat n\<rparr>"
  shows "ring_ok q' \<and> ring_contents q' = ring_contents q @ take n xs \<and>
    ring_capacity q' = ring_capacity q \<and> ring_budget q \<le> ring_budget q' + n"
proof -
  let ?s = "rg_slots q" and ?w = "unat (rg_write q)" and ?r = "unat (rg_read q)"
  let ?N = "length ?s"
  note ok = assms(1) [unfolded ring_ok_def]
  have w': "unat (rg_write q') = ?w + n" using position_advance [OF assms(3)] assms(5) by simp
  have n: "n \<le> ?N" using assms(4) by simp
  have len: "length (rg_slots q') = ?N" using copyInto_length [of ?s n xs] ok n assms(2,5) by simp
  have old: "rg_slots q' ! (k mod ?N) = ?s ! (k mod ?N)" if "?r \<le> k" "k < ?w" for k
  proof -
    have "k + ?N = ?w + (?N - (?w - k))" using that ok by linarith
    then have "k mod ?N = (?w + (?N - (?w - k))) mod ?N" by (metis mod_add_self2)
    moreover have "\<not> ?N - (?w - k) < n" "?N - (?w - k) < ?N" using that ok assms(4) by linarith+
    ultimately show ?thesis using copyInto_nth [of ?s n xs "?N - (?w - k)" ?w] ok n assms(2,5) by simp
  qed
  have new: "rg_slots q' ! ((?w + i) mod ?N) = xs ! i" if "i < n" for i
    using copyInto_nth [of ?s n xs i ?w] ok n assms(2,5) that by simp
  have "[?r..<?w + n] = [?r..<?w] @ [?w..<?w + n]" by (rule upt_split) (use ok in simp_all)
  moreover have "unat (rg_read q') = ?r" using assms(5) by simp
  ultimately have "ring_contents q' = map (\<lambda>k. rg_slots q' ! (k mod ?N)) [?r..<?w] @
      map (\<lambda>k. rg_slots q' ! (k mod ?N)) [?w..<?w + n]"
    unfolding ring_contents_def len w' by simp
  also have "map (\<lambda>k. rg_slots q' ! (k mod ?N)) [?r..<?w] = ring_contents q"
    using old by (simp add: ring_contents_def)
  also have "map (\<lambda>k. rg_slots q' ! (k mod ?N)) [?w..<?w + n] = take n xs"
    by (rule nth_equalityI) (use new assms(2) in auto)
  finally have "ring_contents q' = ring_contents q @ take n xs" .
  moreover have "ring_ok q'"
  proof -
    have "rg_slots q' \<noteq> []" using len ok by (metis length_0_conv)
    moreover have "rg_read q' = rg_read q" using assms(5) by simp
    ultimately show ?thesis using ok assms(4) unfolding ring_ok_def len w' by auto
  qed
  ultimately show ?thesis by (simp add: ring_capacity_def len ring_budget_def w')
qed

lemma ring_read_ok:
  assumes "ring_ok q" "n \<le> unat (rg_write q) - unat (rg_read q)"
    and "q' = q\<lparr>rg_read := rg_read q + word_of_nat n\<rparr>"
  shows "ring_ok q' \<and> ring_contents q = copyOut (unat (rg_read q)) n (rg_slots q) @ ring_contents q' \<and>
    ring_capacity q' = ring_capacity q \<and> ring_budget q' = ring_budget q"
proof -
  let ?s = "rg_slots q" and ?w = "unat (rg_write q)" and ?r = "unat (rg_read q)"
  note ok = assms(1) [unfolded ring_ok_def]
  have "?w < 2 ^ 64" using unsigned_less [of "rg_write q", where 'a = nat] by simp
  then have "?r + n < 2 ^ 64" using assms(2) ok by linarith
  then have r': "unat (rg_read q') = ?r + n" using position_advance assms(3) by simp
  have split: "[?r..<?w] = [?r..<?r + n] @ [?r + n..<?w]"
    by (rule upt_split) (use assms(2) ok in linarith)+
  have "copyOut ?r n ?s = map (\<lambda>k. ?s ! (k mod length ?s)) [?r..<?r + n]"
    by (subst copyOut_nth) (use ok assms(2) in \<open>auto intro!: nth_equalityI\<close>)
  then have "ring_contents q = copyOut ?r n ?s @ ring_contents q'"
    using r' assms(3) by (simp add: ring_contents_def split)
  moreover have "ring_ok q'" using ok assms(2,3) r' by (auto simp: ring_ok_def)
  ultimately show ?thesis using assms(3) by (simp add: ring_capacity_def ring_budget_def)
qed

subsection \<open>The three queues satisfy the contract\<close>

text \<open>\<open>SpscQueue\<close> moves one element at a time; as a queue of blocks it takes the first element.\<close>

definition spsc_put :: "'a list \<Rightarrow> 'a ring \<Rightarrow> nat \<times> 'a ring" where
  "spsc_put xs q = (case xs of [] \<Rightarrow> (0, q)
     | x # _ \<Rightarrow> (case spsc_push x q of (ok, q) \<Rightarrow> (if ok then 1 else 0, q)))"

fun spsc_get :: "nat \<Rightarrow> 'a ring \<Rightarrow> 'a list \<times> 'a ring" where
  "spsc_get 0 q = ([], q)"
| "spsc_get (Suc n) q = (case spsc_pop q of (None, q) \<Rightarrow> ([], q)
     | (Some x, q) \<Rightarrow> (case spsc_get n q of (xs, q) \<Rightarrow> (x # xs, q)))"

lemma spsc_push_copyInto:
  assumes "ring_ok q"
  shows "spsc_push x q = (if unat (rg_write q) - unat (rg_read q) \<ge> length (rg_slots q) then (False, q)
    else (True, q\<lparr>rg_slots := copyInto [x] (unat (rg_write q)) 1 (rg_slots q),
      rg_write := rg_write q + word_of_nat 1\<rparr>))"
proof -
  have "rg_slots q \<noteq> []" using assms by (simp add: ring_ok_def)
  then have off: "unat (rg_write q) mod length (rg_slots q) < length (rg_slots q)" by simp
  then have "copyInto [x] (unat (rg_write q)) 1 (rg_slots q) =
      (rg_slots q)[unat (rg_write q) mod length (rg_slots q) := x]"
    by (subst copyInto_straight [OF refl]) (simp_all add: upd_conv_take_nth_drop Suc_le_eq)
  then show ?thesis by (simp add: spsc_push_def Let_def ring_used [OF assms])
qed

lemma ring_ok_bound: "ring_ok q \<Longrightarrow> length (ring_contents q) \<le> ring_capacity q"
  by (simp add: ring_contents_length ring_ok_def ring_capacity_def)

lemma budget_room: "n \<le> ring_budget q \<Longrightarrow> unat (rg_write q) + n < 2 ^ 64"
  using unsigned_less [of "rg_write q", where 'a = nat] by (simp add: ring_budget_def)

lemma sample_write_ok:
  assumes "ring_ok q" "length xs \<le> ring_budget q" "sample_write xs q = (n, q')"
  shows "ring_ok q' \<and> ring_contents q' = ring_contents q @ take n xs \<and> ring_capacity q' = ring_capacity q \<and>
    ring_budget q \<le> ring_budget q' + length xs"
proof (cases "length xs > length (rg_slots q) - (unat (rg_write q) - unat (rg_read q))")
  case True
  with assms show ?thesis by (simp add: sample_write_def Let_def ring_used)
next
  case False
  with ring_write_ok [OF assms(1) order_refl budget_room [OF assms(2)] _ refl] assms(3) ring_used [OF assms(1)]
  show ?thesis by (auto simp: sample_write_def Let_def not_less)
qed

lemma audio_write_ok:
  assumes "ring_ok q" "length xs \<le> ring_budget q" "audio_write xs q = (n, q')"
  shows "ring_ok q' \<and> ring_contents q' = ring_contents q @ take n xs \<and> ring_capacity q' = ring_capacity q \<and>
    ring_budget q \<le> ring_budget q' + length xs"
proof -
  have n: "n = min (length xs) (length (rg_slots q) - (unat (rg_write q) - unat (rg_read q)))"
    and q': "q' = q\<lparr>rg_slots := copyInto xs (unat (rg_write q)) n (rg_slots q),
      rg_write := rg_write q + word_of_nat n\<rparr>"
    using assms(3) ring_used [OF assms(1)] by (auto simp: audio_write_def Let_def copyIntoBuffer_copyInto)
  have "n \<le> length xs" "n \<le> length (rg_slots q) - (unat (rg_write q) - unat (rg_read q))"
    using n by simp_all
  with ring_write_ok [OF assms(1) _ _ _ q'] budget_room [of n q] assms(2) show ?thesis by fastforce
qed

lemma sample_read_ok:
  assumes "ring_ok q" "sample_read n q = (ys, q')"
  shows "ring_ok q' \<and> ring_contents q = ys @ ring_contents q' \<and>
    length ys = min n (length (ring_contents q)) \<and> ring_capacity q' = ring_capacity q \<and>
    ring_budget q' = ring_budget q"
proof -
  let ?k = "min n (unat (rg_write q) - unat (rg_read q))"
  have q': "ys = copyOut (unat (rg_read q)) ?k (rg_slots q)" "q' = q\<lparr>rg_read := rg_read q + word_of_nat ?k\<rparr>"
    using assms(2) ring_used [OF assms(1)] by (auto simp: sample_read_def Let_def)
  have "rg_slots q \<noteq> []" "?k \<le> length (rg_slots q)" using assms(1) by (auto simp: ring_ok_def)
  then have "length ys = ?k" by (simp add: q'(1) copyOut_nth)
  moreover have "length (ring_contents q) = unat (rg_write q) - unat (rg_read q)"
    by (rule ring_contents_length)
  ultimately show ?thesis using ring_read_ok [OF assms(1) _ q'(2)] q'(1) by auto
qed

lemma audio_read_sample_read: "audio_read = sample_read"
  by (intro ext) (simp add: audio_read_def sample_read_def copyFromBuffer_copyOut Let_def)

lemma spsc_put_ok:
  assumes "ring_ok q" "length xs \<le> ring_budget q" "spsc_put xs q = (n, q')"
  shows "ring_ok q' \<and> ring_contents q' = ring_contents q @ take n xs \<and> ring_capacity q' = ring_capacity q \<and>
    ring_budget q \<le> ring_budget q' + length xs"
proof (cases xs)
  case Nil
  with assms show ?thesis by (simp add: spsc_put_def)
next
  case (Cons x rest)
  show ?thesis
  proof (cases "unat (rg_write q) - unat (rg_read q) \<ge> length (rg_slots q)")
    case True
    with assms Cons show ?thesis by (simp add: spsc_put_def spsc_push_copyInto)
  next
    case False
    then have q': "n = 1" "q' = q\<lparr>rg_slots := copyInto [x] (unat (rg_write q)) 1 (rg_slots q),
        rg_write := rg_write q + word_of_nat 1\<rparr>"
      using assms(1,3) Cons by (auto simp: spsc_put_def spsc_push_copyInto)
    have "1 \<le> length (rg_slots q) - (unat (rg_write q) - unat (rg_read q))" using False by linarith
    moreover have "unat (rg_write q) + 1 < 2 ^ 64" using budget_room [of 1 q] assms(2) Cons by simp
    ultimately show ?thesis using ring_write_ok [OF assms(1) _ _ _ q'(2)] q'(1) Cons by fastforce
  qed
qed

lemma spsc_pop_ok:
  assumes "ring_ok q"
  shows "spsc_pop q = (case ring_contents q of [] \<Rightarrow> (None, q)
    | x # _ \<Rightarrow> (Some x, snd (sample_read 1 q)))"
proof (cases "rg_read q = rg_write q")
  case True
  then show ?thesis by (simp add: spsc_pop_def ring_contents_def)
next
  case False
  then have "unat (rg_read q) \<noteq> unat (rg_write q)" by (simp add: word_unat_eq_iff)
  then have lt: "unat (rg_read q) < unat (rg_write q)" using assms by (simp add: ring_ok_def)
  then have "ring_contents q = rg_slots q ! (unat (rg_read q) mod length (rg_slots q)) #
      map (\<lambda>k. rg_slots q ! (k mod length (rg_slots q))) [Suc (unat (rg_read q))..<unat (rg_write q)]"
    by (simp add: ring_contents_def upt_conv_Cons)
  moreover have "snd (sample_read 1 q) = q\<lparr>rg_read := rg_read q + 1\<rparr>"
    using lt by (simp add: sample_read_def Let_def ring_used [OF assms] min_def)
  ultimately show ?thesis using False by (simp add: spsc_pop_def Let_def)
qed

lemma spsc_get_ok:
  assumes "ring_ok q" "spsc_get n q = (ys, q')"
  shows "ring_ok q' \<and> ring_contents q = ys @ ring_contents q' \<and>
    length ys = min n (length (ring_contents q)) \<and> ring_capacity q' = ring_capacity q \<and>
    ring_budget q' = ring_budget q"
  using assms
proof (induction n arbitrary: q ys)
  case 0
  then show ?case by simp
next
  case (Suc n)
  show ?case
  proof (cases "ring_contents q")
    case Nil
    have "spsc_pop q = (None, q)" using spsc_pop_ok [OF Suc.prems(1)] Nil by simp
    with Suc.prems have "ys = []" "q' = q" by simp_all
    with Suc.prems(1) Nil show ?thesis by simp
  next
    case (Cons x xs)
    obtain zs q1 where r: "sample_read 1 q = (zs, q1)" by (cases "sample_read 1 q")
    note one = sample_read_ok [OF Suc.prems(1) r]
    then have "zs @ ring_contents q1 = x # xs" "length zs = 1" using Cons by simp_all
    then have zs: "zs = [x]" "ring_contents q1 = xs" by (cases zs; simp)+
    have "spsc_pop q = (Some x, q1)" using spsc_pop_ok [OF Suc.prems(1)] Cons r by simp
    then obtain ys1 where g: "spsc_get n q1 = (ys1, q')" "ys = x # ys1"
      using Suc.prems(2) by (cases "spsc_get n q1") simp
    have "ring_ok q1" using one by blast
    note IH = Suc.IH [OF this g(1)]
    have "xs = ys1 @ ring_contents q'" "length ys1 = min n (length xs)"
      using IH zs(2) by (metis, metis)
    moreover have "ring_ok q'" "ring_capacity q' = ring_capacity q" "ring_budget q' = ring_budget q"
      using IH one by (metis, metis, metis)
    ultimately show ?thesis by (simp only: Cons g(2) append_Cons list.size min_Suc_Suc simp_thms)
  qed
qed

interpretation spsc: bounded_fifo spsc_put spsc_get ring_contents ring_capacity ring_budget ring_ok
  by unfold_locales (erule ring_ok_bound, erule (2) spsc_put_ok, erule (1) spsc_get_ok)

interpretation sample_ring: bounded_fifo sample_write sample_read ring_contents ring_capacity ring_budget ring_ok
  by unfold_locales (erule ring_ok_bound, erule (2) sample_write_ok, erule (1) sample_read_ok)

interpretation audio_ring: bounded_fifo audio_write audio_read ring_contents ring_capacity ring_budget ring_ok
  unfolding audio_read_sample_read
  by unfold_locales (erule ring_ok_bound, erule (2) audio_write_ok, erule (1) sample_read_ok)

lemma ring_new_ok:
  "ring_ok (spsc_new n x)" "ring_contents (spsc_new n x) = []" "ring_capacity (spsc_new n x) = max 1 n"
  "ring_ok (sample_ring_new n x)" "ring_contents (sample_ring_new n x) = []"
  "ring_capacity (sample_ring_new n x) = max 1 n"
  "0 < n \<Longrightarrow> ring_ok (audio_ring_new n x)" "ring_contents (audio_ring_new n x) = []"
  "ring_budget (spsc_new n x) = 2 ^ 64 - 1" "ring_budget (sample_ring_new n x) = 2 ^ 64 - 1"
  "ring_budget (audio_ring_new n x) = 2 ^ 64 - 1"
  by (simp_all add: ring_ok_def ring_contents_def spsc_new_def sample_ring_new_def audio_ring_new_def
      ring_capacity_def ring_budget_def)

lemma discard_ok:
  "ring_ok q \<Longrightarrow> ring_ok (discardByConsumer q) \<and> ring_contents (discardByConsumer q) = [] \<and>
    ring_capacity (discardByConsumer q) = ring_capacity q \<and> ring_budget (discardByConsumer q) = ring_budget q"
  by (simp add: discardByConsumer_def ring_ok_def ring_contents_def ring_capacity_def ring_budget_def)

subsection \<open>The queue between two threads\<close>

text \<open>
  The producer loads both positions, checks for room, copies, then stores its position; the
  consumer does the same on its side. A load of the other side's position may return any value
  that position had since the last load: \<open>tq_seen_read\<close> and \<open>tq_seen_write\<close> are those values,
  refreshed by separate steps. \<open>tq_pushed\<close> and \<open>tq_popped\<close> record what went in and out.
\<close>

datatype 'a producer = P_idle | P_write 'a | P_publish
datatype 'a consumer = C_idle | C_read | C_publish 'a

record 'a thread_queue =
  tq_ring :: "'a ring"
  tq_seen_read :: u64
  tq_seen_write :: u64
  tq_producer :: "'a producer"
  tq_consumer :: "'a consumer"
  tq_pushed :: "'a list"
  tq_popped :: "'a list"

definition write_slot :: "'a thread_queue \<Rightarrow> nat" where
  "write_slot t = unat (rg_write (tq_ring t)) mod length (rg_slots (tq_ring t))"

definition read_slot :: "'a thread_queue \<Rightarrow> nat" where
  "read_slot t = unat (rg_read (tq_ring t)) mod length (rg_slots (tq_ring t))"

inductive spsc_step :: "'a thread_queue \<Rightarrow> 'a thread_queue \<Rightarrow> bool" where
  load_read: "tq_producer t = P_idle \<Longrightarrow>
    spsc_step t (t\<lparr>tq_seen_read := rg_read (tq_ring t)\<rparr>)"
| load_write: "tq_consumer t = C_idle \<Longrightarrow>
    spsc_step t (t\<lparr>tq_seen_write := rg_write (tq_ring t)\<rparr>)"
| push_begin: "tq_producer t = P_idle \<Longrightarrow>
    unat (rg_write (tq_ring t) - tq_seen_read t) < length (rg_slots (tq_ring t)) \<Longrightarrow>
    unat (rg_write (tq_ring t)) + 1 < 2 ^ 64 \<Longrightarrow>
    spsc_step t (t\<lparr>tq_producer := P_write v\<rparr>)"
| push_copy: "tq_producer t = P_write v \<Longrightarrow>
    spsc_step t (t\<lparr>tq_ring := (tq_ring t)\<lparr>rg_slots := (rg_slots (tq_ring t))[write_slot t := v]\<rparr>,
      tq_producer := P_publish, tq_pushed := tq_pushed t @ [v]\<rparr>)"
| push_publish: "tq_producer t = P_publish \<Longrightarrow>
    spsc_step t (t\<lparr>tq_ring := (tq_ring t)\<lparr>rg_write := rg_write (tq_ring t) + 1\<rparr>,
      tq_producer := P_idle\<rparr>)"
| pop_begin: "tq_consumer t = C_idle \<Longrightarrow> rg_read (tq_ring t) \<noteq> tq_seen_write t \<Longrightarrow>
    spsc_step t (t\<lparr>tq_consumer := C_read\<rparr>)"
| pop_copy: "tq_consumer t = C_read \<Longrightarrow>
    spsc_step t (t\<lparr>tq_consumer := C_publish (rg_slots (tq_ring t) ! read_slot t)\<rparr>)"
| pop_publish: "tq_consumer t = C_publish v \<Longrightarrow>
    spsc_step t (t\<lparr>tq_ring := (tq_ring t)\<lparr>rg_read := rg_read (tq_ring t) + 1\<rparr>,
      tq_consumer := C_idle, tq_popped := tq_popped t @ [v]\<rparr>)"

inductive_cases spsc_step_cases: "spsc_step t t'"

definition spsc_init :: "'a thread_queue \<Rightarrow> bool" where
  "spsc_init t \<longleftrightarrow> rg_slots (tq_ring t) \<noteq> [] \<and> rg_read (tq_ring t) = 0 \<and> rg_write (tq_ring t) = 0 \<and>
     tq_seen_read t = 0 \<and> tq_seen_write t = 0 \<and> tq_producer t = P_idle \<and> tq_consumer t = C_idle \<and>
     tq_pushed t = [] \<and> tq_popped t = []"

text \<open>The positions are the lengths of the histories, the slots between them hold the history,
  and neither side's view is ahead of the other.\<close>

definition spsc_inv :: "'a thread_queue \<Rightarrow> bool" where
  "spsc_inv t \<longleftrightarrow> (let n = length (rg_slots (tq_ring t)); r = unat (rg_read (tq_ring t));
       w = unat (rg_write (tq_ring t)) in
     0 < n \<and> r \<le> w \<and> w - r \<le> n \<and> unat (tq_seen_read t) \<le> r \<and> unat (tq_seen_write t) \<le> w \<and>
     r \<le> unat (tq_seen_write t) \<and> w \<le> unat (tq_seen_read t) + n \<and>
     length (tq_popped t) = r \<and> tq_popped t = take r (tq_pushed t) \<and>
     length (tq_pushed t) = (if tq_producer t = P_publish then w + 1 else w) \<and>
     (\<forall>k. r \<le> k \<longrightarrow> k < length (tq_pushed t) \<longrightarrow> rg_slots (tq_ring t) ! (k mod n) = tq_pushed t ! k) \<and>
     (tq_producer t \<noteq> P_idle \<longrightarrow> w < unat (tq_seen_read t) + n \<and> w + 1 < 2 ^ 64) \<and>
     (tq_consumer t \<noteq> C_idle \<longrightarrow> r < unat (tq_seen_write t)) \<and>
     (\<forall>v. tq_consumer t = C_publish v \<longrightarrow> v = tq_pushed t ! r))"

lemma mod_neq:
  assumes "k < w" "w < k + n" shows "(k::nat) mod n \<noteq> w mod n"
proof
  assume "k mod n = w mod n"
  then have "n dvd w - k" using assms(1) by (metis less_imp_le_nat mod_eq_dvd_iff_nat)
  with assms show False by (auto dest: dvd_imp_le)
qed

lemma position_Suc: "unat (p :: u64) + 1 < 2 ^ 64 \<Longrightarrow> unat (p + 1) = unat p + 1"
  using position_advance [of p 1] by simp

lemma spsc_inv_init: "spsc_init t \<Longrightarrow> spsc_inv t"
  by (simp add: spsc_init_def spsc_inv_def Let_def)

lemma spsc_inv_step:
  assumes "spsc_step t t'" "spsc_inv t" shows "spsc_inv t'"
  using assms(1)
proof cases
  case load_read
  with assms(2) show ?thesis by (auto simp: spsc_inv_def Let_def)
next
  case load_write
  with assms(2) show ?thesis by (auto simp: spsc_inv_def Let_def)
next
  case (push_begin v)
  then have "unat (rg_write (tq_ring t)) < unat (tq_seen_read t) + length (rg_slots (tq_ring t))"
    using assms(2) by (simp add: spsc_inv_def Let_def unat_sub word_le_nat_alt)
  with push_begin assms(2) show ?thesis by (auto simp: spsc_inv_def Let_def)
next
  case (push_copy v)
  let ?n = "length (rg_slots (tq_ring t))" and ?r = "unat (rg_read (tq_ring t))"
    and ?w = "unat (rg_write (tq_ring t))"
  have inv: "0 < ?n" "?r \<le> ?w" "?w < ?r + ?n" "length (tq_pushed t) = ?w"
    "\<And>k. ?r \<le> k \<Longrightarrow> k < ?w \<Longrightarrow> rg_slots (tq_ring t) ! (k mod ?n) = tq_pushed t ! k"
    using assms(2) push_copy by (auto simp: spsc_inv_def Let_def)
  have slots: "(rg_slots (tq_ring t))[?w mod ?n := v] ! (k mod ?n) = (tq_pushed t @ [v]) ! k"
    if "?r \<le> k" "k < ?w + 1" for k
    using that inv mod_neq [of k ?w ?n] by (cases "k = ?w") (auto simp: nth_append)
  show ?thesis
    using assms(2) push_copy(2) slots inv unfolding push_copy(1)
    by (auto simp: spsc_inv_def Let_def write_slot_def nth_append)
next
  case push_publish
  then have "unat (rg_write (tq_ring t)) + 1 < 2 ^ 64" using assms(2) by (simp add: spsc_inv_def Let_def)
  note w' = position_Suc [OF this]
  show ?thesis
    using assms(2) push_publish(2) unfolding push_publish(1) by (auto simp: spsc_inv_def Let_def w')
next
  case pop_begin
  then have "unat (rg_read (tq_ring t)) \<noteq> unat (tq_seen_write t)" by (simp add: word_unat_eq_iff)
  with pop_begin assms(2) show ?thesis by (auto simp: spsc_inv_def Let_def)
next
  case pop_copy
  with assms(2) show ?thesis by (auto simp: spsc_inv_def Let_def read_slot_def)
next
  case (pop_publish v)
  have lt: "unat (rg_read (tq_ring t)) < unat (rg_write (tq_ring t))"
    using assms(2) pop_publish by (auto simp: spsc_inv_def Let_def)
  then have "unat (rg_read (tq_ring t)) + 1 < 2 ^ 64"
    using unsigned_less [of "rg_write (tq_ring t)", where 'a = nat] by simp
  note r' = position_Suc [OF this]
  have "v = tq_pushed t ! unat (rg_read (tq_ring t))"
    "unat (rg_read (tq_ring t)) < length (tq_pushed t)"
    using assms(2) pop_publish lt by (auto simp: spsc_inv_def Let_def)
  then have "take (unat (rg_read (tq_ring t)) + 1) (tq_pushed t) = take (unat (rg_read (tq_ring t))) (tq_pushed t) @ [v]"
    by (simp add: take_Suc_conv_app_nth)
  with assms(2) pop_publish(2) show ?thesis
    unfolding pop_publish(1) by (auto simp: spsc_inv_def Let_def r')
qed

interpretation spsc_threads: step_system spsc_init spsc_step spsc_inv
  by unfold_locales (auto intro: spsc_inv_init spsc_inv_step)

subsection \<open>Properties\<close>


definition example_threads :: "nat thread_queue" where
  "example_threads = \<lparr>tq_ring = spsc_new 2 0, tq_seen_read = 0, tq_seen_write = 0,
     tq_producer = P_idle, tq_consumer = C_idle, tq_pushed = [], tq_popped = []\<rparr>"




end
