(* ===== verification/AudioProcessor.thy ===== *)
theory AudioProcessor
  imports VoicePackets RingBuffers "HOL-Library.Signed_Division"
begin

section \<open>The voice audio worker\<close>

text \<open>
  \<open>audio/gVoiceAudioProcessor.h\<close> and \<open>.cpp\<close>: capture staging, encoding, the outgoing and
  incoming queues, the per-speaker jitter buffer with packet-loss concealment, mixing and
  playback. Opus is third-party code and a parameter: a decoder or encoder is a value of the
  type \<open>'d\<close>, what \<open>setup\<close> gave is an argument of the operations that call it, and the record
  \<open>opus\<close> holds \<open>decode\<close> and \<open>encode\<close>. Every public operation and every step of the worker that
  holds the work mutex is one definition; time is a number of nanoseconds.
\<close>

type_synonym sample = "16 word"

definition FRAME_MILLISECONDS :: int where "FRAME_MILLISECONDS = 20"
definition SAMPLERATE :: nat where "SAMPLERATE = 48000"
definition FRAME_SAMPLES :: nat where "FRAME_SAMPLES = SAMPLERATE * nat FRAME_MILLISECONDS div 1000"
definition MAX_FORWARD_SEQUENCE_JUMP :: u32 where "MAX_FORWARD_SEQUENCE_JUMP = 250"

definition milliseconds :: "int \<Rightarrow> int" where "milliseconds n = n * 1000000"

lemma FRAME_SAMPLES_eq [simp]: "FRAME_SAMPLES = 960"
  by (simp add: FRAME_SAMPLES_def SAMPLERATE_def FRAME_MILLISECONDS_def)

subsection \<open>Frames and state\<close>

record PcmFrame =
  pcm_samples :: "sample list"
  pcm_sessionepoch :: u64
  pcm_captureepoch :: u64
  pcm_sampleposition :: u64
  pcm_discontinuity :: bool

text \<open>The payload arrays with their sizes are the byte lists of that size.\<close>

record EncodedFrame =
  ef_flags :: u8
  ef_sessionepoch :: u64
  ef_captureepoch :: u64
  ef_sessionid :: u64
  ef_membershipgeneration :: u32
  ef_streamgeneration :: u32
  ef_sequence :: u32
  ef_sampleposition :: u64
  ef_payload :: bytes

record RemoteFrame =
  rf_flags :: u8
  rf_sessionepoch :: u64
  rf_speakerid :: u64
  rf_speakergeneration :: u32
  rf_streamgeneration :: u32
  rf_sequence :: u32
  rf_sampleposition :: u64
  rf_payload :: bytes

record AudioConfig =
  captureframes :: nat
  outgoingpackets :: nat
  incomingpackets :: nat
  playbackframes :: nat
  maxspeakers :: nat
  jitterpackets :: nat
  initialjitterpackets :: nat
  maxplcframes :: int
  speakertimeoutmilliseconds :: int

definition audio_config_default :: AudioConfig where
  "audio_config_default = \<lparr>captureframes = 8, outgoingpackets = 8, incomingpackets = 256,
     playbackframes = 6, maxspeakers = 32, jitterpackets = 12, initialjitterpackets = 4,
     maxplcframes = 5, speakertimeoutmilliseconds = 2000\<rparr>"

definition sanitizeConfig :: "AudioConfig \<Rightarrow> AudioConfig" where
  "sanitizeConfig config =
     (let config = config\<lparr>captureframes := max 1 (min (captureframes config) 256)\<rparr>;
          config = config\<lparr>outgoingpackets := max 1 (min (outgoingpackets config) 1024)\<rparr>;
          config = config\<lparr>incomingpackets := max 1 (min (incomingpackets config) 4096)\<rparr>;
          config = config\<lparr>playbackframes := max 1 (min (playbackframes config) 256)\<rparr>;
          config = config\<lparr>maxspeakers := max 1 (min (maxspeakers config) 256)\<rparr>;
          config = config\<lparr>jitterpackets := max 1 (min (jitterpackets config) 256)\<rparr>;
          config = config\<lparr>initialjitterpackets :=
            max 1 (min (initialjitterpackets config) (jitterpackets config))\<rparr>;
          config = config\<lparr>maxplcframes := max 0 (min (maxplcframes config) 100)\<rparr>;
          config = config\<lparr>speakertimeoutmilliseconds :=
            max FRAME_MILLISECONDS (min (speakertimeoutmilliseconds config) 60000)\<rparr>
      in config)"

record 'f SpeakerControl =
  sc_muted :: bool
  sc_volume :: 'f

record 'd Speaker =
  sp_speakerid :: u64
  sp_speakergeneration :: u32
  sp_streamgeneration :: u32
  sp_codec :: 'd
  sp_jitter :: "RemoteFrame list"
  sp_playing :: bool
  sp_hasexpected :: bool
  sp_expectedsequence :: u32
  sp_hashighest :: bool
  sp_highestsequence :: u32
  sp_consecutivemissing :: int
  sp_firstarrival :: int
  sp_lastactivity :: int
  sp_nextplayout :: int
  sp_receivedpackets :: u64
  sp_decodedpackets :: u64
  sp_missingpackets :: u64
  sp_plcframes :: u64
  sp_decodeerrors :: u64

record 'f SpeakerStats =
  sst_speakerid :: u64
  sst_received :: u64
  sst_decoded :: u64
  sst_missing :: u64
  sst_plc :: u64
  sst_errors :: u64
  sst_lastactivitymilliseconds :: u64
  sst_jitterdepth :: nat
  sst_muted :: bool
  sst_volume :: 'f

record AudioCounters =
  c_capturedframes :: u64
  c_captureoverruns :: u64
  c_encodedpackets :: u64
  c_encodeerrors :: u64
  c_outgoingqueuedrops :: u64
  c_receivedpackets :: u64
  c_receivedbytes :: u64
  c_incomingqueuedrops :: u64
  c_duplicatepackets :: u64
  c_latepackets :: u64
  c_reorderedpackets :: u64
  c_missingpackets :: u64
  c_plcframes :: u64
  c_decodedpackets :: u64
  c_decodeerrors :: u64
  c_mixedframes :: u64
  c_playbackoverruns :: u64
  c_playbackunderruns :: u64
  c_jitterdepth :: nat
  c_activespeakers :: nat

record ('f, 'd) AudioState =
  a_config :: AudioConfig
  a_running :: bool
  a_enabled :: bool
  a_transmitting :: bool
  a_localmuted :: bool
  a_sessionid :: u64
  a_membershipgeneration :: u32
  a_localplayerid :: u64
  a_sessionepoch :: u64
  a_captureepoch :: u64
  a_encoder :: "'d option"
  a_streamgeneration :: u32
  a_capturequeue :: "PcmFrame ring"
  a_playbackring :: "sample ring"
  a_staging :: "sample list"
  a_stagingposition :: u64
  a_stagingsessionepoch :: u64
  a_stagingepoch :: u64
  a_captureposition :: u64
  a_capturediscontinuity :: bool
  a_outgoing :: "EncodedFrame list"
  a_incoming :: "RemoteFrame list"
  a_speakers :: "(u64, 'd Speaker) umap"
  a_speakercontrols :: "(u64, 'f SpeakerControl) umap"
  a_speakersnapshot :: "'f SpeakerStats list"
  a_lasterror :: string
  a_playbackactive :: bool
  a_playbackclearrequested :: bool
  a_counters :: AudioCounters

text \<open>The staging array and its count are the list of the samples staged so far.\<close>

definition zero_counters :: AudioCounters where
  "zero_counters = \<lparr>c_capturedframes = 0, c_captureoverruns = 0, c_encodedpackets = 0,
     c_encodeerrors = 0, c_outgoingqueuedrops = 0, c_receivedpackets = 0, c_receivedbytes = 0,
     c_incomingqueuedrops = 0, c_duplicatepackets = 0, c_latepackets = 0, c_reorderedpackets = 0,
     c_missingpackets = 0, c_plcframes = 0, c_decodedpackets = 0, c_decodeerrors = 0,
     c_mixedframes = 0, c_playbackoverruns = 0, c_playbackunderruns = 0, c_jitterdepth = 0,
     c_activespeakers = 0\<rparr>"

definition empty_pcm :: PcmFrame where
  "empty_pcm = \<lparr>pcm_samples = replicate FRAME_SAMPLES 0, pcm_sessionepoch = 0, pcm_captureepoch = 0,
     pcm_sampleposition = 0, pcm_discontinuity = False\<rparr>"

definition audio_state :: "AudioConfig \<Rightarrow> ('f, 'd) AudioState" where
  "audio_state requested = (let config = sanitizeConfig requested in
     \<lparr>a_config = config, a_running = False, a_enabled = True, a_transmitting = False,
      a_localmuted = False, a_sessionid = 0, a_membershipgeneration = 0, a_localplayerid = 0,
      a_sessionepoch = 2, a_captureepoch = 1, a_encoder = None, a_streamgeneration = 0,
      a_capturequeue = spsc_new (captureframes config) empty_pcm,
      a_playbackring = sample_ring_new (playbackframes config * FRAME_SAMPLES) 0,
      a_staging = [], a_stagingposition = 0, a_stagingsessionepoch = 0, a_stagingepoch = 0,
      a_captureposition = 0, a_capturediscontinuity = False, a_outgoing = [], a_incoming = [],
      a_speakers = [], a_speakercontrols = [], a_speakersnapshot = [], a_lasterror = [],
      a_playbackactive = False, a_playbackclearrequested = False, a_counters = zero_counters\<rparr>)"

record 'd opus =
  op_decode :: "'d \<Rightarrow> bytes option \<Rightarrow> int \<times> sample list \<times> 'd"
  op_encode :: "'d \<Rightarrow> sample list \<Rightarrow> int \<times> bytes \<times> 'd"
  op_error :: "'d option \<Rightarrow> string"

subsection \<open>Small operations\<close>

definition bump :: "(AudioCounters \<Rightarrow> AudioCounters) \<Rightarrow> ('f, 'd) AudioState \<Rightarrow> ('f, 'd) AudioState" where
  "bump f s = s\<lparr>a_counters := f (a_counters s)\<rparr>"

abbreviation count_late :: "AudioCounters \<Rightarrow> AudioCounters" where
  "count_late c \<equiv> c\<lparr>c_latepackets := c_latepackets c + 1\<rparr>"
abbreviation count_duplicate :: "AudioCounters \<Rightarrow> AudioCounters" where
  "count_duplicate c \<equiv> c\<lparr>c_duplicatepackets := c_duplicatepackets c + 1\<rparr>"
abbreviation count_reordered :: "AudioCounters \<Rightarrow> AudioCounters" where
  "count_reordered c \<equiv> c\<lparr>c_reorderedpackets := c_reorderedpackets c + 1\<rparr>"
abbreviation count_decodeerror :: "AudioCounters \<Rightarrow> AudioCounters" where
  "count_decodeerror c \<equiv> c\<lparr>c_decodeerrors := c_decodeerrors c + 1\<rparr>"

definition audio_setError :: "string \<Rightarrow> ('f, 'd) AudioState \<Rightarrow> ('f, 'd) AudioState" where
  "audio_setError e s = s\<lparr>a_lasterror := e\<rparr>"

definition clearOutgoing :: "('f, 'd) AudioState \<Rightarrow> ('f, 'd) AudioState" where
  "clearOutgoing s = s\<lparr>a_outgoing := []\<rparr>"

definition clearIncoming :: "('f, 'd) AudioState \<Rightarrow> ('f, 'd) AudioState" where
  "clearIncoming s = s\<lparr>a_incoming := []\<rparr>"

definition captureActive :: "('f, 'd) AudioState \<Rightarrow> bool" where
  "captureActive s \<longleftrightarrow> a_enabled s \<and> a_transmitting s \<and> \<not> a_localmuted s \<and> a_sessionid s \<noteq> 0 \<and>
     a_membershipgeneration s \<noteq> 0"

definition epoch_odd :: "u64 \<Rightarrow> bool" where
  "epoch_odd e \<longleftrightarrow> e AND 1 \<noteq> 0"

definition clearWorkerState :: "('f, 'd) AudioState \<Rightarrow> ('f, 'd) AudioState" where
  "clearWorkerState s = s\<lparr>a_speakers := [], a_capturequeue := discardByConsumer (a_capturequeue s),
     a_playbackclearrequested := True, a_playbackactive := False,
     a_counters := (a_counters s)\<lparr>c_activespeakers := 0, c_jitterdepth := 0\<rparr>,
     a_speakersnapshot := []\<rparr>"

definition next_stream :: "u32 \<Rightarrow> u32" where
  "next_stream g = (let g = g + 1 in if g = 0 then g + 1 else g)"

subsection \<open>Capture and playback callbacks\<close>

definition finish_frame :: "('f, 'd) AudioState \<Rightarrow> ('f, 'd) AudioState" where
  "finish_frame s =
     (let frame = \<lparr>pcm_samples = a_staging s, pcm_sessionepoch = a_stagingsessionepoch s,
            pcm_captureepoch = a_stagingepoch s, pcm_sampleposition = a_stagingposition s,
            pcm_discontinuity = a_capturediscontinuity s\<rparr>;
          (pushed, queue) = spsc_push frame (a_capturequeue s);
          s = s\<lparr>a_capturequeue := queue\<rparr>;
          s = (if pushed
            then (bump (\<lambda>c. c\<lparr>c_capturedframes := c_capturedframes c + 1\<rparr>) s)
                   \<lparr>a_capturediscontinuity := False\<rparr>
            else (bump (\<lambda>c. c\<lparr>c_captureoverruns := c_captureoverruns c + 1\<rparr>) s)
                   \<lparr>a_capturediscontinuity := True\<rparr>)
      in s\<lparr>a_staging := []\<rparr>)"

definition capture_turn ::
  "u64 \<Rightarrow> u64 \<Rightarrow> u64 \<Rightarrow> sample list \<Rightarrow> ('f, 'd) AudioState \<Rightarrow> nat \<times> ('f, 'd) AudioState" where
  "capture_turn sessionepoch captureepoch position input s =
     (let s = (if a_staging s = [] then s\<lparr>a_stagingposition := position,
                 a_stagingsessionepoch := sessionepoch, a_stagingepoch := captureepoch\<rparr> else s);
          copy = min (length input) (FRAME_SAMPLES - length (a_staging s));
          s = s\<lparr>a_staging := a_staging s @ take copy input\<rparr>
      in (copy, if length (a_staging s) = FRAME_SAMPLES then finish_frame s else s))"

text \<open>One turn of the staging loop per unit of fuel; every turn consumes a sample, so as many
  turns as samples are enough (\<open>capture_loop_core\<close>).\<close>

primrec capture_loop ::
  "nat \<Rightarrow> u64 \<Rightarrow> u64 \<Rightarrow> u64 \<Rightarrow> sample list \<Rightarrow> ('f, 'd) AudioState \<Rightarrow> sample list \<times> ('f, 'd) AudioState" where
  "capture_loop 0 sessionepoch captureepoch position input s = (input, s)"
| "capture_loop (Suc n) sessionepoch captureepoch position input s =
     (if input = [] then (input, s) else
      case capture_turn sessionepoch captureepoch position input s of (copy, s) \<Rightarrow>
        capture_loop n sessionepoch captureepoch (position + word_of_nat copy) (drop copy input) s)"

definition pushCaptured :: "sample list option \<Rightarrow> ('f, 'd) AudioState \<Rightarrow> ('f, 'd) AudioState" where
  "pushCaptured input s = (case input of None \<Rightarrow> s | Some input \<Rightarrow>
     if input = [] then s
     else let sessionepoch = a_sessionepoch s; captureepoch = a_captureepoch s;
              samplecount = word_of_nat (length input) in
       if \<not> a_running s \<or> epoch_odd sessionepoch \<or> \<not> captureActive s
         then s\<lparr>a_staging := [], a_captureposition := a_captureposition s + samplecount\<rparr>
       else let s = (if a_staging s \<noteq> [] \<and> (a_stagingsessionepoch s \<noteq> sessionepoch
                  \<or> a_stagingepoch s \<noteq> captureepoch)
                then s\<lparr>a_staging := [], a_capturediscontinuity := True\<rparr> else s);
              s = snd (capture_loop (length input) sessionepoch captureepoch (a_captureposition s) input s)
         in s\<lparr>a_captureposition := a_captureposition s + samplecount\<rparr>)"

text \<open>\<open>popPlayback\<close> returns the number of samples it had and what it wrote to the output.\<close>

definition popPlayback :: "nat option \<Rightarrow> ('f, 'd) AudioState \<Rightarrow> (nat \<times> sample list) \<times> ('f, 'd) AudioState" where
  "popPlayback output s = (case output of None \<Rightarrow> ((0, []), s) | Some samplecount \<Rightarrow>
     if samplecount = 0 then ((0, []), s)
     else let s = (if a_playbackclearrequested s
                then s\<lparr>a_playbackclearrequested := False,
                       a_playbackring := discardByConsumer (a_playbackring s)\<rparr> else s);
              (out, ring) = sample_read samplecount (a_playbackring s);
              s = s\<lparr>a_playbackring := ring\<rparr>;
              n = length out;
              s = (if n < samplecount \<and> a_playbackactive s
                then bump (\<lambda>c. c\<lparr>c_playbackunderruns := c_playbackunderruns c + 1\<rparr>) s else s)
         in ((n, out @ replicate (samplecount - n) 0), s))"

subsection \<open>Mixing\<close>

text \<open>\<open>mixFrames\<close>: the sum of a position over the inputs that are not null, divided by the
  number of inputs, truncated towards zero and clamped. The sum is a 32-bit \<open>int\<close>; leaving its
  range is undefined and gives \<open>None\<close>.\<close>

definition in_int32 :: "int \<Rightarrow> bool" where
  "in_int32 x \<longleftrightarrow> - (2 ^ 31) \<le> x \<and> x < 2 ^ 31"

fun mix_sum :: "sample list option list \<Rightarrow> nat \<Rightarrow> int \<Rightarrow> int option" where
  "mix_sum [] i acc = Some acc"
| "mix_sum (None # inputs) i acc = mix_sum inputs i acc"
| "mix_sum (Some input # inputs) i acc =
     (let acc = acc + sint (input ! i) in if in_int32 acc then mix_sum inputs i acc else None)"

definition mix_sample :: "sample list option list \<Rightarrow> nat \<Rightarrow> sample option" where
  "mix_sample inputs i = map_option (\<lambda>acc.
     let normalized = acc sdiv int (length inputs);
         normalized = max (- 32768) (min 32767 normalized)
     in word_of_int normalized) (mix_sum inputs i 0)"

definition mixFrames :: "sample list option list \<Rightarrow> nat \<Rightarrow> sample list option" where
  "mixFrames inputs samples =
     (if inputs = [] then Some (replicate samples 0)
      else those (map (mix_sample inputs) [0..<samples]))"

definition scale_sample :: "'f fops \<Rightarrow> 'f \<Rightarrow> sample \<Rightarrow> sample" where
  "scale_sample fl volume sample =
     (let scaled = fmul fl (flit fl (of_int (sint sample))) volume;
          scaled = fmax fl (flit fl (- 32768)) (fmin fl (flit fl 32767) scaled)
      in word_of_int (ftrunc fl scaled))"

subsection \<open>Encoding and the outgoing queue\<close>

definition encoded_frame ::
  "PcmFrame \<Rightarrow> u32 \<Rightarrow> u32 \<Rightarrow> bool \<Rightarrow> bytes \<Rightarrow> ('f, 'd) AudioState \<Rightarrow> EncodedFrame" where
  "encoded_frame frame streamgeneration sequence firstpacket payload s =
     (let flags = (if firstpacket then FLAG_STREAM_START else 0);
          flags = (if pcm_discontinuity frame then flags OR FLAG_DISCONTINUITY else flags)
      in \<lparr>ef_flags = flags, ef_sessionepoch = pcm_sessionepoch frame,
          ef_captureepoch = pcm_captureepoch frame, ef_sessionid = a_sessionid s,
          ef_membershipgeneration = a_membershipgeneration s,
          ef_streamgeneration = streamgeneration, ef_sequence = sequence,
          ef_sampleposition = pcm_sampleposition frame, ef_payload = payload\<rparr>)"

text \<open>The section under the outgoing mutex. When the queue is full its oldest frame is dropped and
  the frame that is now first, or the new one, is marked as following a gap.\<close>

definition enqueue_encoded :: "EncodedFrame \<Rightarrow> ('f, 'd) AudioState \<Rightarrow> ('f, 'd) AudioState" where
  "enqueue_encoded encoded s =
     (if length (a_outgoing s) \<ge> outgoingpackets (a_config s) then
        bump (\<lambda>c. c\<lparr>c_outgoingqueuedrops := c_outgoingqueuedrops c + 1\<rparr>)
          (case tl (a_outgoing s) of
             [] \<Rightarrow> s\<lparr>a_outgoing := [encoded\<lparr>ef_flags := ef_flags encoded OR FLAG_DISCONTINUITY\<rparr>]\<rparr>
           | first # rest \<Rightarrow> s\<lparr>a_outgoing :=
               first\<lparr>ef_flags := ef_flags first OR FLAG_DISCONTINUITY\<rparr> # rest @ [encoded]\<rparr>)
      else s\<lparr>a_outgoing := a_outgoing s @ [encoded]\<rparr>)"

definition encodeFrame ::
  "'d opus \<Rightarrow> PcmFrame \<Rightarrow> u32 \<Rightarrow> u32 \<Rightarrow> bool \<Rightarrow> ('f, 'd) AudioState \<Rightarrow> ('f, 'd) AudioState" where
  "encodeFrame op frame streamgeneration sequence firstpacket s = (case a_encoder s of None \<Rightarrow> s
   | Some encoder \<Rightarrow>
     if streamgeneration = 0 \<or> pcm_sessionepoch frame \<noteq> a_sessionepoch s
         \<or> pcm_captureepoch frame \<noteq> a_captureepoch s then s
     else let (bytes, payload, encoder) = op_encode op encoder (pcm_samples frame);
              s = s\<lparr>a_encoder := Some encoder\<rparr>
       in if bytes \<le> 0
          then audio_setError (op_error op (Some encoder))
                 (bump (\<lambda>c. c\<lparr>c_encodeerrors := c_encodeerrors c + 1\<rparr>) s)
          else let encoded = encoded_frame frame streamgeneration sequence firstpacket
                     (take (nat bytes) payload) s
            in if \<not> a_running s \<or> \<not> captureActive s \<or> ef_sessionepoch encoded \<noteq> a_sessionepoch s
                   \<or> ef_captureepoch encoded \<noteq> a_captureepoch s then s
               else bump (\<lambda>c. c\<lparr>c_encodedpackets := c_encodedpackets c + 1\<rparr>) (enqueue_encoded encoded s))"

text \<open>\<open>popOutgoingPacket\<close>: the loop discards frames of another epoch or session.\<close>

definition outgoing_current :: "('f, 'd) AudioState \<Rightarrow> EncodedFrame \<Rightarrow> bool" where
  "outgoing_current s encoded \<longleftrightarrow> ef_sessionepoch encoded = a_sessionepoch s \<and>
     ef_captureepoch encoded = a_captureepoch s \<and> ef_sessionid encoded = a_sessionid s \<and>
     ef_membershipgeneration encoded = a_membershipgeneration s"

fun pop_current :: "('f, 'd) AudioState \<Rightarrow> EncodedFrame list \<Rightarrow> EncodedFrame option \<times> EncodedFrame list" where
  "pop_current s [] = (None, [])"
| "pop_current s (encoded # rest) =
     (if outgoing_current s encoded then (Some encoded, rest) else pop_current s rest)"

definition outgoing_packet :: "EncodedFrame \<Rightarrow> gTeamVoiceUplinkPacket" where
  "outgoing_packet encoded = \<lparr>up_version = PROTOCOL_VERSION, up_flags = ef_flags encoded,
     up_sessionid = ef_sessionid encoded, up_membershipgeneration = ef_membershipgeneration encoded,
     up_streamgeneration = ef_streamgeneration encoded, up_sequence = ef_sequence encoded,
     up_sampleposition = ef_sampleposition encoded, up_payload = ef_payload encoded\<rparr>"

definition popOutgoingPacket ::
  "('f, 'd) AudioState \<Rightarrow> gTeamVoiceUplinkPacket option \<times> ('f, 'd) AudioState" where
  "popOutgoingPacket s =
     (if \<not> a_running s then (None, s)
      else if \<not> captureActive s then (None, s)
      else case pop_current s (a_outgoing s) of (found, rest) \<Rightarrow>
        (map_option outgoing_packet found, s\<lparr>a_outgoing := rest\<rparr>))"

subsection \<open>The incoming queue\<close>

definition pushIncomingPacket ::
  "gTeamVoiceDownlinkPacket \<Rightarrow> ('f, 'd) AudioState \<Rightarrow> bool \<times> ('f, 'd) AudioState" where
  "pushIncomingPacket packet s =
     (if gValidateTeamVoiceDownlinkPacket packet \<noteq> NONE then (False, s)
      else if epoch_odd (a_sessionepoch s) \<or> \<not> a_running s \<or> dn_sessionid packet \<noteq> a_sessionid s
          \<or> dn_recipientgeneration packet \<noteq> a_membershipgeneration s
          \<or> dn_speakerid packet = a_localplayerid s \<or> \<not> a_enabled s then (False, s)
      else let remote = \<lparr>rf_flags = dn_flags packet, rf_sessionepoch = a_sessionepoch s,
                 rf_speakerid = dn_speakerid packet, rf_speakergeneration = dn_speakergeneration packet,
                 rf_streamgeneration = dn_streamgeneration packet, rf_sequence = dn_sequence packet,
                 rf_sampleposition = dn_sampleposition packet, rf_payload = dn_payload packet\<rparr>;
               s = (if length (a_incoming s) \<ge> incomingpackets (a_config s)
                 then bump (\<lambda>c. c\<lparr>c_incomingqueuedrops := c_incomingqueuedrops c + 1\<rparr>)
                        (s\<lparr>a_incoming := tl (a_incoming s)\<rparr>) else s);
               s = s\<lparr>a_incoming := a_incoming s @ [remote]\<rparr>
           in (True, bump (\<lambda>c. c\<lparr>c_receivedpackets := c_receivedpackets c + 1,
                 c_receivedbytes := c_receivedbytes c + word_of_nat (length (dn_payload packet))\<rparr>) s))"

subsection \<open>The jitter buffer\<close>

text \<open>A failed Opus setup leaves the speaker as it is; \<open>setup\<close> is the codec or nothing.\<close>

definition resetSpeaker ::
  "'d opus \<Rightarrow> 'd option \<Rightarrow> RemoteFrame \<Rightarrow> int \<Rightarrow> 'd Speaker \<Rightarrow> ('f, 'd) AudioState
     \<Rightarrow> 'd Speaker option \<times> ('f, 'd) AudioState" where
  "resetSpeaker op setup frame now speaker s = (case setup of
     None \<Rightarrow> (None, audio_setError (op_error op None) (bump count_decodeerror s))
   | Some codec \<Rightarrow> (Some (speaker\<lparr>sp_codec := codec,
       sp_speakergeneration := rf_speakergeneration frame,
       sp_streamgeneration := rf_streamgeneration frame, sp_jitter := [], sp_playing := False,
       sp_hasexpected := False, sp_hashighest := False, sp_consecutivemissing := 0,
       sp_firstarrival := now, sp_lastactivity := now\<rparr>), s))"

definition speaker_new :: "u64 \<Rightarrow> int \<Rightarrow> 'd \<Rightarrow> 'd Speaker" where
  "speaker_new speakerid now codec = \<lparr>sp_speakerid = speakerid, sp_speakergeneration = 0,
     sp_streamgeneration = 0, sp_codec = codec, sp_jitter = [], sp_playing = False,
     sp_hasexpected = False, sp_expectedsequence = 0, sp_hashighest = False, sp_highestsequence = 0,
     sp_consecutivemissing = 0, sp_firstarrival = now, sp_lastactivity = now, sp_nextplayout = now,
     sp_receivedpackets = 0, sp_decodedpackets = 0, sp_missingpackets = 0, sp_plcframes = 0,
     sp_decodeerrors = 0\<rparr>"

text \<open>The scan for the oldest queued frame, with its index.\<close>

fun scan_oldest :: "nat \<Rightarrow> RemoteFrame \<Rightarrow> nat \<Rightarrow> RemoteFrame list \<Rightarrow> nat \<times> RemoteFrame" where
  "scan_oldest i oldest k [] = (i, oldest)"
| "scan_oldest i oldest k (candidate # rest) =
     (if gIsTeamVoiceSequenceNewer (rf_sequence oldest) (rf_sequence candidate)
      then scan_oldest k candidate (Suc k) rest else scan_oldest i oldest (Suc k) rest)"

definition oldest_frame :: "RemoteFrame list \<Rightarrow> (nat \<times> RemoteFrame) option" where
  "oldest_frame jitter = (case jitter of [] \<Rightarrow> None | f # rest \<Rightarrow> Some (scan_oldest 0 f 1 rest))"

text \<open>Whether the frame may go on to a speaker that is already known: \<open>Inl\<close> the counter of its
  drop, \<open>Inr True\<close> when the speaker has to be reset first.\<close>

definition admit_known :: "RemoteFrame \<Rightarrow> 'd Speaker \<Rightarrow> (AudioCounters \<Rightarrow> AudioCounters) + bool" where
  "admit_known frame speaker =
     (if rf_speakergeneration frame \<noteq> sp_speakergeneration speaker
         \<or> rf_streamgeneration frame \<noteq> sp_streamgeneration speaker
         \<or> rf_flags frame AND FLAG_DISCONTINUITY \<noteq> 0 then
        if rf_speakergeneration frame \<noteq> sp_speakergeneration speaker
            \<and> \<not> gIsTeamVoiceSequenceNewer (rf_speakergeneration frame) (sp_speakergeneration speaker)
          then Inl count_late
        else if rf_speakergeneration frame = sp_speakergeneration speaker
            \<and> rf_streamgeneration frame \<noteq> sp_streamgeneration speaker
            \<and> \<not> gIsTeamVoiceSequenceNewer (rf_streamgeneration frame) (sp_streamgeneration speaker)
          then Inl count_late
        else if rf_speakergeneration frame = sp_speakergeneration speaker
            \<and> rf_streamgeneration frame = sp_streamgeneration speaker \<and> sp_hashighest speaker
            \<and> \<not> gIsTeamVoiceSequenceNewer (rf_sequence frame) (sp_highestsequence speaker)
          then Inl (if rf_sequence frame = sp_highestsequence speaker then count_duplicate else count_late)
        else Inr True
      else Inr False)"

text \<open>The rest of \<open>addRemoteFrame\<close>, once the speaker is current: the new speaker and the counters.\<close>

definition enqueue_frame ::
  "AudioConfig \<Rightarrow> int \<Rightarrow> RemoteFrame \<Rightarrow> 'd Speaker \<Rightarrow> AudioCounters \<Rightarrow> 'd Speaker \<times> AudioCounters" where
  "enqueue_frame config now frame speaker counters =
     (if sp_hasexpected speaker \<and> rf_sequence frame \<noteq> sp_expectedsequence speaker
         \<and> \<not> gIsTeamVoiceSequenceNewer (rf_sequence frame) (sp_expectedsequence speaker)
       then (speaker, count_late counters)
      else if sp_hasexpected speaker
         \<and> gIsTeamVoiceSequenceNewer (rf_sequence frame) (sp_expectedsequence speaker)
         \<and> gTeamVoiceSequenceDistance (rf_sequence frame) (sp_expectedsequence speaker)
             > MAX_FORWARD_SEQUENCE_JUMP
       then (speaker, count_late counters)
      else if list_ex (\<lambda>queued. rf_sequence queued = rf_sequence frame) (sp_jitter speaker)
       then (speaker, count_duplicate counters)
      else let newest = (\<not> sp_hashighest speaker
                 \<or> gIsTeamVoiceSequenceNewer (rf_sequence frame) (sp_highestsequence speaker));
               counters = (if sp_hashighest speaker
                   \<and> \<not> gIsTeamVoiceSequenceNewer (rf_sequence frame) (sp_highestsequence speaker)
                 then count_reordered counters else counters);
               speaker = (if newest then speaker\<lparr>sp_highestsequence := rf_sequence frame,
                   sp_hashighest := True\<rparr> else speaker);
               stored = (\<lambda>jitter. speaker\<lparr>sp_jitter := jitter, sp_lastactivity := now,
                   sp_receivedpackets := sp_receivedpackets speaker + 1\<rparr>)
        in if length (sp_jitter speaker) \<ge> jitterpackets config
           then (case oldest_frame (sp_jitter speaker) of
               None \<Rightarrow> (speaker, count_late counters)
             | Some (i, oldest) \<Rightarrow>
                 if gIsTeamVoiceSequenceNewer (rf_sequence frame) (rf_sequence oldest)
                 then (stored ((sp_jitter speaker)[i := frame]), counters)
                 else (speaker, count_late counters))
           else (stored (sp_jitter speaker @ [frame]), counters))"

definition addRemoteFrame ::
  "'d opus \<Rightarrow> 'd option \<Rightarrow> int \<Rightarrow> RemoteFrame \<Rightarrow> ('f, 'd) AudioState \<Rightarrow> ('f, 'd) AudioState" where
  "addRemoteFrame op setup now frame s =
     (let enqueue = (\<lambda>speaker s. case enqueue_frame (a_config s) now frame speaker (a_counters s) of
            (speaker, counters) \<Rightarrow> s\<lparr>a_counters := counters,
              a_speakers := um_put (rf_speakerid frame) speaker (a_speakers s)\<rparr>)
      in case um_find (a_speakers s) (rf_speakerid frame) of
        None \<Rightarrow>
          if length (a_speakers s) \<ge> maxspeakers (a_config s) then bump count_late s
          else (case setup of
              None \<Rightarrow> audio_setError (op_error op None) (bump count_decodeerror s)
            | Some codec \<Rightarrow> (case resetSpeaker op setup frame now
                  (speaker_new (rf_speakerid frame) now codec) s of
                (None, s) \<Rightarrow> s
              | (Some speaker, s) \<Rightarrow> enqueue speaker s))
      | Some speaker \<Rightarrow> (case admit_known frame speaker of
            Inl drop_counter \<Rightarrow> bump drop_counter s
          | Inr False \<Rightarrow> enqueue speaker s
          | Inr True \<Rightarrow> (case resetSpeaker op setup frame now speaker s of
                (None, s) \<Rightarrow> s
              | (Some speaker, s) \<Rightarrow> enqueue speaker s)))"

text \<open>Frames received since the last turn; each call of Opus setup has its own outcome.\<close>

fun add_frames ::
  "'d opus \<Rightarrow> u64 \<Rightarrow> int \<Rightarrow> (RemoteFrame \<times> 'd option) list \<Rightarrow> ('f, 'd) AudioState \<Rightarrow> ('f, 'd) AudioState" where
  "add_frames op observed now [] s = s"
| "add_frames op observed now ((frame, setup) # rest) s =
     add_frames op observed now rest
       (if rf_sessionepoch frame = observed \<and> rf_sessionepoch frame = a_sessionepoch s \<and> a_enabled s
        then addRemoteFrame op setup now frame s else s)"

definition processIncoming ::
  "'d opus \<Rightarrow> (nat \<Rightarrow> 'd option) \<Rightarrow> u64 \<Rightarrow> int \<Rightarrow> ('f, 'd) AudioState \<Rightarrow> ('f, 'd) AudioState" where
  "processIncoming op setups observed now s =
     (let batch = a_incoming s in
      add_frames op observed now (zip batch (map setups [0..<length batch])) (s\<lparr>a_incoming := []\<rparr>))"

subsection \<open>Playout\<close>

definition getSpeakerControl :: "'f fops \<Rightarrow> u64 \<Rightarrow> ('f, 'd) AudioState \<Rightarrow> 'f SpeakerControl" where
  "getSpeakerControl fl speakerid s = (case um_find (a_speakercontrols s) speakerid of
     None \<Rightarrow> \<lparr>sc_muted = False, sc_volume = flit fl 1\<rparr> | Some control \<Rightarrow> control)"

text \<open>A speaker that is not playing starts when enough frames are queued or the wait is over.\<close>

definition begin_playout :: "AudioConfig \<Rightarrow> int \<Rightarrow> 'd Speaker \<Rightarrow> 'd Speaker option" where
  "begin_playout config now speaker =
     (if sp_playing speaker then Some speaker
      else if length (sp_jitter speaker) < initialjitterpackets config
          \<and> now - sp_firstarrival speaker
              < milliseconds (FRAME_MILLISECONDS * int (initialjitterpackets config)) then None
      else case oldest_frame (sp_jitter speaker) of
          None \<Rightarrow> None
        | Some (_, oldest) \<Rightarrow> Some (speaker\<lparr>sp_expectedsequence := rf_sequence oldest,
            sp_hasexpected := True, sp_playing := True, sp_nextplayout := now\<rparr>))"

text \<open>The output array of a decode: 960 samples, zero where Opus wrote nothing.\<close>

definition decoded_array :: "sample list \<Rightarrow> sample list" where
  "decoded_array out = take FRAME_SAMPLES (out @ replicate FRAME_SAMPLES 0)"

text \<open>One decode for a playing speaker: \<open>None\<close> when it ran out of concealment and stops.\<close>

definition decode_next ::
  "'d opus \<Rightarrow> AudioConfig \<Rightarrow> 'd Speaker \<Rightarrow> AudioCounters
     \<Rightarrow> (int \<times> sample list) option \<times> 'd Speaker \<times> AudioCounters" where
  "decode_next op config speaker counters =
     (case List.find (\<lambda>queued. rf_sequence queued = sp_expectedsequence speaker) (sp_jitter speaker) of
        Some frame \<Rightarrow>
          (let (n, out, codec) = op_decode op (sp_codec speaker) (Some (rf_payload frame));
               speaker = speaker\<lparr>sp_codec := codec,
                 sp_jitter := erase_first (\<lambda>queued. rf_sequence queued = sp_expectedsequence speaker)
                   (sp_jitter speaker), sp_consecutivemissing := 0\<rparr>
           in if n = int FRAME_SAMPLES
              then (Some (n, decoded_array out),
                speaker\<lparr>sp_decodedpackets := sp_decodedpackets speaker + 1\<rparr>,
                counters\<lparr>c_decodedpackets := c_decodedpackets counters + 1\<rparr>)
              else (Some (n, decoded_array out), speaker, counters))
      | None \<Rightarrow>
          if sp_consecutivemissing speaker < maxplcframes config then
            (let (n, out, codec) = op_decode op (sp_codec speaker) None;
                 speaker = speaker\<lparr>sp_codec := codec,
                   sp_consecutivemissing := sp_consecutivemissing speaker + 1,
                   sp_missingpackets := sp_missingpackets speaker + 1\<rparr>;
                 counters = counters\<lparr>c_missingpackets := c_missingpackets counters + 1\<rparr>
             in if n = int FRAME_SAMPLES
                then (Some (n, decoded_array out),
                  speaker\<lparr>sp_plcframes := sp_plcframes speaker + 1\<rparr>,
                  counters\<lparr>c_plcframes := c_plcframes counters + 1\<rparr>)
                else (Some (n, decoded_array out), speaker, counters))
          else (None, speaker\<lparr>sp_playing := False, sp_hasexpected := False\<rparr>, counters))"

definition mix_speaker ::
  "'f fops \<Rightarrow> 'd opus \<Rightarrow> AudioConfig \<Rightarrow> (u64 \<Rightarrow> 'f SpeakerControl) \<Rightarrow> int \<Rightarrow> 'd Speaker \<Rightarrow> AudioCounters
     \<Rightarrow> sample list option \<times> 'd Speaker \<times> AudioCounters" where
  "mix_speaker fl op config control now speaker counters =
     (case begin_playout config now speaker of
        None \<Rightarrow> (None, speaker, counters)
      | Some speaker \<Rightarrow>
          if now < sp_nextplayout speaker then (None, speaker, counters)
          else (case decode_next op config speaker counters of
              (None, speaker, counters) \<Rightarrow> (None, speaker, counters)
            | (Some (n, decoded), speaker, counters) \<Rightarrow>
                let c = control (sp_speakerid speaker);
                    (input, speaker, counters) =
                      (if n \<noteq> int FRAME_SAMPLES
                       then (None, speaker\<lparr>sp_decodeerrors := sp_decodeerrors speaker + 1\<rparr>,
                             count_decodeerror counters)
                       else if sc_muted c then (None, speaker, counters)
                       else (Some (if sc_volume c \<noteq> flit fl 1
                                   then map (scale_sample fl (sc_volume c)) decoded else decoded),
                             speaker, counters))
                in (input, speaker\<lparr>sp_expectedsequence := sp_expectedsequence speaker + 1,
                      sp_nextplayout := sp_nextplayout speaker + milliseconds FRAME_MILLISECONDS\<rparr>,
                    counters)))"

fun mix_speakers ::
  "('d Speaker \<Rightarrow> AudioCounters \<Rightarrow> sample list option \<times> 'd Speaker \<times> AudioCounters)
     \<Rightarrow> (u64, 'd Speaker) umap \<Rightarrow> AudioCounters
     \<Rightarrow> sample list list \<times> (u64, 'd Speaker) umap \<times> AudioCounters" where
  "mix_speakers mix [] counters = ([], [], counters)"
| "mix_speakers mix ((speakerid, speaker) # rest) counters =
     (case mix speaker counters of (input, speaker, counters) \<Rightarrow>
       (case mix_speakers mix rest counters of (inputs, rest, counters) \<Rightarrow>
         ((case input of None \<Rightarrow> inputs | Some x \<Rightarrow> x # inputs), (speakerid, speaker) # rest, counters)))"

text \<open>An \<open>int\<close> overflow in the mix is undefined in the source; at most 256 speakers exclude it
  (\<open>mix_no_overflow\<close>), and \<open>mixOneFrame\<close> leaves the ring alone there.\<close>

definition mixOneFrame :: "'f fops \<Rightarrow> 'd opus \<Rightarrow> int \<Rightarrow> ('f, 'd) AudioState \<Rightarrow> ('f, 'd) AudioState" where
  "mixOneFrame fl op now s =
     (case mix_speakers (mix_speaker fl op (a_config s) (\<lambda>speakerid. getSpeakerControl fl speakerid s) now)
             (a_speakers s) (a_counters s) of
        (inputs, speakers, counters) \<Rightarrow>
          let s = s\<lparr>a_speakers := speakers, a_counters := counters\<rparr> in
          if inputs = [] then s\<lparr>a_playbackactive := False\<rparr>
          else (case mixFrames (map Some inputs) FRAME_SAMPLES of
              None \<Rightarrow> s
            | Some mixed \<Rightarrow> (case sample_write mixed (a_playbackring s) of (n, ring) \<Rightarrow>
                let s = s\<lparr>a_playbackring := ring\<rparr> in
                if n \<noteq> length mixed
                then bump (\<lambda>c. c\<lparr>c_playbackoverruns := c_playbackoverruns c + 1\<rparr>) s
                else (bump (\<lambda>c. c\<lparr>c_mixedframes := c_mixedframes c + 1\<rparr>) s)\<lparr>a_playbackactive := True\<rparr>)))"

definition cleanupSpeakers :: "int \<Rightarrow> ('f, 'd) AudioState \<Rightarrow> ('f, 'd) AudioState" where
  "cleanupSpeakers now s =
     (let kept = filter (\<lambda>(_, speaker). \<not> now - sp_lastactivity speaker
            > milliseconds (speakertimeoutmilliseconds (a_config s))) (a_speakers s)
      in s\<lparr>a_speakers := kept, a_counters := (a_counters s)\<lparr>c_activespeakers := length kept,
           c_jitterdepth := sum_list (map (\<lambda>(_, speaker). length (sp_jitter speaker)) kept)\<rparr>\<rparr>)"

definition updateSnapshots :: "'f fops \<Rightarrow> int \<Rightarrow> ('f, 'd) AudioState \<Rightarrow> ('f, 'd) AudioState" where
  "updateSnapshots fl now s = s\<lparr>a_speakersnapshot := map (\<lambda>(_, speaker).
     let control = getSpeakerControl fl (sp_speakerid speaker) s in
     \<lparr>sst_speakerid = sp_speakerid speaker, sst_received = sp_receivedpackets speaker,
      sst_decoded = sp_decodedpackets speaker, sst_missing = sp_missingpackets speaker,
      sst_plc = sp_plcframes speaker, sst_errors = sp_decodeerrors speaker,
      sst_lastactivitymilliseconds = word_of_int ((now - sp_lastactivity speaker) sdiv milliseconds 1),
      sst_jitterdepth = length (sp_jitter speaker), sst_muted = sc_muted control,
      sst_volume = sc_volume control\<rparr>) (a_speakers s)\<rparr>"

definition setControl ::
  "'f fops \<Rightarrow> u64 \<Rightarrow> bool option \<Rightarrow> 'f option \<Rightarrow> ('f, 'd) AudioState \<Rightarrow> bool \<times> ('f, 'd) AudioState" where
  "setControl fl speakerid muted volume s =
     (if speakerid = 0 then (False, s)
      else if um_find (a_speakercontrols s) speakerid = None
          \<and> length (a_speakercontrols s) \<ge> maxspeakers (a_config s) then (False, s)
      else let control = getSpeakerControl fl speakerid s;
               control = (case muted of None \<Rightarrow> control | Some m \<Rightarrow> control\<lparr>sc_muted := m\<rparr>);
               control = (case volume of None \<Rightarrow> control
                 | Some v \<Rightarrow> control\<lparr>sc_volume := fmax fl (flit fl 0) (fmin fl (flit fl 2) v)\<rparr>)
           in (True, s\<lparr>a_speakercontrols := um_put speakerid control (a_speakercontrols s)\<rparr>))"

definition setSpeakerMuted where
  "setSpeakerMuted fl speakerid muted s = setControl fl speakerid (Some muted) None s"

definition setSpeakerVolume where
  "setSpeakerVolume fl speakerid volume s = setControl fl speakerid None (Some volume) s"

subsection \<open>Transitions\<close>

definition audio_setEnabled :: "bool \<Rightarrow> ('f, 'd) AudioState \<Rightarrow> ('f, 'd) AudioState" where
  "audio_setEnabled enabled s =
     (if a_enabled s = enabled then s
      else let s = s\<lparr>a_sessionepoch := a_sessionepoch s + 1\<rparr>;
               s = s\<lparr>a_enabled := enabled\<rparr>;
               s = s\<lparr>a_captureepoch := a_captureepoch s + 1\<rparr>;
               s = s\<lparr>a_sessionepoch := a_sessionepoch s + 1\<rparr>;
               s = clearIncoming (clearOutgoing s)
           in s\<lparr>a_playbackclearrequested := True\<rparr>)"

definition setTransmitting :: "bool \<Rightarrow> ('f, 'd) AudioState \<Rightarrow> ('f, 'd) AudioState" where
  "setTransmitting transmitting s =
     (if a_transmitting s = transmitting then s
      else clearOutgoing (s\<lparr>a_transmitting := transmitting, a_captureepoch := a_captureepoch s + 1\<rparr>))"

definition setLocalMuted :: "bool \<Rightarrow> ('f, 'd) AudioState \<Rightarrow> ('f, 'd) AudioState" where
  "setLocalMuted muted s =
     (if a_localmuted s = muted then s
      else clearOutgoing (s\<lparr>a_localmuted := muted, a_captureepoch := a_captureepoch s + 1\<rparr>))"

definition setSession :: "u64 \<Rightarrow> u32 \<Rightarrow> u64 \<Rightarrow> ('f, 'd) AudioState \<Rightarrow> ('f, 'd) AudioState" where
  "setSession sessionid membershipgeneration localplayerid s =
     (let s = s\<lparr>a_sessionepoch := a_sessionepoch s + 1\<rparr>;
          s = s\<lparr>a_sessionid := sessionid, a_membershipgeneration := membershipgeneration,
                a_localplayerid := localplayerid\<rparr>;
          s = s\<lparr>a_captureepoch := a_captureepoch s + 1\<rparr>;
          s = s\<lparr>a_sessionepoch := a_sessionepoch s + 1\<rparr>;
          s = clearIncoming (clearOutgoing s)
      in s\<lparr>a_speakercontrols := [], a_playbackclearrequested := True\<rparr>)"

definition clearSession :: "('f, 'd) AudioState \<Rightarrow> ('f, 'd) AudioState" where
  "clearSession s = setSession 0 0 0 s"

definition audio_start :: "'d opus \<Rightarrow> 'd option \<Rightarrow> ('f, 'd) AudioState \<Rightarrow> bool \<times> ('f, 'd) AudioState" where
  "audio_start op setup s =
     (if a_running s then (True, s)
      else case setup of
          None \<Rightarrow> (False, audio_setError (op_error op None) s)
        | Some encoder \<Rightarrow> (True, s\<lparr>a_encoder := Some encoder,
            a_captureepoch := a_captureepoch s + 1, a_running := True\<rparr>))"

definition audio_stop :: "('f, 'd) AudioState \<Rightarrow> ('f, 'd) AudioState" where
  "audio_stop s =
     (let s = s\<lparr>a_running := False, a_captureepoch := a_captureepoch s + 1\<rparr>;
          s = s\<lparr>a_encoder := None\<rparr>
      in clearIncoming (clearOutgoing (clearWorkerState s)))"

subsection \<open>The worker\<close>

record WorkerLocals =
  wl_observedsession :: u64
  wl_observedcapture :: u64
  wl_sequence :: u32
  wl_firstpacket :: bool
  wl_nextmix :: int

definition worker_begin :: "int \<Rightarrow> ('f, 'd) AudioState \<Rightarrow> WorkerLocals \<times> ('f, 'd) AudioState" where
  "worker_begin now s =
     (\<lparr>wl_observedsession = a_sessionepoch s, wl_observedcapture = a_captureepoch s, wl_sequence = 0,
       wl_firstpacket = True, wl_nextmix = now\<rparr>,
      if \<not> epoch_odd (a_sessionepoch s) \<and> captureActive s
      then s\<lparr>a_streamgeneration := next_stream (a_streamgeneration s)\<rparr> else s)"

text \<open>The loop that empties the capture queue; no more frames than slots are in it.\<close>

fun drain_capture ::
  "'d opus \<Rightarrow> nat \<Rightarrow> WorkerLocals \<Rightarrow> ('f, 'd) AudioState \<Rightarrow> WorkerLocals \<times> ('f, 'd) AudioState" where
  "drain_capture op 0 w s = (w, s)"
| "drain_capture op (Suc n) w s = (case spsc_pop (a_capturequeue s) of
     (None, queue) \<Rightarrow> (w, s\<lparr>a_capturequeue := queue\<rparr>)
   | (Some frame, queue) \<Rightarrow>
       if pcm_sessionepoch frame \<noteq> wl_observedsession w \<or> pcm_captureepoch frame \<noteq> wl_observedcapture w
       then drain_capture op n w (s\<lparr>a_capturequeue := queue\<rparr>)
       else drain_capture op n (w\<lparr>wl_sequence := wl_sequence w + 1, wl_firstpacket := False\<rparr>)
              (encodeFrame op frame (a_streamgeneration s) (wl_sequence w) (wl_firstpacket w)
                (s\<lparr>a_capturequeue := queue\<rparr>)))"

text \<open>The body of the loop under the work mutex, in its four parts.\<close>

definition worker_observe_session :: "int \<Rightarrow> WorkerLocals \<times> ('f, 'd) AudioState \<Rightarrow> WorkerLocals \<times> ('f, 'd) AudioState" where
  "worker_observe_session now ws = (case ws of (w, s) \<Rightarrow>
     if a_sessionepoch s \<noteq> wl_observedsession w
     then (w\<lparr>wl_observedsession := a_sessionepoch s, wl_nextmix := now\<rparr>, clearWorkerState s)
     else (w, s))"

definition worker_observe_capture :: "WorkerLocals \<times> ('f, 'd) AudioState \<Rightarrow> WorkerLocals \<times> ('f, 'd) AudioState" where
  "worker_observe_capture ws = (case ws of (w, s) \<Rightarrow>
     if a_captureepoch s \<noteq> wl_observedcapture w
     then let w = w\<lparr>wl_observedcapture := a_captureepoch s\<rparr>;
              s = s\<lparr>a_capturequeue := discardByConsumer (a_capturequeue s)\<rparr>
          in if captureActive s
             then (w\<lparr>wl_sequence := 0, wl_firstpacket := True\<rparr>,
               s\<lparr>a_streamgeneration := next_stream (a_streamgeneration s)\<rparr>)
             else (w, s)
     else (w, s))"

definition worker_capture :: "'d opus \<Rightarrow> WorkerLocals \<times> ('f, 'd) AudioState \<Rightarrow> WorkerLocals \<times> ('f, 'd) AudioState" where
  "worker_capture op ws = (case ws of (w, s) \<Rightarrow>
     if captureActive s then drain_capture op (length (rg_slots (a_capturequeue s)) + 1) w s
     else (w, s\<lparr>a_capturequeue := discardByConsumer (a_capturequeue s)\<rparr>))"

definition worker_mix ::
  "'f fops \<Rightarrow> 'd opus \<Rightarrow> int \<Rightarrow> WorkerLocals \<times> ('f, 'd) AudioState \<Rightarrow> WorkerLocals \<times> ('f, 'd) AudioState" where
  "worker_mix fl op now ws = (case ws of (w, s) \<Rightarrow>
     let (w, s) = (if now \<ge> wl_nextmix w
            then let nextmix = wl_nextmix w + milliseconds FRAME_MILLISECONDS;
                     nextmix = (if now - nextmix > milliseconds 100 then now else nextmix)
                 in (w\<lparr>wl_nextmix := nextmix\<rparr>, mixOneFrame fl op now s)
            else (w, s))
     in (w, updateSnapshots fl now (cleanupSpeakers now s)))"

definition worker_turn ::
  "'f fops \<Rightarrow> 'd opus \<Rightarrow> (nat \<Rightarrow> 'd option) \<Rightarrow> int \<Rightarrow> WorkerLocals \<times> ('f, 'd) AudioState
     \<Rightarrow> WorkerLocals \<times> ('f, 'd) AudioState" where
  "worker_turn fl op setups now ws = (case ws of (w, s) \<Rightarrow>
     if \<not> a_running s \<or> epoch_odd (a_sessionepoch s) then (w, s)
     else let (w, s) = worker_observe_capture (worker_observe_session now (w, s));
              s = processIncoming op setups (wl_observedsession w) now s
          in worker_mix fl op now (worker_capture op (w, s)))"

definition getAudioStats :: "('f, 'd) AudioState \<Rightarrow> AudioCounters" where
  "getAudioStats s = a_counters s"

end
