(* ===== verification/AudioInvariants.thy ===== *)
theory AudioInvariants
  imports AudioProcessor
begin

section \<open>What the voice audio worker keeps and delivers\<close>

text \<open>
  The invariant of \<open>gVoiceAudioProcessor\<close>'s state over every public operation and every turn of
  the worker, the step relation of the three threads, and the properties of capture, playback,
  the jitter buffer, the mixer and the queues.
\<close>

subsection \<open>Invariants\<close>

definition config_ok :: "AudioConfig \<Rightarrow> bool" where
  "config_ok c \<longleftrightarrow> captureframes c \<in> {1..256} \<and> outgoingpackets c \<in> {1..1024} \<and>
     incomingpackets c \<in> {1..4096} \<and> playbackframes c \<in> {1..256} \<and> maxspeakers c \<in> {1..256} \<and>
     jitterpackets c \<in> {1..256} \<and> initialjitterpackets c \<in> {1..jitterpackets c} \<and>
     maxplcframes c \<in> {0..100} \<and> speakertimeoutmilliseconds c \<in> {20..60000}"

text \<open>A speaker's jitter buffer: no sequence number twice, within its bound, and only frames of
  the speaker's current stream.\<close>

definition speaker_ok :: "AudioConfig \<Rightarrow> u64 \<Rightarrow> 'd Speaker \<Rightarrow> bool" where
  "speaker_ok c speakerid sp \<longleftrightarrow> sp_speakerid sp = speakerid \<and> distinct (map rf_sequence (sp_jitter sp)) \<and>
     length (sp_jitter sp) \<le> jitterpackets c \<and>
     (\<forall>f \<in> set (sp_jitter sp). rf_speakerid f = speakerid \<and>
        rf_speakergeneration f = sp_speakergeneration sp \<and>
        rf_streamgeneration f = sp_streamgeneration sp)"

text \<open>An encoded frame that the router's validator will accept.\<close>

definition encoded_ok :: "('f, 'd) AudioState \<Rightarrow> EncodedFrame \<Rightarrow> bool" where
  "encoded_ok s f \<longleftrightarrow> outgoing_current s f \<and> gValidateTeamVoiceUplinkPacket (outgoing_packet f) = NONE"

definition opus_ok :: "'d opus \<Rightarrow> bool" where
  "opus_ok op \<longleftrightarrow> (\<forall>d pcm n payload d'. op_encode op d pcm = (n, payload, d') \<longrightarrow>
     n \<le> int NETWORK_MAX_OPUS_BYTES \<and> n \<le> int (length payload))"

definition audio_core :: "('f, 'd) AudioState \<Rightarrow> bool" where
  "audio_core s \<longleftrightarrow> config_ok (a_config s) \<and> \<not> epoch_odd (a_sessionepoch s) \<and>
     length (a_outgoing s) \<le> outgoingpackets (a_config s) \<and> (\<forall>f \<in> set (a_outgoing s). encoded_ok s f) \<and>
     (\<not> a_running s \<longrightarrow> a_outgoing s = []) \<and>
     length (a_incoming s) \<le> incomingpackets (a_config s) \<and>
     (\<forall>f \<in> set (a_incoming s). rf_sessionepoch f = a_sessionepoch s \<and> rf_speakerid f \<noteq> a_localplayerid s) \<and>
     um_wf (a_speakers s) \<and> length (a_speakers s) \<le> maxspeakers (a_config s) \<and>
     (\<forall>i sp. um_find (a_speakers s) i = Some sp \<longrightarrow> speaker_ok (a_config s) i sp) \<and>
     um_wf (a_speakercontrols s) \<and> length (a_speakercontrols s) \<le> maxspeakers (a_config s)"

definition audio_inv :: "('f, 'd) AudioState \<Rightarrow> bool" where
  "audio_inv s \<longleftrightarrow> audio_core s \<and> length (a_staging s) < FRAME_SAMPLES"

lemma encoded_ok_cong:
  "a_sessionepoch s' = a_sessionepoch s \<Longrightarrow> a_captureepoch s' = a_captureepoch s \<Longrightarrow>
    a_sessionid s' = a_sessionid s \<Longrightarrow> a_membershipgeneration s' = a_membershipgeneration s \<Longrightarrow>
    encoded_ok s' = encoded_ok s"
  by (simp add: encoded_ok_def outgoing_current_def fun_eq_iff)

text \<open>The core depends on none of these fields.\<close>

lemma audio_core_irrelevant [simp]:
  "audio_core (s\<lparr>a_counters := c\<rparr>) = audio_core s"
  "audio_core (s\<lparr>a_encoder := e\<rparr>) = audio_core s"
  "audio_core (s\<lparr>a_streamgeneration := g\<rparr>) = audio_core s"
  "audio_core (s\<lparr>a_capturequeue := q\<rparr>) = audio_core s"
  "audio_core (s\<lparr>a_playbackring := r\<rparr>) = audio_core s"
  "audio_core (s\<lparr>a_staging := xs\<rparr>) = audio_core s"
  "audio_core (s\<lparr>a_stagingposition := p\<rparr>) = audio_core s"
  "audio_core (s\<lparr>a_stagingsessionepoch := p\<rparr>) = audio_core s"
  "audio_core (s\<lparr>a_stagingepoch := p\<rparr>) = audio_core s"
  "audio_core (s\<lparr>a_captureposition := p\<rparr>) = audio_core s"
  "audio_core (s\<lparr>a_capturediscontinuity := b\<rparr>) = audio_core s"
  "audio_core (s\<lparr>a_speakersnapshot := sn\<rparr>) = audio_core s"
  "audio_core (s\<lparr>a_lasterror := err\<rparr>) = audio_core s"
  "audio_core (s\<lparr>a_playbackactive := b\<rparr>) = audio_core s"
  "audio_core (s\<lparr>a_playbackclearrequested := b\<rparr>) = audio_core s"
  "audio_core (bump f s) = audio_core s"
  "audio_core (audio_setError err s) = audio_core s"
  by (simp_all add: audio_core_def encoded_ok_def outgoing_current_def bump_def audio_setError_def)

lemma staging_irrelevant [simp]:
  "a_staging (bump f s) = a_staging s"
  "a_staging (audio_setError err s) = a_staging s"
  by (simp_all add: bump_def audio_setError_def)

lemma sanitizeConfig_ok: "config_ok (sanitizeConfig c)"
  by (auto simp: config_ok_def sanitizeConfig_def Let_def FRAME_MILLISECONDS_def)

lemma epoch_even_next: "epoch_odd (e + 1 + 1) = epoch_odd e" "epoch_odd (2 + e) = epoch_odd e"
  by (simp_all add: epoch_odd_def and_one_eq odd_iff_mod_2_eq_one [symmetric])

subsection \<open>Capture keeps the invariant\<close>

lemma finish_frame_core [simp]: "audio_core (finish_frame s) = audio_core s" "a_staging (finish_frame s) = []"
  by (simp_all add: finish_frame_def Let_def split_beta)

lemma capture_turn_core:
  assumes "capture_turn se ce p input s = (n, s')" "length (a_staging s) < FRAME_SAMPLES"
  shows "audio_core s' = audio_core s" "length (a_staging s') < FRAME_SAMPLES"
    and "input \<noteq> [] \<Longrightarrow> 0 < n" "n \<le> length input"
  using assms by (auto simp: capture_turn_def Let_def min_def split: if_splits)

lemma capture_loop_core:
  assumes "length input \<le> k" "length (a_staging s) < FRAME_SAMPLES"
    and "capture_loop k se ce p input s = (rest, s')"
  shows "audio_core s' = audio_core s \<and> length (a_staging s') < FRAME_SAMPLES \<and> rest = []"
  using assms
proof (induction k arbitrary: p input s)
  case (Suc k)
  obtain n s1 where t: "capture_turn se ce p input s = (n, s1)" by (cases "capture_turn se ce p input s")
  note turn = capture_turn_core [OF t Suc.prems(2)]
  show ?case
  proof (cases "input = []")
    case False
    with turn(3) Suc.prems(1) have "length (drop n input) \<le> k" by simp
    from Suc.IH [OF this turn(2)] turn(1) Suc.prems(3) t False show ?thesis by simp
  qed (use Suc.prems in simp)
qed simp

lemma audio_inv_pushCaptured: "audio_inv s \<Longrightarrow> audio_inv (pushCaptured input s)"
proof (cases input)
  case (Some xs)
  assume inv: "audio_inv s"
  let ?s = "if a_staging s \<noteq> [] \<and> (a_stagingsessionepoch s \<noteq> a_sessionepoch s \<or> a_stagingepoch s \<noteq> a_captureepoch s)
                then s\<lparr>a_staging := [], a_capturediscontinuity := True\<rparr> else s"
  obtain rest s' where l: "capture_loop (length xs) (a_sessionepoch s) (a_captureepoch s) (a_captureposition s) xs ?s = (rest, s')"
    by (cases "capture_loop (length xs) (a_sessionepoch s) (a_captureepoch s) (a_captureposition s) xs ?s")
  have "length (a_staging ?s) < FRAME_SAMPLES" "audio_core ?s" using inv by (auto simp: audio_inv_def)
  with capture_loop_core [OF order_refl this(1) l] have "audio_inv (s'\<lparr>a_captureposition := p\<rparr>)" for p
    by (simp add: audio_inv_def)
  with inv l Some show ?thesis
    by (auto simp: pushCaptured_def Let_def audio_inv_def)
qed (simp add: pushCaptured_def)

lemma audio_inv_popPlayback: "audio_inv s \<Longrightarrow> audio_inv (snd (popPlayback out s))"
  by (auto simp: popPlayback_def Let_def audio_inv_def split: option.splits prod.splits)

subsection \<open>The queues keep the invariant\<close>

lemma flag_or_valid:
  "f AND NOT VALID_VOICE_FLAGS = 0 \<Longrightarrow> (f OR FLAG_DISCONTINUITY) AND NOT VALID_VOICE_FLAGS = 0"
  by (simp add: bit.conj_disj_distrib2 VALID_VOICE_FLAGS_def FLAG_STREAM_START_def FLAG_DISCONTINUITY_def)

lemma encoded_ok_flag:
  "encoded_ok s f \<Longrightarrow> encoded_ok s (f\<lparr>ef_flags := ef_flags f OR FLAG_DISCONTINUITY\<rparr>)"
  by (auto simp: encoded_ok_def outgoing_current_def outgoing_packet_def validate_uplink_NONE flag_or_valid)

lemma start_flags_valid:
  "(if b then FLAG_STREAM_START else 0) AND NOT VALID_VOICE_FLAGS = 0"
  by (simp add: VALID_VOICE_FLAGS_def FLAG_STREAM_START_def FLAG_DISCONTINUITY_def)

lemma opus_okD:
  "opus_ok op \<Longrightarrow> op_encode op d pcm = (n, payload, d') \<Longrightarrow> n \<le> 256 \<and> n \<le> int (length payload)"
  unfolding opus_ok_def NETWORK_MAX_OPUS_BYTES_def by fastforce

lemma encoded_frame_ok:
  assumes "captureActive s" "g \<noteq> 0" "pcm_sessionepoch frame = a_sessionepoch s"
    and "pcm_captureepoch frame = a_captureepoch s" "payload \<noteq> []" "length payload \<le> 256"
  shows "encoded_ok s (encoded_frame frame g sequence first payload s)"
  using assms start_flags_valid [of first] flag_or_valid
  by (auto simp: encoded_ok_def outgoing_current_def outgoing_packet_def validate_uplink_NONE
      captureActive_def encoded_frame_def Let_def NETWORK_MAX_OPUS_BYTES_def)

lemma enqueue_encoded_core:
  assumes "audio_core s" "a_running s" "encoded_ok s f"
  shows "audio_core (enqueue_encoded f s)"
proof -
  have q: "length (a_outgoing s) \<le> outgoingpackets (a_config s)" "0 < outgoingpackets (a_config s)"
    "\<forall>g \<in> set (a_outgoing s). encoded_ok s g"
    using assms(1) by (auto simp: audio_core_def config_ok_def)
  have *: "audio_core (s\<lparr>a_outgoing := h\<rparr>)"
    if "length h \<le> outgoingpackets (a_config s)" "\<forall>g \<in> set h. encoded_ok s g" for h
    using assms(1,2) that by (auto simp: audio_core_def encoded_ok_def outgoing_current_def)
  show ?thesis
  proof (cases "length (a_outgoing s) \<ge> outgoingpackets (a_config s)")
    case False
    then have "audio_core (s\<lparr>a_outgoing := a_outgoing s @ [f]\<rparr>)"
      by (intro *) (use q assms(3) in auto)
    with False show ?thesis by (simp add: enqueue_encoded_def)
  next
    case True
    show ?thesis
    proof (cases "tl (a_outgoing s)")
      case Nil
      have "audio_core (s\<lparr>a_outgoing := [f\<lparr>ef_flags := ef_flags f OR FLAG_DISCONTINUITY\<rparr>]\<rparr>)"
        by (intro *) (use q assms(3) encoded_ok_flag in auto)
      with True Nil show ?thesis by (simp add: enqueue_encoded_def)
    next
      case (Cons g rest)
      then obtain h where "a_outgoing s = h # g # rest" by (cases "a_outgoing s") auto
      then have "audio_core (s\<lparr>a_outgoing := g\<lparr>ef_flags := ef_flags g OR FLAG_DISCONTINUITY\<rparr> # rest @ [f]\<rparr>)"
        by (intro *) (use q assms(3) encoded_ok_flag in auto)
      with True Cons show ?thesis by (simp add: enqueue_encoded_def)
    qed
  qed
qed

lemma encodeFrame_core:
  assumes "audio_core s" "opus_ok op"
  shows "audio_core (encodeFrame op frame g sequence first s)"
    and "a_staging (encodeFrame op frame g sequence first s) = a_staging s"
proof -
  show "a_staging (encodeFrame op frame g sequence first s) = a_staging s"
    by (simp add: encodeFrame_def enqueue_encoded_def bump_def Let_def split_beta
        split: option.splits list.splits)
  have "audio_core (enqueue_encoded (encoded_frame frame g sequence first (take (nat n) payload) s') s')"
    if "op_encode op e (pcm_samples frame) = (n, payload, e')" "\<not> n \<le> 0" "g \<noteq> 0" "a_running s"
      "captureActive s" "pcm_sessionepoch frame = a_sessionepoch s"
      "pcm_captureepoch frame = a_captureepoch s" "s' = s\<lparr>a_encoder := Some e'\<rparr>" for e n payload e' s'
  proof (rule enqueue_encoded_core)
    show "audio_core s'" "a_running s'" using assms(1) that by simp_all
    have "take (nat n) payload \<noteq> []" "length (take (nat n) payload) \<le> 256"
      using opus_okD [OF assms(2) that(1)] that(2) by auto
    with that show "encoded_ok s' (encoded_frame frame g sequence first (take (nat n) payload) s')"
      by (intro encoded_frame_ok) (simp_all add: captureActive_def)
  qed
  with assms(1) show "audio_core (encodeFrame op frame g sequence first s)"
    by (auto simp: encodeFrame_def Let_def encoded_frame_def captureActive_def split: option.splits prod.splits)
qed

lemma pop_current_props:
  "pop_current s q = (found, rest) \<Longrightarrow> set rest \<subseteq> set q \<and> length rest \<le> length q \<and>
    (\<forall>f. found = Some f \<longrightarrow> f \<in> set q \<and> outgoing_current s f)"
  by (induction q) (auto split: if_splits)

lemma audio_inv_popOutgoing:
  assumes "audio_inv s" shows "audio_inv (snd (popOutgoingPacket s))"
proof -
  obtain found rest where p: "pop_current s (a_outgoing s) = (found, rest)"
    by (cases "pop_current s (a_outgoing s)")
  from pop_current_props [OF p] assms have "a_running s \<Longrightarrow> audio_inv (s\<lparr>a_outgoing := rest\<rparr>)"
    by (auto simp: audio_inv_def audio_core_def encoded_ok_def outgoing_current_def)
  with assms p show ?thesis by (simp add: popOutgoingPacket_def)
qed

lemma audio_inv_pushIncoming:
  assumes "audio_inv s" shows "audio_inv (snd (pushIncomingPacket p s))"
proof -
  have *: "audio_inv (bump h (s\<lparr>a_incoming := q @ [f]\<rparr>))"
    if "length q < incomingpackets (a_config s)" "set q \<subseteq> set (a_incoming s)"
      "rf_sessionepoch f = a_sessionepoch s" "rf_speakerid f \<noteq> a_localplayerid s" for q f h
    using assms that by (auto simp: audio_inv_def audio_core_def encoded_ok_def outgoing_current_def bump_def)
  have "length (a_incoming s) \<le> incomingpackets (a_config s)" "0 < incomingpackets (a_config s)"
    using assms by (auto simp: audio_inv_def audio_core_def config_ok_def)
  moreover have "set (tl (a_incoming s)) \<subseteq> set (a_incoming s)" by (cases "a_incoming s") auto
  ultimately show ?thesis
    using assms *
    by (auto simp: pushIncomingPacket_def Let_def bump_def intro!: * [unfolded bump_def])
qed

subsection \<open>The jitter buffer keeps the invariant\<close>

lemma scan_oldest_index:
  "scan_oldest i o' k rest = (j, f) \<Longrightarrow> i < k \<Longrightarrow> (j = i \<and> f = o') \<or> (k \<le> j \<and> j < k + length rest \<and> f = rest ! (j - k))"
proof (induction rest arbitrary: i o' k)
  case (Cons c rest)
  show ?case
  proof (cases "gIsTeamVoiceSequenceNewer (rf_sequence o') (rf_sequence c)")
    case True
    then have "scan_oldest k c (Suc k) rest = (j, f)" using Cons.prems(1) by simp
    from Cons.IH [OF this] show ?thesis by (auto simp: Suc_diff_le nth_Cons')
  next
    case False
    then have "scan_oldest i o' (Suc k) rest = (j, f)" using Cons.prems(1) by simp
    from Cons.IH [OF this] Cons.prems(2) show ?thesis by (auto simp: nth_Cons')
  qed
qed simp

lemma oldest_frame_nth:
  assumes "oldest_frame jitter = Some (i, f)" shows "i < length jitter" "jitter ! i = f"
proof -
  obtain g rest where j: "jitter = g # rest" and s: "scan_oldest 0 g 1 rest = (i, f)"
    using assms by (cases jitter) (auto simp: oldest_frame_def)
  from scan_oldest_index [OF s] j show "i < length jitter" "jitter ! i = f"
    by (auto simp: nth_Cons')
qed

definition frame_of :: "RemoteFrame \<Rightarrow> 'd Speaker \<Rightarrow> bool" where
  "frame_of f sp \<longleftrightarrow> rf_speakerid f = sp_speakerid sp \<and> rf_speakergeneration f = sp_speakergeneration sp \<and>
     rf_streamgeneration f = sp_streamgeneration sp"

lemma distinct_replace:
  assumes "distinct (map g xs)" "i < length xs" "g y \<notin> g ` set xs"
  shows "distinct (map g (xs[i := y]))"
proof -
  have "distinct ((map g xs)[i := g y])"
    using assms by (intro distinct_list_update) auto
  then show ?thesis by (simp add: map_update)
qed

lemma speaker_okI:
  "sp_speakerid sp = speakerid \<Longrightarrow> distinct (map rf_sequence (sp_jitter sp)) \<Longrightarrow>
    length (sp_jitter sp) \<le> jitterpackets c \<Longrightarrow>
    (\<And>f. f \<in> set (sp_jitter sp) \<Longrightarrow> rf_speakerid f = speakerid \<and>
      rf_speakergeneration f = sp_speakergeneration sp \<and> rf_streamgeneration f = sp_streamgeneration sp) \<Longrightarrow>
    speaker_ok c speakerid sp"
  by (simp add: speaker_ok_def)

lemma enqueue_frame_stream [simp]:
  "sp_speakerid (fst (enqueue_frame config now f sp counters)) = sp_speakerid sp"
  "sp_speakergeneration (fst (enqueue_frame config now f sp counters)) = sp_speakergeneration sp"
  "sp_streamgeneration (fst (enqueue_frame config now f sp counters)) = sp_streamgeneration sp"
  by (simp_all add: enqueue_frame_def Let_def split: option.split)

lemma enqueue_frame_jitter:
  "sp_jitter (fst (enqueue_frame config now f sp counters)) = sp_jitter sp \<or>
    rf_sequence f \<notin> rf_sequence ` set (sp_jitter sp) \<and>
    ((length (sp_jitter sp) < jitterpackets config \<and>
        sp_jitter (fst (enqueue_frame config now f sp counters)) = sp_jitter sp @ [f]) \<or>
     (\<exists>i g. oldest_frame (sp_jitter sp) = Some (i, g) \<and> gIsTeamVoiceSequenceNewer (rf_sequence f) (rf_sequence g) \<and>
        sp_jitter (fst (enqueue_frame config now f sp counters)) = (sp_jitter sp)[i := f]))"
proof (cases "list_ex (\<lambda>queued. rf_sequence queued = rf_sequence f) (sp_jitter sp)")
  case False
  then have "rf_sequence f \<notin> rf_sequence ` set (sp_jitter sp)" by (auto simp: list_ex_iff)
  with False show ?thesis
    by (simp add: enqueue_frame_def Let_def not_le split: option.split)
qed (simp add: enqueue_frame_def)

lemma enqueue_frame_ok:
  assumes "speaker_ok config speakerid sp" "frame_of f sp" "1 \<le> jitterpackets config"
  shows "speaker_ok config speakerid (fst (enqueue_frame config now f sp counters))"
proof -
  let ?j = "sp_jitter sp" and ?j' = "sp_jitter (fst (enqueue_frame config now f sp counters))"
  have dist: "distinct (map rf_sequence ?j)" and bound: "length ?j \<le> jitterpackets config"
    using assms(1) by (simp_all add: speaker_ok_def)
  consider "?j' = ?j" | "rf_sequence f \<notin> rf_sequence ` set ?j" "length ?j < jitterpackets config" "?j' = ?j @ [f]"
    | i g where "rf_sequence f \<notin> rf_sequence ` set ?j" "oldest_frame ?j = Some (i, g)" "?j' = ?j[i := f]"
    using enqueue_frame_jitter [of config now f sp counters] by blast
  then have "distinct (map rf_sequence ?j') \<and> length ?j' \<le> jitterpackets config \<and> set ?j' \<subseteq> insert f (set ?j)"
  proof cases
    case 3
    with distinct_replace [OF dist oldest_frame_nth(1) [OF 3(2)] 3(1)] bound show ?thesis
      by (simp add: set_update_subset_insert)
  qed (use dist bound in auto)
  with assms(1,2) show ?thesis
    by (intro speaker_okI) (auto simp: speaker_ok_def frame_of_def)
qed

lemma put_speaker_core:
  assumes "audio_core s" "speaker_ok (a_config s) i sp"
    and "um_find (a_speakers s) i = None \<Longrightarrow> length (a_speakers s) < maxspeakers (a_config s)"
  shows "audio_core (s\<lparr>a_counters := c, a_speakers := um_put i sp (a_speakers s)\<rparr>)"
proof -
  have "length (um_put i sp (a_speakers s)) \<le> maxspeakers (a_config s)"
    using assms(1,3) um_len_put_fresh [of "a_speakers s" i sp] um_put_known [of "a_speakers s" i _ sp]
    by (cases "um_find (a_speakers s) i") (auto simp: audio_core_def)
  with assms(1,2) show ?thesis
    by (simp add: audio_core_def encoded_ok_def outgoing_current_def)
qed

lemma resetSpeaker_Some:
  "resetSpeaker op setup f now sp s = (Some sp', s') \<Longrightarrow> sp_speakerid sp = rf_speakerid f \<Longrightarrow>
    s' = s \<and> frame_of f sp' \<and> speaker_ok c (rf_speakerid f) sp'"
  by (auto simp: resetSpeaker_def frame_of_def speaker_ok_def split: option.splits)

lemma resetSpeaker_None:
  "resetSpeaker op setup f now sp s = (None, s') \<Longrightarrow> audio_core s' = audio_core s \<and> a_staging s' = a_staging s"
  by (auto simp: resetSpeaker_def split: option.splits)

lemma admit_known_Inr:
  "admit_known f sp = Inr False \<Longrightarrow> sp_speakerid sp = rf_speakerid f \<Longrightarrow> frame_of f sp"
  by (auto simp: admit_known_def frame_of_def split: if_splits)

lemma addRemoteFrame_core:
  assumes "audio_core s"
  shows "audio_core (addRemoteFrame op setup now f s) \<and> a_staging (addRemoteFrame op setup now f s) = a_staging s"
proof -
  let ?i = "rf_speakerid f"
  have j: "1 \<le> jitterpackets (a_config s)" using assms by (simp add: audio_core_def config_ok_def)
  have enq: "audio_core (s\<lparr>a_counters := counters, a_speakers := um_put ?i sp' (a_speakers s)\<rparr>)"
    if "enqueue_frame (a_config s) now f sp c = (sp', counters)" "frame_of f sp" "speaker_ok (a_config s) ?i sp"
      "um_find (a_speakers s) ?i = None \<Longrightarrow> length (a_speakers s) < maxspeakers (a_config s)" for sp sp' c counters
    using put_speaker_core [OF assms] enqueue_frame_ok [OF that(3,2) j, of now c] that(1,4) by simp
  show ?thesis
  proof (cases "um_find (a_speakers s) ?i")
    case None
    show ?thesis
    proof (cases "length (a_speakers s) \<ge> maxspeakers (a_config s)")
      case True
      with None assms show ?thesis by (simp add: addRemoteFrame_def)
    next
      case False
      have new: "sp_speakerid (speaker_new ?i now codec) = ?i" for codec by (simp add: speaker_new_def)
      show ?thesis
        using None False assms enq
        by (auto simp: addRemoteFrame_def not_le split: option.splits prod.splits
            dest: resetSpeaker_None resetSpeaker_Some [OF _ new, where c = "a_config s"])
    qed
  next
    case (Some sp)
    then have ok: "speaker_ok (a_config s) ?i sp" using assms by (auto simp: audio_core_def)
    then have id: "sp_speakerid sp = ?i" by (simp add: speaker_ok_def)
    show ?thesis
      using Some assms enq ok
      by (auto simp: addRemoteFrame_def split: option.splits prod.splits sum.splits bool.splits
          dest: resetSpeaker_None resetSpeaker_Some [OF _ id, where c = "a_config s"] admit_known_Inr [OF _ id])
  qed
qed

lemma add_frames_core:
  "audio_core s \<Longrightarrow> audio_core (add_frames op observed now fs s) \<and> a_staging (add_frames op observed now fs s) = a_staging s"
  by (induction fs arbitrary: s) (auto simp: addRemoteFrame_core)

lemma audio_core_take_incoming: "audio_core s \<Longrightarrow> audio_core (s\<lparr>a_incoming := []\<rparr>)"
  by (simp add: audio_core_def encoded_ok_def outgoing_current_def)

lemma processIncoming_core:
  "audio_core s \<Longrightarrow> audio_core (processIncoming op setups observed now s) \<and>
    a_staging (processIncoming op setups observed now s) = a_staging s"
  using add_frames_core [OF audio_core_take_incoming] by (simp add: processIncoming_def Let_def)

subsection \<open>Playout keeps the invariant\<close>

lemma begin_playout_keeps:
  "begin_playout config now sp = Some sp' \<Longrightarrow> sp_speakerid sp' = sp_speakerid sp \<and>
    sp_speakergeneration sp' = sp_speakergeneration sp \<and>
    sp_streamgeneration sp' = sp_streamgeneration sp \<and> sp_jitter sp' = sp_jitter sp"
  by (auto simp: begin_playout_def split: if_splits option.splits)

lemma decode_next_keeps:
  "decode_next op config sp c = (r, sp', c') \<Longrightarrow> sp_speakerid sp' = sp_speakerid sp \<and>
    sp_speakergeneration sp' = sp_speakergeneration sp \<and>
    sp_streamgeneration sp' = sp_streamgeneration sp \<and>
    (sp_jitter sp' = sp_jitter sp \<or> (\<exists>P. sp_jitter sp' = erase_first P (sp_jitter sp)))"
  by (auto simp: decode_next_def Let_def split: if_splits option.splits prod.splits)

lemma speaker_ok_erase:
  assumes "speaker_ok c i sp" "sp_speakerid sp' = sp_speakerid sp"
    "sp_speakergeneration sp' = sp_speakergeneration sp" "sp_streamgeneration sp' = sp_streamgeneration sp"
    "sp_jitter sp' = sp_jitter sp \<or> (\<exists>P. sp_jitter sp' = erase_first P (sp_jitter sp))"
  shows "speaker_ok c i sp'"
proof -
  have "distinct (map rf_sequence (sp_jitter sp'))" "length (sp_jitter sp') \<le> length (sp_jitter sp)"
    "set (sp_jitter sp') \<subseteq> set (sp_jitter sp)"
    using assms(1,5) distinct_erase_first [of rf_sequence "sp_jitter sp"]
      length_erase_first [of _ "sp_jitter sp"] set_erase_first [of _ "sp_jitter sp"]
    unfolding speaker_ok_def by (metis, metis order_refl, metis order_refl)
  with assms(1-4) show ?thesis by (auto simp: speaker_ok_def)
qed

lemma mix_speaker_keeps:
  assumes "mix_speaker fl op config control now sp c = (r, sp', c')" "speaker_ok config i sp"
  shows "speaker_ok config i sp'"
proof (cases "begin_playout config now sp")
  case None
  with assms show ?thesis by (simp add: mix_speaker_def)
next
  case (Some sp1)
  note b = begin_playout_keeps [OF Some]
  obtain r1 sp2 c2 where d: "decode_next op config sp1 c = (r1, sp2, c2)" by (metis prod_cases3)
  note dk = decode_next_keeps [OF d]
  have "sp_speakerid sp' = sp_speakerid sp1 \<and> sp_speakergeneration sp' = sp_speakergeneration sp1 \<and>
      sp_streamgeneration sp' = sp_streamgeneration sp1 \<and>
      (sp_jitter sp' = sp_jitter sp1 \<or> (\<exists>P. sp_jitter sp' = erase_first P (sp_jitter sp1)))"
    using assms(1) Some d dk
    by (auto simp: mix_speaker_def Let_def split: if_splits option.splits prod.splits)
  with b speaker_ok_erase [OF assms(2)] show ?thesis by metis
qed

lemma mix_speakers_props:
  "mix_speakers mix sps c = (inputs, sps', c') \<Longrightarrow>
    map fst sps' = map fst sps \<and> length inputs \<le> length sps \<and>
    (\<forall>(i, sp') \<in> set sps'. \<exists>sp c r c'. (i, sp) \<in> set sps \<and> mix sp c = (r, sp', c')) \<and>
    (\<forall>x \<in> set inputs. \<exists>sp c sp' c'. mix sp c = (Some x, sp', c'))"
proof (induction sps arbitrary: c inputs sps' c')
  case (Cons p sps)
  obtain i sp where p: "p = (i, sp)" by (cases p)
  obtain r sp1 c1 where m: "mix sp c = (r, sp1, c1)" by (metis prod_cases3)
  obtain ins rest c2 where l: "mix_speakers mix sps c1 = (ins, rest, c2)" by (metis prod_cases3)
  have e: "inputs = (case r of None \<Rightarrow> ins | Some x \<Rightarrow> x # ins)" "sps' = (i, sp1) # rest"
    using Cons.prems p m l by auto
  note IH = Cons.IH [OF l]
  have "\<forall>(j, sp') \<in> set sps'. \<exists>sp c r c'. (j, sp) \<in> set (p # sps) \<and> mix sp c = (r, sp', c')"
    using e p m IH by fastforce
  moreover have "\<forall>x \<in> set inputs. \<exists>sp c sp' c'. mix sp c = (Some x, sp', c')"
    using e m IH by (auto split: option.splits)
  ultimately show ?case using e p IH by (auto split: option.split)
qed auto

lemma mix_speakers_core:
  assumes "audio_core s" "mix_speakers (mix_speaker fl op (a_config s) control now) (a_speakers s) c = (inputs, sps, c')"
  shows "audio_core (s\<lparr>a_speakers := sps, a_counters := c'\<rparr>)"
proof -
  note m = mix_speakers_props [OF assms(2)]
  have wf: "um_wf sps" "um_wf (a_speakers s)" "length sps = length (a_speakers s)"
    using assms(1) m by (auto simp: audio_core_def um_wf_def dest: map_eq_imp_length_eq)
  have "speaker_ok (a_config s) i sp" if "um_find sps i = Some sp" for i sp
  proof -
    from m um_find_in [OF that] obtain sp0 c0 r c1 where
      0: "(i, sp0) \<in> set (a_speakers s)" "mix_speaker fl op (a_config s) control now sp0 c0 = (r, sp, c1)" by fast
    from um_in_find [OF wf(2) 0(1)] assms(1) have "speaker_ok (a_config s) i sp0" by (simp add: audio_core_def)
    from mix_speaker_keeps [OF 0(2) this] show ?thesis .
  qed
  with assms(1) wf show ?thesis by (simp add: audio_core_def encoded_ok_def outgoing_current_def)
qed

lemma mixOneFrame_core:
  assumes "audio_core s"
  shows "audio_core (mixOneFrame fl op now s) \<and> a_staging (mixOneFrame fl op now s) = a_staging s"
proof -
  obtain inputs sps c where m: "mix_speakers (mix_speaker fl op (a_config s) (\<lambda>i. getSpeakerControl fl i s) now)
      (a_speakers s) (a_counters s) = (inputs, sps, c)" by (metis prod_cases3)
  have "audio_core (s\<lparr>a_speakers := sps, a_counters := c\<rparr>)" using mix_speakers_core [OF assms m] by simp
  then show ?thesis using m by (simp add: mixOneFrame_def Let_def split_beta split: option.split)
qed

lemma cleanupSpeakers_core:
  assumes "audio_core s"
  shows "audio_core (cleanupSpeakers now s) \<and> a_staging (cleanupSpeakers now s) = a_staging s"
proof -
  have *: "audio_core (s\<lparr>a_speakers := filter P (a_speakers s)\<rparr>)" for P
  proof -
    have wf: "um_wf (a_speakers s)" using assms by (simp add: audio_core_def)
    then have wf': "um_wf (filter P (a_speakers s))" by (simp add: um_wf_def distinct_map_filter)
    have "um_find (a_speakers s) i = Some sp" if "um_find (filter P (a_speakers s)) i = Some sp" for i sp
      using um_find_in [OF that] um_in_find [OF wf] by auto
    moreover have "length (filter P (a_speakers s)) \<le> maxspeakers (a_config s)"
      using assms order_trans [OF length_filter_le [of P "a_speakers s"]] by (simp add: audio_core_def)
    ultimately show ?thesis
      using assms wf' by (simp add: audio_core_def encoded_ok_def outgoing_current_def)
  qed
  show ?thesis unfolding cleanupSpeakers_def Let_def
    using * by simp
qed

subsection \<open>Controls and transitions keep the invariant\<close>

lemma setControl_core:
  assumes "audio_core s"
  shows "audio_core (snd (setControl fl i m v s)) \<and> a_staging (snd (setControl fl i m v s)) = a_staging s"
proof -
  have "audio_core (s\<lparr>a_speakercontrols := um_put i c (a_speakercontrols s)\<rparr>)"
    if "um_find (a_speakercontrols s) i = None \<Longrightarrow> length (a_speakercontrols s) < maxspeakers (a_config s)" for c
  proof -
    have "length (um_put i c (a_speakercontrols s)) \<le> maxspeakers (a_config s)"
      using assms that um_len_put_fresh [of "a_speakercontrols s" i c] um_put_known [of "a_speakercontrols s" i _ c]
      by (cases "um_find (a_speakercontrols s) i") (auto simp: audio_core_def)
    with assms show ?thesis by (simp add: audio_core_def encoded_ok_def outgoing_current_def)
  qed
  with assms show ?thesis by (auto simp: setControl_def Let_def not_le)
qed

lemma audio_core_flushed:
  "audio_core s \<Longrightarrow> a_config s' = a_config s \<Longrightarrow> epoch_odd (a_sessionepoch s') = epoch_odd (a_sessionepoch s) \<Longrightarrow>
    a_outgoing s' = [] \<Longrightarrow> a_incoming s' = [] \<Longrightarrow> a_speakers s' \<in> {a_speakers s, []} \<Longrightarrow>
    a_speakercontrols s' \<in> {a_speakercontrols s, []} \<Longrightarrow> audio_core s'"
  by (auto simp: audio_core_def)

lemma transitions_core:
  assumes "audio_core s"
  shows "audio_core (audio_setEnabled b s)" "audio_core (setSession sid g pid s)" "audio_core (audio_stop s)"
  using assms
  by (auto simp: audio_setEnabled_def setSession_def audio_stop_def clearWorkerState_def clearOutgoing_def
      clearIncoming_def Let_def epoch_even_next intro!: audio_core_flushed [OF assms] split: if_splits)

lemma capture_transitions_core:
  assumes "audio_core s"
  shows "audio_core (setTransmitting b s)" "audio_core (setLocalMuted b s)"
  using assms by (auto simp: setTransmitting_def setLocalMuted_def clearOutgoing_def audio_core_def)

lemma audio_start_core: "audio_core s \<Longrightarrow> audio_core (snd (audio_start op setup s))"
proof (cases "setup")
  case (Some encoder)
  assume "audio_core s"
  then show ?thesis using Some by (simp add: audio_start_def audio_core_def encoded_ok_def)
qed (simp add: audio_start_def)

lemma transitions_staging [simp]:
  "a_staging (audio_setEnabled b s) = a_staging s" "a_staging (setSession sid g pid s) = a_staging s"
  "a_staging (audio_stop s) = a_staging s" "a_staging (setTransmitting b s) = a_staging s"
  "a_staging (setLocalMuted b s) = a_staging s" "a_staging (snd (audio_start op setup s)) = a_staging s"
  by (auto simp: audio_setEnabled_def setSession_def audio_stop_def clearWorkerState_def clearOutgoing_def
      clearIncoming_def Let_def setTransmitting_def setLocalMuted_def audio_start_def split: option.split)

subsection \<open>The worker keeps the invariant\<close>

lemma clearWorkerState_core: "audio_core s \<Longrightarrow> audio_core (clearWorkerState s) \<and> a_staging (clearWorkerState s) = a_staging s"
  by (simp add: clearWorkerState_def audio_core_def encoded_ok_def outgoing_current_def)

lemma drain_capture_core:
  "opus_ok op \<Longrightarrow> audio_core s \<Longrightarrow> audio_core (snd (drain_capture op n w s)) \<and>
    a_staging (snd (drain_capture op n w s)) = a_staging s"
  by (induction n arbitrary: w s) (auto simp: encodeFrame_core split: option.split prod.split)

lemma worker_observe_core:
  assumes "audio_core s"
  shows "audio_core (snd (worker_observe_capture (worker_observe_session now (w, s)))) \<and>
    a_staging (snd (worker_observe_capture (worker_observe_session now (w, s)))) = a_staging s"
  using assms clearWorkerState_core [OF assms]
  by (simp add: worker_observe_capture_def worker_observe_session_def Let_def)

lemma worker_capture_core:
  "opus_ok op \<Longrightarrow> audio_core s \<Longrightarrow> audio_core (snd (worker_capture op (w, s))) \<and>
    a_staging (snd (worker_capture op (w, s))) = a_staging s"
  using drain_capture_core [of op s] by (simp add: worker_capture_def del: drain_capture.simps)

lemma worker_mix_core:
  assumes "audio_core s"
  shows "audio_core (snd (worker_mix fl op now (w, s))) \<and> a_staging (snd (worker_mix fl op now (w, s))) = a_staging s"
proof -
  have "audio_core (updateSnapshots fl now (cleanupSpeakers now s)) \<and>
      a_staging (updateSnapshots fl now (cleanupSpeakers now s)) = a_staging s" if "audio_core s" for s
    using cleanupSpeakers_core [OF that] by (simp add: updateSnapshots_def)
  from this [OF assms] this [of "mixOneFrame fl op now s"] mixOneFrame_core [OF assms, of fl op now]
  show ?thesis by (simp add: worker_mix_def Let_def)
qed

lemma worker_turn_core:
  assumes "opus_ok op" "audio_core s"
  shows "audio_core (snd (worker_turn fl op setups now (w, s))) \<and>
    a_staging (snd (worker_turn fl op setups now (w, s))) = a_staging s"
proof -
  obtain w1 s1 where o1: "worker_observe_capture (worker_observe_session now (w, s)) = (w1, s1)"
    by (cases "worker_observe_capture (worker_observe_session now (w, s))")
  let ?s2 = "processIncoming op setups (wl_observedsession w1) now s1"
  obtain w3 s3 where o3: "worker_capture op (w1, ?s2) = (w3, s3)" by (cases "worker_capture op (w1, ?s2)")
  have 1: "audio_core s1 \<and> a_staging s1 = a_staging s" using worker_observe_core [OF assms(2), of now w] o1 by simp
  then have 2: "audio_core ?s2 \<and> a_staging ?s2 = a_staging s" using processIncoming_core [of s1] by simp
  then have "audio_core s3 \<and> a_staging s3 = a_staging s" using worker_capture_core [OF assms(1), of ?s2 w1] o3 by simp
  with worker_mix_core [of s3] assms(2) o1 o3 show ?thesis by (simp add: worker_turn_def)
qed

subsection \<open>The threads of the processor\<close>

text \<open>
  The capture and playback callbacks, the callers of the public operations and the worker
  interleave; a step is one callback, one public call or one turn of the worker under the work
  mutex. \<open>as_worker\<close> holds the worker's local variables while it runs; \<open>stop\<close> joins it.
\<close>

record ('f, 'd) audio_system =
  as_state :: "('f, 'd) AudioState"
  as_worker :: "WorkerLocals option"

inductive audio_step ::
  "'f fops \<Rightarrow> 'd opus \<Rightarrow> ('f, 'd) audio_system \<Rightarrow> ('f, 'd) audio_system \<Rightarrow> bool" for fl op where
  st_capture: "audio_step fl op y (y\<lparr>as_state := pushCaptured input (as_state y)\<rparr>)"
| st_playback: "audio_step fl op y (y\<lparr>as_state := snd (popPlayback n (as_state y))\<rparr>)"
| st_pop: "audio_step fl op y (y\<lparr>as_state := snd (popOutgoingPacket (as_state y))\<rparr>)"
| st_push: "audio_step fl op y (y\<lparr>as_state := snd (pushIncomingPacket p (as_state y))\<rparr>)"
| st_session: "audio_step fl op y (y\<lparr>as_state := setSession sid g pid (as_state y)\<rparr>)"
| st_clear: "audio_step fl op y (y\<lparr>as_state := clearSession (as_state y)\<rparr>)"
| st_enabled: "audio_step fl op y (y\<lparr>as_state := audio_setEnabled b (as_state y)\<rparr>)"
| st_transmitting: "audio_step fl op y (y\<lparr>as_state := setTransmitting b (as_state y)\<rparr>)"
| st_localmuted: "audio_step fl op y (y\<lparr>as_state := setLocalMuted b (as_state y)\<rparr>)"
| st_muted: "audio_step fl op y (y\<lparr>as_state := snd (setSpeakerMuted fl i b (as_state y))\<rparr>)"
| st_volume: "audio_step fl op y (y\<lparr>as_state := snd (setSpeakerVolume fl i v (as_state y))\<rparr>)"
| st_start: "audio_step fl op y (y\<lparr>as_state := snd (audio_start op codec (as_state y))\<rparr>)"
| st_stop: "audio_step fl op y (y\<lparr>as_state := audio_stop (as_state y), as_worker := None\<rparr>)"
| st_begin: "a_running (as_state y) \<Longrightarrow> as_worker y = None \<Longrightarrow> worker_begin now (as_state y) = (w, s) \<Longrightarrow>
    audio_step fl op y \<lparr>as_state = s, as_worker = Some w\<rparr>"
| st_turn: "as_worker y = Some w \<Longrightarrow> worker_turn fl op setups now (w, as_state y) = (w', s) \<Longrightarrow>
    audio_step fl op y \<lparr>as_state = s, as_worker = Some w'\<rparr>"

definition audio_init :: "('f, 'd) audio_system \<Rightarrow> bool" where
  "audio_init y \<longleftrightarrow> (\<exists>config. as_state y = audio_state config) \<and> as_worker y = None"

lemma audio_inv_init: "audio_init y \<Longrightarrow> audio_inv (as_state y)"
  using sanitizeConfig_ok
  by (auto simp: audio_init_def audio_inv_def audio_core_def audio_state_def Let_def epoch_odd_def)

lemma audio_inv_step:
  assumes "opus_ok op" "audio_inv (as_state y)" "audio_step fl op y y'"
  shows "audio_inv (as_state y')"
  using assms(3)
proof cases
  case st_capture with assms(2) show ?thesis by (simp add: audio_inv_pushCaptured)
next
  case st_playback with assms(2) show ?thesis by (simp add: audio_inv_popPlayback)
next
  case st_pop with assms(2) show ?thesis by (simp add: audio_inv_popOutgoing)
next
  case st_push with assms(2) show ?thesis by (simp add: audio_inv_pushIncoming)
next
  case st_begin with assms(2) show ?thesis by (auto simp: worker_begin_def audio_inv_def)
next
  case (st_turn w setups now w' s)
  with assms(2) worker_turn_core [OF assms(1), of "as_state y" fl setups now w] show ?thesis
    by (simp add: audio_inv_def)
qed (use assms(2) in \<open>simp_all add: audio_inv_def transitions_core capture_transitions_core audio_start_core
    clearSession_def setSpeakerMuted_def setSpeakerVolume_def setControl_core\<close>)

interpretation audio: step_system audio_init "audio_step fl op" "\<lambda>y. opus_ok op \<longrightarrow> audio_inv (as_state y)" for fl op
  by unfold_locales (auto intro: audio_inv_init audio_inv_step)

text \<open>C8. In every state the threads of the voice audio worker can reach, the session epoch is
  even, the queues and the staging area are within the configured bounds, every queued packet is of
  the current session, generation and epochs and passes the router's validator, every speaker's
  jitter buffer is bounded, holds no sequence number twice and only frames of the speaker's current
  stream, and at most the configured number of speakers is tracked.\<close>

theorem audio_invariant:
  assumes "opus_ok op" "reachable audio_init (audio_step fl op) y"
  shows "audio_inv (as_state y)"
  using audio.inv_reachable [OF assms(2)] assms(1) by simp

subsection \<open>What is sent\<close>

lemma pop_current_first:
  "pop_current s q = (Some f, rest) \<Longrightarrow> \<exists>stale. q = stale @ f # rest \<and> (\<forall>g \<in> set stale. \<not> outgoing_current s g)"
proof (induction q)
  case (Cons g q)
  show ?case
  proof (cases "outgoing_current s g")
    case False
    with Cons obtain stale where "q = stale @ f # rest" "\<forall>g \<in> set stale. \<not> outgoing_current s g" by auto
    with False show ?thesis by (intro exI [of _ "g # stale"]) simp
  qed (use Cons.prems in auto)
qed simp

text \<open>C9. Whatever the threads did before, a packet the processor hands to the network is running,
  active capture's first queued packet: it was captured in the current session and capture epoch, it
  carries the current session id and membership generation, and the router's validator accepts
  it.\<close>

theorem outgoing_packets_current:
  assumes "opus_ok op" "reachable audio_init (audio_step fl op) y"
    and "popOutgoingPacket (as_state y) = (Some packet, s')"
  shows "a_running (as_state y) \<and> captureActive (as_state y) \<and>
    gValidateTeamVoiceUplinkPacket packet = NONE \<and>
    up_sessionid packet = a_sessionid (as_state y) \<and>
    up_membershipgeneration packet = a_membershipgeneration (as_state y) \<and>
    (\<exists>frame. a_outgoing (as_state y) = frame # a_outgoing s' \<and> packet = outgoing_packet frame \<and>
      ef_sessionepoch frame = a_sessionepoch (as_state y) \<and> ef_captureepoch frame = a_captureepoch (as_state y))"
proof -
  let ?s = "as_state y"
  have inv: "audio_core ?s" using audio.inv_reachable [OF assms(2)] assms(1) by (simp add: audio_inv_def)
  obtain f rest where p: "a_running ?s" "captureActive ?s" "pop_current ?s (a_outgoing ?s) = (Some f, rest)"
    "packet = outgoing_packet f" "s' = ?s\<lparr>a_outgoing := rest\<rparr>"
    using assms(3) by (auto simp: popOutgoingPacket_def split: if_splits prod.splits)
  from pop_current_first [OF p(3)] obtain stale where
    q: "a_outgoing ?s = stale @ f # rest" "\<forall>g \<in> set stale. \<not> outgoing_current ?s g" by blast
  with inv have "stale = []" "encoded_ok ?s f" by (cases stale; auto simp: audio_core_def encoded_ok_def)+
  with p q show ?thesis by (auto simp: encoded_ok_def outgoing_current_def outgoing_packet_def)
qed

text \<open>Every change of session, of the transmit or mute state, and stopping, discards what was
  captured but not yet sent.\<close>

lemma transitions_silence:
  "popOutgoingPacket (setSession sid g pid s) = (None, setSession sid g pid s)"
  "popOutgoingPacket (clearSession s) = (None, clearSession s)"
  "popOutgoingPacket (audio_stop s) = (None, audio_stop s)"
  "b \<noteq> a_enabled s \<Longrightarrow> popOutgoingPacket (audio_setEnabled b s) = (None, audio_setEnabled b s)"
  "b \<noteq> a_transmitting s \<Longrightarrow> popOutgoingPacket (setTransmitting b s) = (None, setTransmitting b s)"
  "b \<noteq> a_localmuted s \<Longrightarrow> popOutgoingPacket (setLocalMuted b s) = (None, setLocalMuted b s)"
  by (auto simp: popOutgoingPacket_def setSession_def clearSession_def audio_stop_def audio_setEnabled_def
      setTransmitting_def setLocalMuted_def clearOutgoing_def clearIncoming_def clearWorkerState_def Let_def)

subsection \<open>Mixing\<close>

lemma sample_range: "- 32768 \<le> sint (x :: sample)" "sint (x :: sample) \<le> 32767"
  using sint_ge [of x] sint_lt [of x] by simp_all

lemma mix_sum_bounds:
  assumes "in_int32 (acc - int (length xs) * 32768)" "in_int32 (acc + int (length xs) * 32767)"
  shows "mix_sum (map Some xs) i acc = Some (acc + sum_list (map (\<lambda>x. sint (x ! i)) xs))"
  using assms
proof (induction xs arbitrary: acc)
  case (Cons x xs)
  have x: "- 32768 \<le> sint (x ! i)" "sint (x ! i) \<le> 32767"
    using sample_range by simp_all
  have "0 \<le> int (length xs)" by simp
  then have "in_int32 (acc + sint (x ! i))"
    using Cons.prems x by (simp add: in_int32_def algebra_simps)
  moreover have "in_int32 (acc + sint (x ! i) - int (length xs) * 32768)"
    "in_int32 (acc + sint (x ! i) + int (length xs) * 32767)"
    using Cons.prems x by (simp_all add: in_int32_def algebra_simps)
  ultimately show ?case using Cons.IH [of "acc + sint (x ! i)"] by (simp add: add.assoc)
qed simp

lemma mean_bounds:
  assumes "0 < n" "int n * - 32768 \<le> acc" "acc \<le> int n * 32767"
  shows "- 32768 \<le> acc sdiv int n" "acc sdiv int n \<le> 32767"
proof -
  have n: "0 < int n" using assms(1) by simp
  have "\<bar>acc\<bar> div int n \<le> 32768"
    using assms n zdiv_mono1 [of "\<bar>acc\<bar>" "int n * 32768" "int n"] by (simp add: abs_le_iff)
  moreover have "acc div int n \<le> 32767" using assms n zdiv_mono1 [of acc "int n * 32767" "int n"] by simp
  ultimately show "- 32768 \<le> acc sdiv int n" "acc sdiv int n \<le> 32767"
    using n pos_imp_zdiv_nonneg_iff [OF n, of acc] pos_imp_zdiv_nonneg_iff [OF n, of "- acc"]
    by (auto simp: signed_divide_int_def sgn_if)
qed

text \<open>The sum of at most 65535 samples never leaves 32 bits.\<close>

lemma mix_no_overflow:
  assumes "inputs \<noteq> []" "length inputs \<le> 65535"
  shows "mix_sample (map Some inputs) i =
    Some (word_of_int (sum_list (map (\<lambda>x. sint (x ! i)) inputs) sdiv int (length inputs)))"
proof -
  let ?t = "sum_list (map (\<lambda>x. sint (x ! i)) inputs)"
  have "?t \<le> int (length inputs) * 32767" "int (length inputs) * - 32768 \<le> ?t"
    using sample_range by (intro sum_list_map_le sum_list_map_ge; simp)+
  from mean_bounds [OF _ this(2,1)] assms(1)
  have "max (- 32768) (min 32767 (?t sdiv int (length inputs))) = ?t sdiv int (length inputs)" by simp
  moreover have "mix_sum (map Some inputs) i 0 = Some (0 + ?t)"
    using assms(2) by (intro mix_sum_bounds) (simp_all add: in_int32_def)
  ultimately show ?thesis by (simp add: mix_sample_def Let_def)
qed

text \<open>Mixing up to 65535 frames never overflows the 32-bit sum and never needs the clamp: the
  sample at each position is the mean of the inputs' samples, truncated towards zero.\<close>

theorem mix_is_mean:
  assumes "inputs \<noteq> []" "length inputs \<le> 65535"
  shows "\<exists>mixed. mixFrames (map Some inputs) samples = Some mixed \<and> length mixed = samples \<and>
    (\<forall>i < samples. sint (mixed ! i) = sum_list (map (\<lambda>x. sint (x ! i)) inputs) sdiv int (length inputs))"
proof -
  let ?mean = "\<lambda>i. sum_list (map (\<lambda>x. sint (x ! i)) inputs) sdiv int (length inputs)"
  let ?mixed = "map (\<lambda>i. word_of_int (?mean i) :: sample) [0..<samples]"
  have "those (map (\<lambda>i. Some (f i)) xs) = Some (map f xs)" for f :: "nat \<Rightarrow> sample" and xs
    by (induction xs) auto
  then have "mixFrames (map Some inputs) samples = Some ?mixed"
    using assms mix_no_overflow [OF assms] by (simp add: mixFrames_def cong: map_cong)
  moreover have "sint (word_of_int (?mean i) :: sample) = ?mean i" for i
  proof -
    have "sum_list (map (\<lambda>x. sint (x ! i)) inputs) \<le> int (length inputs) * 32767"
      "int (length inputs) * - 32768 \<le> sum_list (map (\<lambda>x. sint (x ! i)) inputs)"
      using sample_range by (intro sum_list_map_le sum_list_map_ge; simp)+
    from mean_bounds [OF _ this(2,1)] assms(1) show ?thesis
      by (simp add: sint_sbintrunc' signed_take_bit_int_eq_self)
  qed
  ultimately show ?thesis by (intro exI [of _ ?mixed]) simp
qed

lemma mix_is_mean_witness:
  "\<exists>mixed. mixFrames (map Some [[3, - 5], [4, - 6 :: sample]]) 2 = Some mixed \<and> length mixed = 2 \<and>
    sint (mixed ! 0) = 3 \<and> sint (mixed ! 1) = - 5"
proof -
  have "\<exists>mixed. mixFrames (map Some [[3, - 5], [4, - 6 :: sample]]) 2 = Some mixed \<and> length mixed = 2 \<and>
    (\<forall>i < 2. sint (mixed ! i) = sum_list (map (\<lambda>x. sint (x ! i)) [[3, - 5], [4, - 6 :: sample]]) sdiv
      int (length [[3, - 5], [4, - 6 :: sample]]))"
    by (rule mix_is_mean) simp_all
  then show ?thesis by (auto simp: signed_divide_int_def)
qed

subsection \<open>Capture is cut into frames without loss\<close>

definition capture_ready :: "u64 \<Rightarrow> u64 \<Rightarrow> u64 \<Rightarrow> ('f, 'd) AudioState \<Rightarrow> bool" where
  "capture_ready sessionepoch captureepoch position s \<longleftrightarrow>
     length (a_staging s) < FRAME_SAMPLES \<and> ring_ok (a_capturequeue s) \<and>
     (a_staging s \<noteq> [] \<longrightarrow> a_stagingsessionepoch s = sessionepoch \<and> a_stagingepoch s = captureepoch \<and>
       a_stagingposition s + word_of_nat (length (a_staging s)) = position)"

definition capture_room :: "nat \<Rightarrow> ('f, 'd) AudioState \<Rightarrow> bool" where
  "capture_room n s \<longleftrightarrow>
     length (ring_contents (a_capturequeue s)) + n \<le> ring_capacity (a_capturequeue s) \<and>
     n \<le> ring_budget (a_capturequeue s)"

text \<open>The frames a call adds to the queue, given what was staged and what came in.\<close>

definition frames_of ::
  "u64 \<Rightarrow> u64 \<Rightarrow> u64 \<Rightarrow> sample list \<Rightarrow> PcmFrame list \<Rightarrow> sample list \<Rightarrow> bool" where
  "frames_of sessionepoch captureepoch start samples frames rest \<longleftrightarrow>
     concat (map pcm_samples frames) @ rest = samples \<and> length rest < FRAME_SAMPLES \<and>
     (\<forall>k < length frames. length (pcm_samples (frames ! k)) = FRAME_SAMPLES \<and>
       pcm_sessionepoch (frames ! k) = sessionepoch \<and> pcm_captureepoch (frames ! k) = captureepoch \<and>
       pcm_sampleposition (frames ! k) = start + word_of_nat (k * FRAME_SAMPLES))"

lemma finish_frame_room:
  assumes "ring_ok (a_capturequeue s)" "capture_room (Suc n) s"
  shows "ring_ok (a_capturequeue (finish_frame s)) \<and> capture_room n (finish_frame s) \<and>
    ring_contents (a_capturequeue (finish_frame s)) = ring_contents (a_capturequeue s) @
      [\<lparr>pcm_samples = a_staging s, pcm_sessionepoch = a_stagingsessionepoch s,
        pcm_captureepoch = a_stagingepoch s, pcm_sampleposition = a_stagingposition s,
        pcm_discontinuity = a_capturediscontinuity s\<rparr>]"
proof -
  let ?q = "a_capturequeue s"
  let ?f = "\<lparr>pcm_samples = a_staging s, pcm_sessionepoch = a_stagingsessionepoch s,
        pcm_captureepoch = a_stagingepoch s, pcm_sampleposition = a_stagingposition s,
        pcm_discontinuity = a_capturediscontinuity s\<rparr>"
  have "unat (rg_write ?q) - unat (rg_read ?q) < length (rg_slots ?q)"
    using assms(2) by (simp add: capture_room_def ring_capacity_def ring_contents_length)
  then obtain q' where p: "spsc_push ?f ?q = (True, q')" by (simp add: spsc_push_copyInto [OF assms(1)])
  then have "spsc_put [?f] ?q = (1, q')" by (simp add: spsc_put_def)
  from spsc_put_ok [OF assms(1) _ this] assms(2) p show ?thesis
    by (simp add: finish_frame_def Let_def capture_room_def bump_def)
qed

lemma frames_of_Cons:
  assumes "frames_of se ce (start + word_of_nat FRAME_SAMPLES) samples frames rest"
    and "length (pcm_samples f) = FRAME_SAMPLES" "pcm_sessionepoch f = se" "pcm_captureepoch f = ce"
    and "pcm_sampleposition f = start"
  shows "frames_of se ce start (pcm_samples f @ samples) (f # frames) rest"
  using assms by (auto simp: frames_of_def nth_Cons algebra_simps split: nat.split)

lemma min_room: "(k :: nat) + l < n \<Longrightarrow> min l (n - k) = l"
  "\<not> k + l < n \<Longrightarrow> k < n \<Longrightarrow> min l (n - k) = n - k"
  by (auto simp: min_def)

lemma capture_turn_start:
  assumes "capture_ready se ce p s" "capture_turn se ce p input s = (n, s1)"
    and "s' = s\<lparr>a_stagingposition := p - word_of_nat (length (a_staging s)), a_stagingsessionepoch := se,
      a_stagingepoch := ce, a_staging := a_staging s @ take n input\<rparr>"
  shows "n = min (length input) (FRAME_SAMPLES - length (a_staging s))"
    and "s1 = (if length (a_staging s') = FRAME_SAMPLES then finish_frame s' else s')"
proof -
  have "a_stagingposition s = p - word_of_nat (length (a_staging s)) \<and> a_stagingsessionepoch s = se \<and>
      a_stagingepoch s = ce" if "a_staging s \<noteq> []"
    using assms(1) that by (auto simp: capture_ready_def)
  then have start: "(if a_staging s = [] then s\<lparr>a_stagingposition := p, a_stagingsessionepoch := se,
      a_stagingepoch := ce\<rparr> else s) = s\<lparr>a_stagingposition := p - word_of_nat (length (a_staging s)),
      a_stagingsessionepoch := se, a_stagingepoch := ce\<rparr>"
    by auto
  show "n = min (length input) (FRAME_SAMPLES - length (a_staging s))"
    and "s1 = (if length (a_staging s') = FRAME_SAMPLES then finish_frame s' else s')"
    using assms(2,3) unfolding capture_turn_def Let_def start by (auto simp del: FRAME_SAMPLES_eq)
qed

lemma capture_turn_frames:
  assumes "capture_ready se ce p s" "input \<noteq> []" "capture_turn se ce p input s = (n, s1)"
    and "capture_room ((length (a_staging s) + length input) div FRAME_SAMPLES) s"
  shows "(a_staging s1 = a_staging s @ input \<and> a_capturequeue s1 = a_capturequeue s \<and>
        a_stagingposition s1 = p - word_of_nat (length (a_staging s)) \<and>
        a_stagingsessionepoch s1 = se \<and> a_stagingepoch s1 = ce \<and> n = length input \<and>
        length (a_staging s) + length input < FRAME_SAMPLES) \<or>
    (\<exists>f. length (a_staging s) + n = FRAME_SAMPLES \<and> a_staging s1 = [] \<and> n \<le> length input \<and>
        pcm_samples f = a_staging s @ take n input \<and> pcm_sessionepoch f = se \<and> pcm_captureepoch f = ce \<and>
        pcm_sampleposition f = p - word_of_nat (length (a_staging s)) \<and> ring_ok (a_capturequeue s1) \<and>
        ring_contents (a_capturequeue s1) = ring_contents (a_capturequeue s) @ [f] \<and>
        capture_room ((length input - n) div FRAME_SAMPLES) s1)"
proof -
  let ?k = "length (a_staging s)"
  obtain s' where s': "s' = s\<lparr>a_stagingposition := p - word_of_nat ?k, a_stagingsessionepoch := se,
      a_stagingepoch := ce, a_staging := a_staging s @ take n input\<rparr>" by blast
  note turn = capture_turn_start [OF assms(1,3) s']
  have k: "?k < FRAME_SAMPLES" and ok: "ring_ok (a_capturequeue s)"
    using assms(1) by (auto simp: capture_ready_def)
  have fields: "a_staging s' = a_staging s @ take n input" "a_capturequeue s' = a_capturequeue s"
    "a_stagingposition s' = p - word_of_nat ?k" "a_stagingsessionepoch s' = se" "a_stagingepoch s' = ce"
    by (simp_all add: s')
  show ?thesis
  proof (cases "?k + length input < FRAME_SAMPLES")
    case True
    have n: "n = length input" using turn(1) min_room(1) [OF True] by (rule trans)
    with True fields(1) turn(2) have "s1 = s'" by simp
    with True n fields show ?thesis by simp
  next
    case False
    have c: "n = FRAME_SAMPLES - ?k" using turn(1) min_room(2) [OF False k] by (rule trans)
    with False k have n: "n \<le> length input" "?k + n = FRAME_SAMPLES" by linarith+
    with fields(1) turn(2) have full: "s1 = finish_frame s'" by simp
    have "?k + length input = FRAME_SAMPLES + (length input - n)" using n by linarith
    then have "(?k + length input) div FRAME_SAMPLES = Suc ((length input - n) div FRAME_SAMPLES)" by simp
    then have "capture_room (Suc ((length input - n) div FRAME_SAMPLES)) s'"
      using assms(4) fields(2) by (simp add: capture_room_def)
    from finish_frame_room [OF _ this] ok fields full n show ?thesis
      by (intro disjI2 exI [of _ "\<lparr>pcm_samples = a_staging s', pcm_sessionepoch = se, pcm_captureepoch = ce,
        pcm_sampleposition = p - word_of_nat ?k, pcm_discontinuity = a_capturediscontinuity s'\<rparr>"]) simp
  qed
qed

lemma capture_loop_frames:
  assumes "capture_ready se ce p s" "length input \<le> fuel"
    and "capture_room ((length (a_staging s) + length input) div FRAME_SAMPLES) s"
    and "capture_loop fuel se ce p input s = (left, s')"
  shows "\<exists>frames. ring_contents (a_capturequeue s') = ring_contents (a_capturequeue s) @ frames \<and>
    frames_of se ce (p - word_of_nat (length (a_staging s))) (a_staging s @ input) frames (a_staging s') \<and>
    capture_ready se ce (p + word_of_nat (length input)) s'"
  using assms
proof (induction fuel arbitrary: p input s)
  case 0
  then show ?case by (intro exI [of _ "[]"]) (simp add: frames_of_def capture_ready_def)
next
  case (Suc fuel)
  show ?case
  proof (cases "input = []")
    case True
    with Suc.prems show ?thesis by (intro exI [of _ "[]"]) (simp add: frames_of_def capture_ready_def)
  next
    case False
    let ?k = "length (a_staging s)"
    obtain n s1 where t: "capture_turn se ce p input s = (n, s1)" by (cases "capture_turn se ce p input s")
    have l: "capture_loop fuel se ce (p + word_of_nat n) (drop n input) s1 = (left, s')"
      using Suc.prems(4) t False by simp
    from capture_turn_frames [OF Suc.prems(1) False t Suc.prems(3)] show ?thesis
    proof
      assume a: "a_staging s1 = a_staging s @ input \<and> a_capturequeue s1 = a_capturequeue s \<and>
        a_stagingposition s1 = p - word_of_nat ?k \<and> a_stagingsessionepoch s1 = se \<and>
        a_stagingepoch s1 = ce \<and> n = length input \<and> ?k + length input < FRAME_SAMPLES"
      then have "s' = s1" using l by (cases fuel) auto
      with a Suc.prems(1) show ?thesis
        by (intro exI [of _ "[]"]) (simp add: frames_of_def capture_ready_def)
    next
      assume "\<exists>f. ?k + n = FRAME_SAMPLES \<and> a_staging s1 = [] \<and> n \<le> length input \<and>
        pcm_samples f = a_staging s @ take n input \<and> pcm_sessionepoch f = se \<and> pcm_captureepoch f = ce \<and>
        pcm_sampleposition f = p - word_of_nat ?k \<and> ring_ok (a_capturequeue s1) \<and>
        ring_contents (a_capturequeue s1) = ring_contents (a_capturequeue s) @ [f] \<and>
        capture_room ((length input - n) div FRAME_SAMPLES) s1"
      then obtain f where f: "?k + n = FRAME_SAMPLES" "a_staging s1 = []" "n \<le> length input"
        "pcm_samples f = a_staging s @ take n input" "pcm_sessionepoch f = se" "pcm_captureepoch f = ce"
        "pcm_sampleposition f = p - word_of_nat ?k" "ring_ok (a_capturequeue s1)"
        "ring_contents (a_capturequeue s1) = ring_contents (a_capturequeue s) @ [f]"
        "capture_room ((length input - n) div FRAME_SAMPLES) s1" by blast
      have "0 < n" using f(1) Suc.prems(1) by (simp add: capture_ready_def)
      then have "length (drop n input) \<le> fuel" using Suc.prems(2) f(3) by simp
      moreover have "capture_ready se ce (p + word_of_nat n) s1" using f by (simp add: capture_ready_def)
      moreover have "capture_room ((length (a_staging s1) + length (drop n input)) div FRAME_SAMPLES) s1"
        using f by simp
      ultimately obtain frames where fr:
        "ring_contents (a_capturequeue s') = ring_contents (a_capturequeue s1) @ frames"
        "frames_of se ce (p + word_of_nat n) (drop n input) frames (a_staging s')"
        "capture_ready se ce (p + word_of_nat n + word_of_nat (length input - n)) s'"
        using Suc.IH [OF _ _ _ l] f(2) by auto
      have "p - word_of_nat ?k + word_of_nat FRAME_SAMPLES = p + word_of_nat n"
        by (simp flip: f(1) del: FRAME_SAMPLES_eq)
      with fr(2) have "frames_of se ce (p - word_of_nat ?k + word_of_nat FRAME_SAMPLES) (drop n input) frames (a_staging s')"
        by (simp only:)
      from frames_of_Cons [OF this, of f] f(1,3-7)
      have "frames_of se ce (p - word_of_nat ?k) (a_staging s @ input) (f # frames) (a_staging s')"
        by (simp del: FRAME_SAMPLES_eq)
      moreover have "p + word_of_nat n + word_of_nat (length input - n) = p + word_of_nat (length input)"
        using f(3) by (simp only: add.assoc of_nat_add [symmetric] le_add_diff_inverse)
      ultimately show ?thesis using fr(1,3) f(9) by (intro exI [of _ "f # frames"]) (simp only: append.assoc append_Cons append_Nil simp_thms)
    qed
  qed
qed


lemma capture_loop_position:
  "capture_loop fuel se ce p input s = (left, s') \<Longrightarrow> a_captureposition s' = a_captureposition s"
  by (induction fuel arbitrary: p input s)
    (auto simp: capture_turn_def finish_frame_def bump_def Let_def split: if_splits prod.splits)

text \<open>While capture is active, the samples of a callback lose nothing: what was staged and
  what came in is exactly the concatenation of the frames added to the capture queue, each of 960
  samples, stamped with the current epochs and the position of its first sample in the capture
  stream, followed by the fewer than 960 samples that stay staged for the next callback.\<close>

theorem capture_is_chunked:
  assumes "a_running s" "captureActive s" "\<not> epoch_odd (a_sessionepoch s)"
    and "capture_ready (a_sessionepoch s) (a_captureepoch s) (a_captureposition s) s"
    and "capture_room ((length (a_staging s) + length input) div FRAME_SAMPLES) s"
  shows "\<exists>frames. ring_contents (a_capturequeue (pushCaptured (Some input) s)) =
      ring_contents (a_capturequeue s) @ frames \<and>
    frames_of (a_sessionepoch s) (a_captureepoch s) (a_captureposition s - word_of_nat (length (a_staging s)))
      (a_staging s @ input) frames (a_staging (pushCaptured (Some input) s)) \<and>
    capture_ready (a_sessionepoch s) (a_captureepoch s) (a_captureposition (pushCaptured (Some input) s))
      (pushCaptured (Some input) s)"
proof (cases "input = []")
  case True
  with assms(4) show ?thesis
    by (intro exI [of _ "[]"]) (simp add: pushCaptured_def frames_of_def capture_ready_def)
next
  case False
  obtain left s' where l: "capture_loop (length input) (a_sessionepoch s) (a_captureepoch s)
      (a_captureposition s) input s = (left, s')" by fastforce
  have cp: "a_captureposition s' = a_captureposition s" using capture_loop_position [OF l] .
  have "pushCaptured (Some input) s = s'\<lparr>a_captureposition := a_captureposition s + word_of_nat (length input)\<rparr>"
    using assms(1-4) False l cp by (auto simp: pushCaptured_def Let_def capture_ready_def)
  with capture_loop_frames [OF assms(4) order_refl assms(5) l] show ?thesis
    by (auto simp: capture_ready_def)
qed

subsection \<open>What the jitter buffer admits and drops\<close>

text \<open>The distance of a frame from a base sequence number; among frames less than half the sequence
  space ahead of the base, the wrapping comparison is the comparison of distances.\<close>

definition ahead :: "u32 \<Rightarrow> RemoteFrame \<Rightarrow> nat" where
  "ahead base f = unat (rf_sequence f - base)"

lemma newer_ahead:
  assumes "ahead base f < 2 ^ 31" "ahead base g < 2 ^ 31"
  shows "gIsTeamVoiceSequenceNewer (rf_sequence f) (rf_sequence g) \<longleftrightarrow> ahead base g < ahead base f"
proof -
  let ?x = "rf_sequence f - base" and ?y = "rf_sequence g - base"
  have d: "uint (rf_sequence f - rf_sequence g) = (uint ?x - uint ?y) mod 2 ^ 32"
    using uint_word_ariths(2) [of ?x ?y] by (simp add: algebra_simps)
  have xy: "uint ?x = int (ahead base f)" "uint ?y = int (ahead base g)"
    by (simp_all add: ahead_def)
  show ?thesis
  proof (cases "ahead base g \<le> ahead base f")
    case True
    then have "(uint ?x - uint ?y) mod 2 ^ 32 = int (ahead base f) - int (ahead base g)"
      using assms unfolding xy by (intro mod_pos_pos_trivial) simp_all
    with True assms show ?thesis unfolding sequence_newer_iff d by auto
  next
    case False
    then have "(uint ?x - uint ?y) mod 2 ^ 32 = (int (ahead base f) - int (ahead base g) + 2 ^ 32) mod 2 ^ 32"
      unfolding xy by simp
    also have "\<dots> = int (ahead base f) - int (ahead base g) + 2 ^ 32"
      using False assms by (intro mod_pos_pos_trivial) simp_all
    finally show ?thesis using False assms unfolding sequence_newer_iff d by auto
  qed
qed

lemma scan_oldest_least:
  assumes "scan_oldest i o' k rest = (j, g)" "ahead base o' < 2 ^ 31" "\<forall>h \<in> set rest. ahead base h < 2 ^ 31"
  shows "ahead base g \<le> ahead base o' \<and> (\<forall>h \<in> set rest. ahead base g \<le> ahead base h)"
  using assms
proof (induction rest arbitrary: i o' k)
  case (Cons c rest)
  have "ahead base c < 2 ^ 31" using Cons.prems(3) by simp
  note newer = newer_ahead [OF Cons.prems(2) this]
  show ?case
  proof (cases "gIsTeamVoiceSequenceNewer (rf_sequence o') (rf_sequence c)")
    case True
    with Cons.prems Cons.IH [of k c "Suc k"] newer show ?thesis by fastforce
  next
    case False
    with Cons.prems Cons.IH [of i o' "Suc k"] newer show ?thesis by fastforce
  qed
qed simp

lemma oldest_frame_least:
  assumes "oldest_frame jitter = Some (i, g)" "\<forall>h \<in> set jitter. ahead base h < 2 ^ 31"
  shows "\<forall>h \<in> set jitter. ahead base g \<le> ahead base h"
  using assms scan_oldest_least [of 0 _ 1 _ i g base]
  by (cases jitter) (auto simp: oldest_frame_def)

lemma ahead_inj: "ahead base f = ahead base g \<longleftrightarrow> rf_sequence f = rf_sequence g"
  by (simp add: ahead_def word_unat_eq_iff [symmetric])

definition in_window :: "RemoteFrame \<Rightarrow> 'd Speaker \<Rightarrow> bool" where
  "in_window f sp \<longleftrightarrow> (sp_hasexpected sp \<longrightarrow> ahead (sp_expectedsequence sp) f \<le> 250)"

lemma in_window_iff:
  "\<not> (sp_hasexpected sp \<and> rf_sequence f \<noteq> sp_expectedsequence sp
      \<and> \<not> gIsTeamVoiceSequenceNewer (rf_sequence f) (sp_expectedsequence sp)) \<and>
   \<not> (sp_hasexpected sp \<and> gIsTeamVoiceSequenceNewer (rf_sequence f) (sp_expectedsequence sp)
      \<and> gTeamVoiceSequenceDistance (rf_sequence f) (sp_expectedsequence sp) > MAX_FORWARD_SEQUENCE_JUMP) \<longleftrightarrow>
   in_window f sp"
proof -
  let ?e = "sp_expectedsequence sp"
  have "uint (rf_sequence f - ?e) = int (ahead ?e f)" by (simp add: ahead_def)
  moreover have "rf_sequence f = ?e \<longleftrightarrow> ahead ?e f = 0" by (simp add: ahead_def unat_eq_0)
  moreover have "gTeamVoiceSequenceDistance (rf_sequence f) ?e > MAX_FORWARD_SEQUENCE_JUMP \<longleftrightarrow> 250 < ahead ?e f"
    by (simp add: gTeamVoiceSequenceDistance_def MAX_FORWARD_SEQUENCE_JUMP_def ahead_def word_less_nat_alt)
  ultimately show ?thesis unfolding in_window_def sequence_newer_iff by auto
qed

lemma enqueue_frame_unfold:
  "sp_jitter (fst (enqueue_frame config now f sp c)) =
    (if \<not> in_window f sp \<or> rf_sequence f \<in> rf_sequence ` set (sp_jitter sp) then sp_jitter sp
     else if length (sp_jitter sp) < jitterpackets config then sp_jitter sp @ [f]
     else case oldest_frame (sp_jitter sp) of None \<Rightarrow> sp_jitter sp
       | Some (i, g) \<Rightarrow> if gIsTeamVoiceSequenceNewer (rf_sequence f) (rf_sequence g)
           then (sp_jitter sp)[i := f] else sp_jitter sp)"
proof -
  have dup: "list_ex (\<lambda>queued. rf_sequence queued = rf_sequence f) (sp_jitter sp) \<longleftrightarrow>
      rf_sequence f \<in> rf_sequence ` set (sp_jitter sp)" unfolding list_ex_iff image_iff by metis
  show ?thesis
    unfolding enqueue_frame_def in_window_iff [of sp f, symmetric] dup
    by (simp add: Let_def not_le split: option.split)
qed

text \<open>C12. A frame enters a speaker's jitter buffer exactly when it is at most 250 ahead of the frame
  expected next, is not queued already, and there is room or it is newer than the oldest queued
  frame; it then replaces nothing, or that oldest frame. Otherwise the buffer is unchanged.\<close>

theorem jitter_admission:
  assumes "speaker_ok config speakerid sp" "enqueue_frame config now f sp c = (sp', c')"
    and "\<forall>g \<in> insert f (set (sp_jitter sp)). ahead base g < 2 ^ 31" "1 \<le> jitterpackets config"
  shows "set (sp_jitter sp') =
    (if in_window f sp \<and> rf_sequence f \<notin> rf_sequence ` set (sp_jitter sp) \<and>
        (length (sp_jitter sp) < jitterpackets config \<or> (\<exists>g \<in> set (sp_jitter sp). ahead base g < ahead base f))
     then insert f (if length (sp_jitter sp) < jitterpackets config then set (sp_jitter sp)
       else {g \<in> set (sp_jitter sp). \<exists>h \<in> set (sp_jitter sp). ahead base h < ahead base g})
     else set (sp_jitter sp))"
proof -
  let ?j = "sp_jitter sp"
  have j': "sp_jitter sp' = sp_jitter (fst (enqueue_frame config now f sp c))" using assms(2) by simp
  show ?thesis
  proof (cases "in_window f sp \<and> rf_sequence f \<notin> rf_sequence ` set ?j \<and> \<not> length ?j < jitterpackets config")
    case False
    then show ?thesis unfolding j' enqueue_frame_unfold by auto
  next
    case True
    with assms(4) obtain i g where o: "oldest_frame ?j = Some (i, g)"
      by (cases ?j) (auto simp: oldest_frame_def, metis surj_pair)
    note at = oldest_frame_nth [OF o]
    have g: "g \<in> set ?j" using at nth_mem by fastforce
    have least: "\<forall>h \<in> set ?j. ahead base g \<le> ahead base h" using oldest_frame_least [OF o] assms(3) by simp
    have newer: "gIsTeamVoiceSequenceNewer (rf_sequence f) (rf_sequence g) \<longleftrightarrow> (\<exists>g \<in> set ?j. ahead base g < ahead base f)"
      using newer_ahead [of base f g] assms(3) g least by (auto intro: le_less_trans)
    have dist: "distinct (map rf_sequence ?j)" using assms(1) by (simp add: speaker_ok_def)
    then have "set (?j[i := f]) = insert f (set ?j - {g})"
      using set_update_distinct [of ?j i f] at by (simp add: distinct_map)
    also have "set ?j - {g} = {x \<in> set ?j. \<exists>h \<in> set ?j. ahead base h < ahead base x}"
    proof -
      have "x = g" if "x \<in> set ?j" "ahead base x \<le> ahead base g" for x
        using that least g ahead_inj [of base x g] dist by (auto simp: distinct_map inj_on_def dest: le_antisym)
      with least g show ?thesis by (auto simp: not_less, metis le_less_linear)
    qed
    finally show ?thesis using True o newer unfolding j' enqueue_frame_unfold by auto
  qed
qed

subsection \<open>Playback\<close>

lemma popPlayback_read:
  assumes "n \<noteq> 0" "sample_read n (if a_playbackclearrequested s then discardByConsumer (a_playbackring s)
      else a_playbackring s) = (xs, r)"
  shows "\<exists>s'. popPlayback (Some n) s = ((length xs, xs @ replicate (n - length xs) 0), s') \<and>
    a_playbackring s' = r \<and> \<not> a_playbackclearrequested s'"
proof (cases "a_playbackclearrequested s")
  case True
  with assms show ?thesis by (simp add: popPlayback_def Let_def bump_def)
next
  case False
  with assms show ?thesis by (simp add: popPlayback_def Let_def bump_def)
qed

lemma pending_split:
  assumes "pending = xs @ zs" "length xs = min n (length pending)"
  shows "xs = take n pending \<and> zs = drop n pending \<and> xs @ replicate (n - length xs) 0 = take n (pending @ replicate n 0)"
proof (cases "n \<le> length pending")
  case True
  have "length xs = n" using assms(2) unfolding min_absorb1 [OF True] .
  then show ?thesis unfolding assms(1) by simp
next
  case False
  then have "length pending \<le> n" by simp
  note len = assms(2) [unfolded min_absorb2 [OF this]]
  then have "zs = []" unfolding assms(1) by simp
  with False show ?thesis unfolding assms(1) by simp
qed

text \<open>A playback callback that asks for \<open>n\<close> samples gets \<open>n\<close>: the mixed samples that are pending,
  in order, then silence. After a change of session nothing mixed before it is played.\<close>

theorem playback_pads:
  assumes "ring_ok (a_playbackring s)" "popPlayback (Some n) s = ((got, out), s')"
    and "pending = (if a_playbackclearrequested s then [] else ring_contents (a_playbackring s))"
  shows "out = take n (pending @ replicate n 0) \<and> got = min n (length pending) \<and>
    (0 < n \<longrightarrow> ring_contents (a_playbackring s') = drop n pending \<and> \<not> a_playbackclearrequested s' \<and>
      ring_ok (a_playbackring s'))"
proof (cases "n = 0")
  case True
  with assms(2) show ?thesis by (simp add: popPlayback_def)
next
  case False
  let ?r = "if a_playbackclearrequested s then discardByConsumer (a_playbackring s) else a_playbackring s"
  obtain xs r' where r: "sample_read n ?r = (xs, r')" by (cases "sample_read n ?r")
  have "ring_ok ?r" "ring_contents ?r = pending" using assms(1,3) discard_ok [OF assms(1)] by simp_all
  with sample_ring.get_ok [OF this(1) r] have rd: "ring_ok r'" "pending = xs @ ring_contents r'"
    "length xs = min n (length pending)" by (simp_all only: simp_thms)
  note p = pending_split [OF rd(2,3)]
  have "got = length xs \<and> out = xs @ replicate (n - length xs) 0 \<and> a_playbackring s' = r' \<and>
      \<not> a_playbackclearrequested s'"
    using popPlayback_read [OF False r] assms(2) by auto
  with p rd(1,3) show ?thesis by simp
qed

subsection \<open>A run of the processor\<close>

definition example_opus :: "nat opus" where
  "example_opus = \<lparr>op_decode = (\<lambda>d _. (960, replicate 960 1, d + 1)), op_encode = (\<lambda>d _. (3, [1, 2, 3], d + 1)),
     op_error = (\<lambda>_. ''opus'')\<rparr>"

definition example_audio_config :: AudioConfig where
  "example_audio_config = \<lparr>captureframes = 1, outgoingpackets = 1, incomingpackets = 1, playbackframes = 1,
     maxspeakers = 1, jitterpackets = 2, initialjitterpackets = 1, maxplcframes = 1,
     speakertimeoutmilliseconds = 1000\<rparr>"

text \<open>Started, in a session, transmitting, with one frame captured and one turn of the worker.\<close>

definition example_talking :: "(rat, nat) AudioState" where
  "example_talking = setTransmitting True (setSession 7 1 9
     (snd (audio_start example_opus (Some 0) (audio_state example_audio_config))))"

definition example_worker :: "WorkerLocals \<times> (rat, nat) AudioState" where
  "example_worker = (case worker_begin 0 example_talking of (w, s) \<Rightarrow> (w, pushCaptured (Some (replicate 960 5)) s))"

definition example_sent :: "(rat, nat) audio_system" where
  "example_sent = (case worker_turn rat_fops example_opus (\<lambda>_. None) 0 example_worker of
     (w, s) \<Rightarrow> \<lparr>as_state = s, as_worker = Some w\<rparr>)"

lemma example_opus_ok: "opus_ok example_opus"
  by (auto simp: opus_ok_def example_opus_def NETWORK_MAX_OPUS_BYTES_def)

lemma example_talking_reachable:
  "reachable audio_init (audio_step rat_fops example_opus) \<lparr>as_state = example_talking, as_worker = None\<rparr>"
proof -
  let ?R = "reachable audio_init (audio_step rat_fops example_opus)"
  let ?y0 = "\<lparr>as_state = audio_state example_audio_config :: (rat, nat) AudioState, as_worker = None\<rparr>"
  have "?R ?y0" by (intro reach_init) (auto simp: audio_init_def)
  from reach_step [OF this st_start [where codec = "Some 0"]]
  have "?R (?y0\<lparr>as_state := snd (audio_start example_opus (Some 0) (audio_state example_audio_config))\<rparr>)" by simp
  from reach_step [OF this st_session [where sid = 7 and g = 1 and pid = 9]]
  have "?R (?y0\<lparr>as_state := setSession 7 1 9 (snd (audio_start example_opus (Some 0) (audio_state example_audio_config)))\<rparr>)" by simp
  from reach_step [OF this st_transmitting [where b = True]] show ?thesis by (simp add: example_talking_def)
qed

lemma example_sent_reachable: "reachable audio_init (audio_step rat_fops example_opus) example_sent"
proof -
  let ?R = "reachable audio_init (audio_step rat_fops example_opus)"
  obtain w s where b: "worker_begin 0 example_talking = (w, s)" by fastforce
  obtain w' s' where t: "worker_turn rat_fops example_opus (\<lambda>_. None) 0 example_worker = (w', s')" by fastforce
  have "a_running example_talking"
    by (simp add: example_talking_def audio_start_def audio_state_def Let_def setSession_def setTransmitting_def
        clearOutgoing_def clearIncoming_def)
  with reach_step [OF example_talking_reachable st_begin] b have "?R \<lparr>as_state = s, as_worker = Some w\<rparr>" by simp
  from reach_step [OF this st_capture [where input = "Some (replicate 960 5)"]]
  have "?R \<lparr>as_state = snd example_worker, as_worker = Some w\<rparr>" by (simp add: example_worker_def b)
  from reach_step [OF this st_turn [of _ w _ _ "\<lambda>_. None" 0 w' s']] t b show ?thesis
    by (simp add: example_sent_def example_worker_def)
qed

lemma audio_invariant_witness: "audio_inv (as_state example_sent)"
  by (rule audio_invariant [OF example_opus_ok example_sent_reachable])

lemma capture_loop_one:
  "capture_loop n se ce p [] s = ([], s)"
  "input \<noteq> [] \<Longrightarrow> capture_loop (length input) se ce p input s = (case capture_turn se ce p input s of (copy, s) \<Rightarrow>
    capture_loop (length input - 1) se ce (p + word_of_nat copy) (drop copy input) s)"
  by (cases n; simp) (cases input; simp)

lemmas example_simps = audio_start_def audio_state_def Let_def setSession_def setTransmitting_def
  clearOutgoing_def clearIncoming_def sanitizeConfig_def example_audio_config_def FRAME_MILLISECONDS_def

lemma example_talking_eq:
  "example_talking = (audio_state example_audio_config)\<lparr>a_encoder := Some 0, a_running := True,
     a_sessionepoch := 4, a_captureepoch := 4, a_sessionid := 7, a_membershipgeneration := 1,
     a_localplayerid := 9, a_playbackclearrequested := True, a_transmitting := True\<rparr>"
  by (simp add: example_talking_def example_simps)

definition example_frame :: PcmFrame where
  "example_frame = \<lparr>pcm_samples = replicate 960 5, pcm_sessionepoch = 4, pcm_captureepoch = 4,
     pcm_sampleposition = 0, pcm_discontinuity = False\<rparr>"

lemma example_worker_eq:
  "example_worker = (\<lparr>wl_observedsession = 4, wl_observedcapture = 4, wl_sequence = 0, wl_firstpacket = True,
     wl_nextmix = 0\<rparr>,
   example_talking\<lparr>a_streamgeneration := 1, a_capturequeue := \<lparr>rg_slots = [example_frame], rg_read = 0, rg_write = 1\<rparr>,
     a_stagingsessionepoch := 4, a_stagingepoch := 4, a_captureposition := 960,
     a_counters := zero_counters\<lparr>c_capturedframes := 1\<rparr>\<rparr>)"
proof -
  have b: "worker_begin 0 example_talking = (\<lparr>wl_observedsession = 4, wl_observedcapture = 4, wl_sequence = 0,
      wl_firstpacket = True, wl_nextmix = 0\<rparr>, example_talking\<lparr>a_streamgeneration := 1\<rparr>)"
    by (simp add: worker_begin_def example_talking_eq captureActive_def epoch_odd_def next_stream_def example_simps)
  have t: "capture_turn 4 4 0 (replicate 960 5) (example_talking\<lparr>a_streamgeneration := 1\<rparr>) =
     (960, example_talking\<lparr>a_streamgeneration := 1, a_capturequeue := \<lparr>rg_slots = [example_frame], rg_read = 0, rg_write = 1\<rparr>,
     a_stagingsessionepoch := 4, a_stagingepoch := 4, 
     a_counters := zero_counters\<lparr>c_capturedframes := 1\<rparr>\<rparr>)"
    by (simp add: capture_turn_def finish_frame_def bump_def example_talking_eq example_simps spsc_new_def spsc_push_def example_frame_def zero_counters_def)
  have l: "capture_loop 960 4 4 0 (replicate 960 5) (example_talking\<lparr>a_streamgeneration := 1\<rparr>) =
    ([], example_talking\<lparr>a_streamgeneration := 1, a_capturequeue := \<lparr>rg_slots = [example_frame], rg_read = 0, rg_write = 1\<rparr>,
     a_stagingsessionepoch := 4, a_stagingepoch := 4, a_counters := zero_counters\<lparr>c_capturedframes := 1\<rparr>\<rparr>)"
    using capture_loop_one(2) [of "replicate 960 (5 :: sample)" 4 4 0 "example_talking\<lparr>a_streamgeneration := 1\<rparr>"]
    by (simp add: t capture_loop_one(1))
  have f: "a_running example_talking" "captureActive (example_talking\<lparr>a_streamgeneration := 1\<rparr>)"
      "a_sessionepoch example_talking = 4" "a_captureepoch example_talking = 4" "a_staging example_talking = []"
      "a_captureposition example_talking = 0"
    by (simp_all add: example_talking_eq captureActive_def example_simps)
  have e: "\<not> epoch_odd 4" by (simp add: epoch_odd_def)
  show ?thesis unfolding example_worker_def b prod.case pushCaptured_def Let_def
    by (simp add: f e l)
qed

definition example_encoded :: EncodedFrame where
  "example_encoded = \<lparr>ef_flags = FLAG_STREAM_START, ef_sessionepoch = 4, ef_captureepoch = 4, ef_sessionid = 7,
     ef_membershipgeneration = 1, ef_streamgeneration = 1, ef_sequence = 0, ef_sampleposition = 0,
     ef_payload = [1, 2, 3]\<rparr>"

lemma example_encode:
  assumes "a_running s" "captureActive s" "a_sessionepoch s = 4" "a_captureepoch s = 4" "a_sessionid s = 7"
    "a_membershipgeneration s = 1" "a_outgoing s = []" "outgoingpackets (a_config s) = 1" "a_encoder s = Some 0"
  shows "\<exists>c. encodeFrame example_opus example_frame 1 0 True s =
    s\<lparr>a_encoder := Some 1, a_outgoing := [example_encoded], a_counters := c\<rparr>"
  using assms
  by (simp add: encodeFrame_def example_opus_def example_frame_def Let_def captureActive_def enqueue_encoded_def
      bump_def encoded_frame_def example_encoded_def) blast

definition example_queued :: "(rat, nat) AudioState \<Rightarrow> bool" where
  "example_queued s \<longleftrightarrow> a_running s \<and> captureActive s \<and> a_sessionepoch s = 4 \<and> a_captureepoch s = 4 \<and>
     a_sessionid s = 7 \<and> a_membershipgeneration s = 1 \<and> a_outgoing s = [example_encoded] \<and> a_speakers s = []"

lemma example_capture:
  assumes "a_running s" "captureActive s" "a_sessionepoch s = 4" "a_captureepoch s = 4" "a_sessionid s = 7"
    "a_membershipgeneration s = 1" "a_outgoing s = []" "outgoingpackets (a_config s) = 1" "a_encoder s = Some 0"
    "a_capturequeue s = \<lparr>rg_slots = [example_frame], rg_read = 0, rg_write = 1\<rparr>" "a_streamgeneration s = 1"
    "wl_observedsession w = 4" "wl_observedcapture w = 4" "wl_sequence w = 0" "wl_firstpacket w" "a_speakers s = []"
  shows "example_queued (snd (worker_capture example_opus (w, s)))"
proof -
  let ?q = "\<lparr>rg_slots = [example_frame], rg_read = 1 :: u64, rg_write = 1\<rparr>"
  have pop: "spsc_pop \<lparr>rg_slots = [example_frame], rg_read = 0, rg_write = 1\<rparr> = (Some example_frame, ?q)"
    "spsc_pop ?q = (None, ?q)"
    by (simp_all add: spsc_pop_def Let_def)
  have act: "captureActive (s\<lparr>a_capturequeue := ?q\<rparr>)" using assms(2) by (simp add: captureActive_def)
  obtain c where e: "encodeFrame example_opus example_frame 1 0 True (s\<lparr>a_capturequeue := ?q\<rparr>) =
    s\<lparr>a_capturequeue := ?q, a_encoder := Some 1, a_outgoing := [example_encoded], a_counters := c\<rparr>"
    using example_encode [of "s\<lparr>a_capturequeue := ?q\<rparr>"] assms act by auto
  have "length (rg_slots (a_capturequeue s)) + 1 = Suc (Suc 0)" by (simp add: assms)
  moreover have "pcm_sessionepoch example_frame = 4" "pcm_captureepoch example_frame = 4"
    by (simp_all add: example_frame_def)
  ultimately show ?thesis
    using assms act by (simp add: example_queued_def worker_capture_def pop e captureActive_def)
qed

lemma example_outgoing:
  "example_queued s \<Longrightarrow> fst (popOutgoingPacket s) = Some (outgoing_packet example_encoded)"
  by (simp add: example_queued_def popOutgoingPacket_def outgoing_current_def example_encoded_def)

lemma example_mix:
  "example_queued s \<Longrightarrow> example_queued (snd (worker_mix fl op now (w, s)))"
  by (auto simp: example_queued_def worker_mix_def Let_def mixOneFrame_def updateSnapshots_def cleanupSpeakers_def
      captureActive_def)

lemma example_sent_queued: "example_queued (as_state example_sent)"
proof -
  let ?w = "\<lparr>wl_observedsession = 4, wl_observedcapture = 4, wl_sequence = 0, wl_firstpacket = True, wl_nextmix = 0\<rparr>"
  obtain s where s: "example_worker = (?w, s)" by (simp add: example_worker_eq)
  have f: "a_running s" "captureActive s" "a_sessionepoch s = 4" "a_captureepoch s = 4" "a_incoming s = []"
     "a_sessionid s = 7" "a_membershipgeneration s = 1" "a_outgoing s = []" "a_speakers s = []" "outgoingpackets (a_config s) = 1"
     "a_encoder s = Some 0" "a_streamgeneration s = 1"
     "a_capturequeue s = \<lparr>rg_slots = [example_frame], rg_read = 0, rg_write = 1\<rparr>"
    using s by (auto simp: example_worker_eq example_talking_eq captureActive_def example_simps)
  have o: "worker_observe_capture (worker_observe_session 0 (?w, s)) = (?w, s)"
    by (simp add: worker_observe_capture_def worker_observe_session_def f)
  have i: "processIncoming example_opus (\<lambda>_. None) 4 0 s = s"
    using f(5) by (simp add: processIncoming_def Let_def)
  obtain w1 s1 where c: "worker_capture example_opus (?w, s) = (w1, s1)" by fastforce
  have q: "example_queued s1" using example_capture [of s ?w] f c by simp
  have e: "\<not> epoch_odd 4" by (simp add: epoch_odd_def)
  have "worker_turn rat_fops example_opus (\<lambda>_. None) 0 (?w, s) = worker_mix rat_fops example_opus 0 (w1, s1)"
    by (simp add: worker_turn_def o f e i c)
  with s example_mix [OF q] show ?thesis by (simp add: example_sent_def split_beta)
qed

lemma outgoing_packets_current_witness:
  "gValidateTeamVoiceUplinkPacket (outgoing_packet example_encoded) = NONE \<and>
   up_sessionid (outgoing_packet example_encoded) = 7"
proof -
  obtain s' where "popOutgoingPacket (as_state example_sent) = (Some (outgoing_packet example_encoded), s')"
    using example_outgoing [OF example_sent_queued] by (metis prod.collapse)
  from outgoing_packets_current [OF example_opus_ok example_sent_reachable this] show ?thesis
    using example_sent_queued by (simp add: example_queued_def)
qed

lemma capture_is_chunked_witness:
  "\<exists>frames. ring_contents (a_capturequeue (pushCaptured (Some [1, 2]) example_talking)) = frames \<and>
    frames_of 4 4 0 [1, 2] frames (a_staging (pushCaptured (Some [1, 2]) example_talking))"
proof -
  have f: "a_running example_talking" "captureActive example_talking" "a_staging example_talking = []"
    "\<not> epoch_odd (a_sessionepoch example_talking)" "a_sessionepoch example_talking = 4"
    "a_captureepoch example_talking = 4" "a_captureposition example_talking = 0"
    "a_capturequeue example_talking = spsc_new 1 empty_pcm"
    by (simp_all add: example_talking_eq captureActive_def example_simps epoch_odd_def)
  have "capture_ready 4 4 0 example_talking" by (simp add: capture_ready_def f ring_new_ok)
  moreover have "capture_room 0 example_talking" by (simp add: capture_room_def f ring_new_ok)
  ultimately show ?thesis
    using capture_is_chunked [of example_talking "[1, 2]"] f by (simp add: ring_new_ok)
qed

lemma playback_pads_witness:
  "\<exists>s'. popPlayback (Some 2) example_talking = ((0, [0, 0]), s')"
proof -
  have f: "ring_ok (a_playbackring example_talking)" "a_playbackclearrequested example_talking"
    by (simp_all add: example_talking_eq example_simps ring_new_ok)
  obtain got out s' where p: "popPlayback (Some 2) example_talking = ((got, out), s')" by (metis surj_pair)
  have e: "(if a_playbackclearrequested example_talking then [] else ring_contents (a_playbackring example_talking)) = []"
    using f(2) by simp
  from playback_pads [OF f(1) p refl] have "out = [0, 0]" "got = 0"
    unfolding e by (simp_all add: numeral_2_eq_2)
  with p show ?thesis by blast
qed

definition example_remote :: "u32 \<Rightarrow> RemoteFrame" where
  "example_remote sequence = \<lparr>rf_flags = 0, rf_sessionepoch = 4, rf_speakerid = 5, rf_speakergeneration = 1,
     rf_streamgeneration = 1, rf_sequence = sequence, rf_sampleposition = 0, rf_payload = [1]\<rparr>"

definition example_speaker :: "nat Speaker" where
  "example_speaker = (speaker_new 5 0 0)\<lparr>sp_speakergeneration := 1, sp_streamgeneration := 1,
     sp_jitter := [example_remote 12, example_remote 11], sp_hasexpected := True, sp_expectedsequence := 10\<rparr>"

text \<open>The buffer of two is full: frame 13 replaces the oldest, 11, which is not the first.\<close>

lemma jitter_admission_witness:
  "set (sp_jitter (fst (enqueue_frame example_audio_config 0 (example_remote 13) example_speaker zero_counters))) =
    {example_remote 13, example_remote 12}"
proof -
  obtain sp' c' where e: "enqueue_frame example_audio_config 0 (example_remote 13) example_speaker zero_counters = (sp', c')"
    by fastforce
  have ok: "speaker_ok example_audio_config 5 example_speaker"
    by (simp add: speaker_ok_def example_speaker_def speaker_new_def example_remote_def example_audio_config_def)
  have j: "sp_jitter example_speaker = [example_remote 12, example_remote 11]" "jitterpackets example_audio_config = 2"
    by (simp_all add: example_speaker_def example_audio_config_def)
  have d: "ahead 10 (example_remote 13) = 3" "ahead 10 (example_remote 12) = 2" "ahead 10 (example_remote 11) = 1"
    by (simp_all add: ahead_def example_remote_def)
  have w: "in_window (example_remote 13) example_speaker" "rf_sequence (example_remote 13) = 13"
    "rf_sequence (example_remote 12) = 12" "rf_sequence (example_remote 11) = 11"
    by (simp_all add: in_window_def example_speaker_def d) (simp_all add: example_remote_def)
  have "{g \<in> {example_remote 12, example_remote 11}. \<exists>h \<in> {example_remote 12, example_remote 11}.
      ahead 10 h < ahead 10 g} = {example_remote 12}"
    using d by auto
  with jitter_admission [OF ok e, of 10] show ?thesis
    unfolding e fst_conv j by (simp add: d w)
qed

end
