(* ===== verification/TeamVoice.thy ===== *)
theory TeamVoice
  imports AudioInvariants
begin

section \<open>The voice client\<close>

text \<open>
  \<open>audio/gTeamVoice.h\<close> and \<open>.cpp\<close>: the object that ties the audio worker to a sound device and to a
  session. Its state is the worker's together with the device's; miniaudio is a parameter
  (\<open>device_env\<close>), asked anew at each operation. A call under the network mutex is one step, and so
  is one callback of the device. Volumes are floats, as everywhere a record of operations.
\<close>

record 'd device_env =
  de_list :: "(string list \<times> string list) option"
  de_context :: bool
  de_init :: "bool \<Rightarrow> nat option \<Rightarrow> nat option \<Rightarrow> string option"
  de_start :: "string option"
  de_codec :: "'d option"

text \<open>\<open>de_list\<close> holds the names of the capture and the playback devices, when they can be listed;
  \<open>de_init\<close> and \<open>de_start\<close> answer with the description of an error. A device is its position in the
  list. \<open>de_codec\<close> is the encoder the worker gets when it starts.\<close>

record ('f, 'd) TeamVoiceState =
  tv_audio :: "('f, 'd) audio_system"
  tv_initialized :: bool
  tv_enabled :: bool
  tv_localmuted :: bool
  tv_micVolume :: 'f
  tv_playbackVolume :: 'f
  tv_captureDeviceIndex :: int
  tv_playbackDeviceIndex :: int
  tv_captureDeviceNames :: "string list"
  tv_playbackDeviceNames :: "string list"
  tv_deviceinitialized :: bool
  tv_lasterror :: string
  tv_sentpackets :: u64
  tv_sentbytes :: u64
  tv_sendfailures :: u64
  tv_rejectedpackets :: u64
  tv_malformedpackets :: u64

definition refreshDevices :: "'d device_env \<Rightarrow> ('f, 'd) TeamVoiceState \<Rightarrow> ('f, 'd) TeamVoiceState" where
  "refreshDevices env s = (case de_list env of None \<Rightarrow> s
   | Some (captures, playbacks) \<Rightarrow>
       s\<lparr>tv_captureDeviceNames := ''Varsayilan'' # captures, tv_playbackDeviceNames := ''Varsayilan'' # playbacks\<rparr>)"

definition team_voice :: "'f fops \<Rightarrow> 'd device_env \<Rightarrow> AudioConfig \<Rightarrow> ('f, 'd) TeamVoiceState" where
  "team_voice fl env config = refreshDevices env \<lparr>tv_audio = \<lparr>as_state = audio_state config, as_worker = None\<rparr>,
     tv_initialized = False, tv_enabled = True, tv_localmuted = False, tv_micVolume = flit fl 1,
     tv_playbackVolume = flit fl 1, tv_captureDeviceIndex = 0, tv_playbackDeviceIndex = 0,
     tv_captureDeviceNames = [], tv_playbackDeviceNames = [], tv_deviceinitialized = False,
     tv_lasterror = [], tv_sentpackets = 0, tv_sentbytes = 0, tv_sendfailures = 0,
     tv_rejectedpackets = 0, tv_malformedpackets = 0\<rparr>"

subsection \<open>The device\<close>

definition on_audio ::
  "(('f, 'd) AudioState \<Rightarrow> ('f, 'd) AudioState) \<Rightarrow> ('f, 'd) TeamVoiceState \<Rightarrow> ('f, 'd) TeamVoiceState" where
  "on_audio f s = s\<lparr>tv_audio := (tv_audio s)\<lparr>as_state := f (as_state (tv_audio s))\<rparr>\<rparr>"

definition processor_stop :: "('f, 'd) TeamVoiceState \<Rightarrow> ('f, 'd) TeamVoiceState" where
  "processor_stop s =
     s\<lparr>tv_audio := (tv_audio s)\<lparr>as_state := audio_stop (as_state (tv_audio s)), as_worker := None\<rparr>\<rparr>"

definition chosen_device :: "int \<Rightarrow> string list \<Rightarrow> nat option" where
  "chosen_device index names =
     (if index > 0 \<and> index \<le> int (length names - 1) then Some (nat index - 1) else None)"

definition open_device :: "'d device_env \<Rightarrow> ('f, 'd) TeamVoiceState \<Rightarrow> string option" where
  "open_device env s =
     (let capture = chosen_device (tv_captureDeviceIndex s) (tv_captureDeviceNames s);
          playback = chosen_device (tv_playbackDeviceIndex s) (tv_playbackDeviceNames s)
      in case de_init env (de_context env) capture playback of
           None \<Rightarrow> None
         | Some e \<Rightarrow> if de_context env then de_init env False capture playback else Some e)"

definition voice_initialize ::
  "'d opus \<Rightarrow> 'd device_env \<Rightarrow> ('f, 'd) TeamVoiceState \<Rightarrow> bool \<times> ('f, 'd) TeamVoiceState" where
  "voice_initialize op env s =
     (if tv_initialized s then (True, s)
      else let s = s\<lparr>tv_lasterror := []\<rparr>;
               s = (if tv_deviceinitialized s then processor_stop (s\<lparr>tv_deviceinitialized := False\<rparr>) else s);
               (started, audio) = audio_start op (de_codec env) (as_state (tv_audio s));
               s = on_audio (\<lambda>_. audio) s
        in if \<not> started then (False, s\<lparr>tv_lasterror := a_lasterror audio\<rparr>)
           else (case open_device env s of
                   Some e \<Rightarrow> (False, processor_stop (s\<lparr>tv_lasterror := e\<rparr>))
                 | None \<Rightarrow>
                    (let s = s\<lparr>tv_deviceinitialized := True, tv_initialized := True\<rparr> in
                     case de_start env of None \<Rightarrow> (True, s)
                     | Some e \<Rightarrow> (False, processor_stop (s\<lparr>tv_lasterror := e, tv_initialized := False,
                         tv_deviceinitialized := False\<rparr>)))))"

definition voice_shutdown :: "('f, 'd) TeamVoiceState \<Rightarrow> ('f, 'd) TeamVoiceState" where
  "voice_shutdown s =
     (let s = s\<lparr>tv_initialized := False\<rparr>;
          s = on_audio (setTransmitting False) s;
          s = s\<lparr>tv_deviceinitialized := False\<rparr>
      in processor_stop s)"

definition device_stopped :: "('f, 'd) TeamVoiceState \<Rightarrow> ('f, 'd) TeamVoiceState" where
  "device_stopped s = s\<lparr>tv_initialized := False\<rparr>"

text \<open>A gain within a hundredth of one leaves the samples alone; another is applied with saturation.\<close>

definition gain_applies :: "'f fops \<Rightarrow> 'f \<Rightarrow> bool" where
  "gain_applies fl gain =
     (let d = fsub fl gain (flit fl 1); d = (if flt fl d (flit fl 0) then fsub fl (flit fl 0) d else d)
      in flt fl (flit fl (1 / 100)) d)"

definition gain_sample :: "'f fops \<Rightarrow> 'f \<Rightarrow> sample \<Rightarrow> sample" where
  "gain_sample fl gain s =
     (let v = fmul fl (flit fl (of_int (sint s))) gain;
          v = (if flt fl (flit fl 32767) v then flit fl 32767
               else if flt fl v (flit fl (- 32768)) then flit fl (- 32768) else v)
      in word_of_int (ftrunc fl v))"

definition with_gain :: "'f fops \<Rightarrow> 'f \<Rightarrow> sample list \<Rightarrow> sample list" where
  "with_gain fl gain samples = (if gain_applies fl gain then map (gain_sample fl gain) samples else samples)"

text \<open>The callback of the device: what it captured, if it captures, and the number of samples to play,
  if it plays. It returns what is played.\<close>

definition dataCallback ::
  "'f fops \<Rightarrow> sample list option \<Rightarrow> nat option \<Rightarrow> ('f, 'd) TeamVoiceState
     \<Rightarrow> sample list option \<times> ('f, 'd) TeamVoiceState" where
  "dataCallback fl input framecount s =
     (if \<not> tv_initialized s \<or> \<not> tv_enabled s
      then (map_option (\<lambda>n. replicate n 0) framecount, s)
      else let s = (case input of None \<Rightarrow> s
                 | Some samples \<Rightarrow> on_audio (pushCaptured (Some (with_gain fl (tv_micVolume s) samples))) s)
        in case framecount of None \<Rightarrow> (None, s)
           | Some n \<Rightarrow>
              (let played = popPlayback (Some n) (as_state (tv_audio s));
                   out = snd (fst played);
                   s = on_audio (\<lambda>_. snd played) s
               in (Some (with_gain fl (tv_playbackVolume s) out), s)))"
subsection \<open>Controls\<close>

definition voice_setEnabled :: "bool \<Rightarrow> ('f, 'd) TeamVoiceState \<Rightarrow> ('f, 'd) TeamVoiceState" where
  "voice_setEnabled enabled s =
     (let s = s\<lparr>tv_enabled := enabled\<rparr> in if \<not> enabled then on_audio (setTransmitting False) s else s)"

definition voice_isTransmitting :: "('f, 'd) TeamVoiceState \<Rightarrow> bool" where
  "voice_isTransmitting s = a_transmitting (as_state (tv_audio s))"

definition startTransmitting :: "('f, 'd) TeamVoiceState \<Rightarrow> ('f, 'd) TeamVoiceState" where
  "startTransmitting s =
     (if voice_isTransmitting s then s else if tv_enabled s then on_audio (setTransmitting True) s else s)"

definition stopTransmitting :: "('f, 'd) TeamVoiceState \<Rightarrow> ('f, 'd) TeamVoiceState" where
  "stopTransmitting s = (if \<not> voice_isTransmitting s then s else on_audio (setTransmitting False) s)"

definition voice_setLocalMuted :: "bool \<Rightarrow> ('f, 'd) TeamVoiceState \<Rightarrow> ('f, 'd) TeamVoiceState" where
  "voice_setLocalMuted muted s = on_audio (setLocalMuted muted) (s\<lparr>tv_localmuted := muted\<rparr>)"

definition voice_setSpeakerMuted ::
  "'f fops \<Rightarrow> u64 \<Rightarrow> bool \<Rightarrow> ('f, 'd) TeamVoiceState \<Rightarrow> bool \<times> ('f, 'd) TeamVoiceState" where
  "voice_setSpeakerMuted fl speakerid muted s =
     (let (ok, audio) = setSpeakerMuted fl speakerid muted (as_state (tv_audio s)) in (ok, on_audio (\<lambda>_. audio) s))"

definition voice_setSpeakerVolume ::
  "'f fops \<Rightarrow> u64 \<Rightarrow> 'f \<Rightarrow> ('f, 'd) TeamVoiceState \<Rightarrow> bool \<times> ('f, 'd) TeamVoiceState" where
  "voice_setSpeakerVolume fl speakerid volume s =
     (let (ok, audio) = setSpeakerVolume fl speakerid volume (as_state (tv_audio s)) in (ok, on_audio (\<lambda>_. audio) s))"

definition clamp_volume :: "int \<Rightarrow> int \<Rightarrow> int" where
  "clamp_volume most volume =
     (let volume = (if volume < 0 then 0 else volume) in if volume > most then most else volume)"

definition setMicrophoneVolume :: "'f fops \<Rightarrow> int \<Rightarrow> ('f, 'd) TeamVoiceState \<Rightarrow> ('f, 'd) TeamVoiceState" where
  "setMicrophoneVolume fl volume s =
     s\<lparr>tv_micVolume := fdiv fl (flit fl (of_int (clamp_volume 200 volume))) (flit fl 100)\<rparr>"

definition setPlaybackVolume :: "'f fops \<Rightarrow> int \<Rightarrow> ('f, 'd) TeamVoiceState \<Rightarrow> ('f, 'd) TeamVoiceState" where
  "setPlaybackVolume fl volume s =
     s\<lparr>tv_playbackVolume := fdiv fl (flit fl (of_int (clamp_volume 100 volume))) (flit fl 100)\<rparr>"

text \<open>A new device restarts a running client.\<close>

definition restart :: "'d opus \<Rightarrow> 'd device_env \<Rightarrow> ('f, 'd) TeamVoiceState \<Rightarrow> ('f, 'd) TeamVoiceState" where
  "restart op env s = (if tv_initialized s then snd (voice_initialize op env (voice_shutdown s)) else s)"

definition setCaptureDeviceIndex ::
  "'d opus \<Rightarrow> 'd device_env \<Rightarrow> int \<Rightarrow> ('f, 'd) TeamVoiceState \<Rightarrow> ('f, 'd) TeamVoiceState" where
  "setCaptureDeviceIndex op env index s =
     (if tv_captureDeviceIndex s = index then s else restart op env (s\<lparr>tv_captureDeviceIndex := index\<rparr>))"

definition setPlaybackDeviceIndex ::
  "'d opus \<Rightarrow> 'd device_env \<Rightarrow> int \<Rightarrow> ('f, 'd) TeamVoiceState \<Rightarrow> ('f, 'd) TeamVoiceState" where
  "setPlaybackDeviceIndex op env index s =
     (if tv_playbackDeviceIndex s = index then s else restart op env (s\<lparr>tv_playbackDeviceIndex := index\<rparr>))"

definition getCaptureDeviceNames ::
  "'d device_env \<Rightarrow> ('f, 'd) TeamVoiceState \<Rightarrow> string list \<times> ('f, 'd) TeamVoiceState" where
  "getCaptureDeviceNames env s = (let s = refreshDevices env s in (tv_captureDeviceNames s, s))"

definition getPlaybackDeviceNames ::
  "'d device_env \<Rightarrow> ('f, 'd) TeamVoiceState \<Rightarrow> string list \<times> ('f, 'd) TeamVoiceState" where
  "getPlaybackDeviceNames env s = (let s = refreshDevices env s in (tv_playbackDeviceNames s, s))"

definition voice_getLastError :: "('f, 'd) TeamVoiceState \<Rightarrow> string" where
  "voice_getLastError s =
     (if tv_lasterror s \<noteq> [] then tv_lasterror s else a_lasterror (as_state (tv_audio s)))"

subsection \<open>The network side\<close>

definition voice_handleSessionPacket ::
  "gTeamVoiceSessionPacket \<Rightarrow> ('f, 'd) TeamVoiceState \<Rightarrow> ('f, 'd) TeamVoiceState" where
  "voice_handleSessionPacket packet s =
     (if gValidateTeamVoiceSessionPacket packet \<noteq> NONE
      then s\<lparr>tv_malformedpackets := tv_malformedpackets s + 1\<rparr>
      else if \<not> ss_enabled packet then on_audio (\<lambda>a. clearSession (setTransmitting False a)) s
      else on_audio (setSession (ss_sessionid packet) (ss_membershipgeneration packet) (ss_playerid packet)) s)"

definition voice_handleVoicePacket ::
  "gTeamVoiceDownlinkPacket \<Rightarrow> ('f, 'd) TeamVoiceState \<Rightarrow> ('f, 'd) TeamVoiceState" where
  "voice_handleVoicePacket packet s =
     (let (pushed, audio) = pushIncomingPacket packet (as_state (tv_audio s));
          s = on_audio (\<lambda>_. audio) s
      in if pushed then s else s\<lparr>tv_rejectedpackets := tv_rejectedpackets s + 1\<rparr>)"

definition voice_reportMalformedPacket :: "('f, 'd) TeamVoiceState \<Rightarrow> ('f, 'd) TeamVoiceState" where
  "voice_reportMalformedPacket s = s\<lparr>tv_malformedpackets := tv_malformedpackets s + 1\<rparr>"

definition resetSession :: "('f, 'd) TeamVoiceState \<Rightarrow> ('f, 'd) TeamVoiceState" where
  "resetSession s = on_audio (\<lambda>a. clearSession (setTransmitting False a)) s"

text \<open>The loop of \<open>updateNetwork\<close> hands every packet of the outgoing queue to the callback once; each
  turn shortens the queue, so one turn more than its length ends it (\<open>send_loop_done\<close>). \<open>send\<close>
  answers for the turn and the packet; a null callback answers \<open>False\<close>.\<close>

fun send_loop ::
  "(nat \<Rightarrow> gTeamVoiceUplinkPacket \<Rightarrow> bool) \<Rightarrow> nat \<Rightarrow> nat \<Rightarrow> ('f, 'd) TeamVoiceState
     \<Rightarrow> (gTeamVoiceUplinkPacket \<times> bool) list \<times> ('f, 'd) TeamVoiceState" where
  "send_loop send turn 0 s = ([], s)"
| "send_loop send turn (Suc fuel) s = (case popOutgoingPacket (as_state (tv_audio s)) of
     (None, audio) \<Rightarrow> ([], on_audio (\<lambda>_. audio) s)
   | (Some packet, audio) \<Rightarrow>
       (let s = on_audio (\<lambda>_. audio) s;
            ok = send turn packet;
            s = (if ok then s\<lparr>tv_sentpackets := tv_sentpackets s + 1,
                     tv_sentbytes := tv_sentbytes s + word_of_nat (length (up_payload packet))\<rparr>
                 else s\<lparr>tv_sendfailures := tv_sendfailures s + 1\<rparr>);
            (others, s) = send_loop send (turn + 1) fuel s
        in ((packet, ok) # others, s)))"

definition updateNetwork_with ::
  "(nat \<Rightarrow> gTeamVoiceUplinkPacket \<Rightarrow> bool) \<Rightarrow> ('f, 'd) TeamVoiceState
     \<Rightarrow> (gTeamVoiceUplinkPacket \<times> bool) list \<times> ('f, 'd) TeamVoiceState" where
  "updateNetwork_with send s =
     (if \<not> tv_initialized s \<or> \<not> tv_enabled s then ([], s)
      else send_loop send 0 (length (a_outgoing (as_state (tv_audio s))) + 1) s)"

text \<open>Over a session: it has to be alive and of the ZDT transport.\<close>

definition voice_updateNetwork ::
  "bool \<Rightarrow> bool \<Rightarrow> (nat \<Rightarrow> gTeamVoiceUplinkPacket \<Rightarrow> bool) \<Rightarrow> ('f, 'd) TeamVoiceState
     \<Rightarrow> (gTeamVoiceUplinkPacket \<times> bool) list \<times> ('f, 'd) TeamVoiceState" where
  "voice_updateNetwork alive zdt send s =
     (if \<not> alive \<or> \<not> zdt then ([], s) else updateNetwork_with send s)"

record TeamVoiceStats =
  vs_audio :: AudioCounters
  vs_sentpackets :: u64
  vs_sentbytes :: u64
  vs_sendfailures :: u64
  vs_rejectedpackets :: u64
  vs_malformedpackets :: u64

definition voice_getStats :: "('f, 'd) TeamVoiceState \<Rightarrow> TeamVoiceStats" where
  "voice_getStats s = \<lparr>vs_audio = getAudioStats (as_state (tv_audio s)), vs_sentpackets = tv_sentpackets s,
     vs_sentbytes = tv_sentbytes s, vs_sendfailures = tv_sendfailures s,
     vs_rejectedpackets = tv_rejectedpackets s, vs_malformedpackets = tv_malformedpackets s\<rparr>"

subsection \<open>The client as a system\<close>

text \<open>A step is an operation of the client, a callback of its device, or a turn of the worker that runs
  behind it.\<close>

inductive team_voice_step ::
  "'f fops \<Rightarrow> 'd opus \<Rightarrow> ('f, 'd) TeamVoiceState \<Rightarrow> ('f, 'd) TeamVoiceState \<Rightarrow> bool" for fl op where
  tv_init: "team_voice_step fl op s (snd (voice_initialize op env s))"
| tv_shut: "team_voice_step fl op s (voice_shutdown s)"
| tv_lost: "team_voice_step fl op s (device_stopped s)"
| tv_data: "team_voice_step fl op s (snd (dataCallback fl input n s))"
| tv_enable: "team_voice_step fl op s (voice_setEnabled b s)"
| tv_start: "team_voice_step fl op s (startTransmitting s)"
| tv_stop: "team_voice_step fl op s (stopTransmitting s)"
| tv_mute: "team_voice_step fl op s (voice_setLocalMuted b s)"
| tv_speaker_mute: "team_voice_step fl op s (snd (voice_setSpeakerMuted fl i b s))"
| tv_speaker_volume: "team_voice_step fl op s (snd (voice_setSpeakerVolume fl i v s))"
| tv_mic: "team_voice_step fl op s (setMicrophoneVolume fl k s)"
| tv_play: "team_voice_step fl op s (setPlaybackVolume fl k s)"
| tv_capture_device: "team_voice_step fl op s (setCaptureDeviceIndex op env k s)"
| tv_playback_device: "team_voice_step fl op s (setPlaybackDeviceIndex op env k s)"
| tv_names: "team_voice_step fl op s (refreshDevices env s)"
| tv_session: "team_voice_step fl op s (voice_handleSessionPacket p s)"
| tv_voice: "team_voice_step fl op s (voice_handleVoicePacket q s)"
| tv_malformed: "team_voice_step fl op s (voice_reportMalformedPacket s)"
| tv_reset: "team_voice_step fl op s (resetSession s)"
| tv_network: "team_voice_step fl op s (snd (voice_updateNetwork alive zdt send s))"
| tv_worker: "audio_step fl op (tv_audio s) y \<Longrightarrow> team_voice_step fl op s (s\<lparr>tv_audio := y\<rparr>)"

definition voice_init :: "'f fops \<Rightarrow> ('f, 'd) TeamVoiceState \<Rightarrow> bool" where
  "voice_init fl s \<longleftrightarrow> (\<exists>env config. s = team_voice fl env config)"

lemma tv_audio_simps [simp]:
  "tv_audio (on_audio f s) = (tv_audio s)\<lparr>as_state := f (as_state (tv_audio s))\<rparr>"
  "tv_audio (refreshDevices env s) = tv_audio s"
  "tv_audio (processor_stop s) = (tv_audio s)\<lparr>as_state := audio_stop (as_state (tv_audio s)), as_worker := None\<rparr>"
  by (auto simp: on_audio_def refreshDevices_def processor_stop_def split: option.split)

lemma audio_two: "audio_step fl op x y \<Longrightarrow> audio_step fl op y z \<Longrightarrow> (audio_step fl op)\<^sup>*\<^sup>* x z"
  by (meson r_into_rtranclp rtranclp.rtrancl_into_rtrancl)

lemma start_audio:
  "audio_start op codec a = (b, a') \<Longrightarrow> as_state y = a \<Longrightarrow> audio_step fl op y (y\<lparr>as_state := a'\<rparr>)"
  using audio_step.st_start [of fl op y codec] by simp

lemma stopped_audio: "audio_step fl op y (y\<lparr>as_state := audio_stop (as_state y), as_worker := None\<rparr>)"
  by (rule audio_step.st_stop)

lemma initialize_audio: "(audio_step fl op)\<^sup>*\<^sup>* (tv_audio s) (tv_audio (snd (voice_initialize op env s)))"
proof (cases "tv_initialized s")
  case False
  define s1 where "s1 = (if tv_deviceinitialized s then processor_stop (s\<lparr>tv_lasterror := [], tv_deviceinitialized := False\<rparr>)
    else s\<lparr>tv_lasterror := []\<rparr>)"
  have 1: "(audio_step fl op)\<^sup>*\<^sup>* (tv_audio s) (tv_audio s1)"
  proof (cases "tv_deviceinitialized s")
    case True
    have "(audio_step fl op)\<^sup>*\<^sup>* (tv_audio s)
        ((tv_audio s)\<lparr>as_state := audio_stop (as_state (tv_audio s)), as_worker := None\<rparr>)"
      by (rule r_into_rtranclp) (rule stopped_audio)
    with True show ?thesis by (simp add: s1_def)
  qed (simp add: s1_def)
  obtain started a where a: "audio_start op (de_codec env) (as_state (tv_audio s1)) = (started, a)" by fastforce
  let ?y = "(tv_audio s1)\<lparr>as_state := a\<rparr>"
  have 2: "(audio_step fl op)\<^sup>*\<^sup>* (tv_audio s) ?y"
    using 1 start_audio [OF a refl] by (rule rtranclp.rtrancl_into_rtrancl)
  have "audio_step fl op ?y (?y\<lparr>as_state := audio_stop a, as_worker := None\<rparr>)"
    using stopped_audio [of fl op ?y] by simp
  with 2 have 3: "(audio_step fl op)\<^sup>*\<^sup>* (tv_audio s) (?y\<lparr>as_state := audio_stop a, as_worker := None\<rparr>)"
    by (rule rtranclp.rtrancl_into_rtrancl)
  have run: "snd (voice_initialize op env s) =
      (if \<not> started then (on_audio (\<lambda>_. a) s1)\<lparr>tv_lasterror := a_lasterror a\<rparr>
       else (case open_device env (on_audio (\<lambda>_. a) s1) of
           Some e \<Rightarrow> processor_stop ((on_audio (\<lambda>_. a) s1)\<lparr>tv_lasterror := e\<rparr>)
         | None \<Rightarrow> (case de_start env of
             None \<Rightarrow> (on_audio (\<lambda>_. a) s1)\<lparr>tv_deviceinitialized := True, tv_initialized := True\<rparr>
           | Some e \<Rightarrow> processor_stop ((on_audio (\<lambda>_. a) s1)\<lparr>tv_deviceinitialized := True, tv_initialized := True,
               tv_lasterror := e, tv_initialized := False, tv_deviceinitialized := False\<rparr>))))"
  proof -
    have first: "(let s = s\<lparr>tv_lasterror := []\<rparr> in
        if tv_deviceinitialized s then processor_stop (s\<lparr>tv_deviceinitialized := False\<rparr>) else s) = s1"
      by (simp add: s1_def Let_def)
    show ?thesis
      unfolding voice_initialize_def Let_def first [unfolded Let_def] a prod.case
      using False by (cases "open_device env (on_audio (\<lambda>_. a) s1)"; cases "de_start env") simp_all
  qed
  have "tv_audio (snd (voice_initialize op env s)) = ?y \<or>
      tv_audio (snd (voice_initialize op env s)) = ?y\<lparr>as_state := audio_stop a, as_worker := None\<rparr>"
    unfolding run by (simp split: option.split)
  then show ?thesis using 2 3 by (elim disjE) (simp_all only:)
qed (simp add: voice_initialize_def)

lemma shutdown_audio: "(audio_step fl op)\<^sup>*\<^sup>* (tv_audio s) (tv_audio (voice_shutdown s))"
  using audio_two [OF audio_step.st_transmitting [of fl op "tv_audio s" False] stopped_audio]
  by (simp add: voice_shutdown_def Let_def)

lemma restart_audio: "(audio_step fl op)\<^sup>*\<^sup>* (tv_audio s) (tv_audio (restart op env s))"
  using rtranclp_trans [OF shutdown_audio initialize_audio [of fl op "voice_shutdown s" env]]
  by (simp add: restart_def)

lemma send_loop_audio: "(audio_step fl op)\<^sup>*\<^sup>* (tv_audio s) (tv_audio (snd (send_loop send turn fuel s)))"
proof (induction fuel arbitrary: s turn)
  case (Suc fuel)
  obtain packet audio where p: "popOutgoingPacket (as_state (tv_audio s)) = (packet, audio)" by fastforce
  have one: "audio_step fl op (tv_audio s) (tv_audio (on_audio (\<lambda>_. audio) s))"
    using audio_step.st_pop [of fl op "tv_audio s"] p by simp
  show ?case
  proof (cases packet)
    case (Some packet)
    define s1 where "s1 = (if send turn packet then (on_audio (\<lambda>_. audio) s)\<lparr>tv_sentpackets := tv_sentpackets s + 1,
        tv_sentbytes := tv_sentbytes s + word_of_nat (length (up_payload packet))\<rparr>
      else (on_audio (\<lambda>_. audio) s)\<lparr>tv_sendfailures := tv_sendfailures s + 1\<rparr>)"
    have "tv_audio s1 = tv_audio (on_audio (\<lambda>_. audio) s)" by (simp add: s1_def)
    moreover have "snd (send_loop send turn (Suc fuel) s) = snd (send_loop send (turn + 1) fuel s1)"
      using p Some by (simp add: s1_def Let_def split_beta) (simp add: on_audio_def)
    ultimately show ?thesis using converse_rtranclp_into_rtranclp [of "audio_step fl op", OF one] Suc [of s1] by simp
  qed (use p one in auto)
qed simp

lemma callback_audio: "(audio_step fl op)\<^sup>*\<^sup>* (tv_audio s) (tv_audio (snd (dataCallback fl input n s)))"
proof (cases "\<not> tv_initialized s \<or> \<not> tv_enabled s")
  case False
  define s1 where "s1 = (case input of None \<Rightarrow> s
    | Some samples \<Rightarrow> on_audio (pushCaptured (Some (with_gain fl (tv_micVolume s) samples))) s)"
  have 1: "(audio_step fl op)\<^sup>*\<^sup>* (tv_audio s) (tv_audio s1)"
    using audio_step.st_capture [of fl op "tv_audio s"] by (auto simp: s1_def split: option.split)
  have "audio_step fl op (tv_audio s1) ((tv_audio s1)\<lparr>as_state := snd (popPlayback n (as_state (tv_audio s1)))\<rparr>)" for n
    by (rule audio_step.st_playback)
  with 1 have "(audio_step fl op)\<^sup>*\<^sup>* (tv_audio s) ((tv_audio s1)\<lparr>as_state := snd (popPlayback n (as_state (tv_audio s1)))\<rparr>)" for n
    by (meson rtranclp.rtrancl_into_rtrancl)
  then show ?thesis using 1 False by (auto simp: dataCallback_def s1_def [symmetric] Let_def split: option.split)
qed (simp add: dataCallback_def)

lemma voice_step_audio:
  assumes "team_voice_step fl op s s'"
  shows "(audio_step fl op)\<^sup>*\<^sup>* (tv_audio s) (tv_audio s')"
proof -
  let ?y = "tv_audio s"
  have transmit: "(audio_step fl op)\<^sup>*\<^sup>* ?y (?y\<lparr>as_state := setTransmitting b (as_state ?y)\<rparr>)" for b
    by (rule r_into_rtranclp) (rule audio_step.st_transmitting)
  have clear: "(audio_step fl op)\<^sup>*\<^sup>* ?y (?y\<lparr>as_state := clearSession (setTransmitting False (as_state ?y))\<rparr>)"
    using audio_two [OF audio_step.st_transmitting [of fl op ?y False] audio_step.st_clear] by simp
  show ?thesis
    using assms
  proof cases
    case (tv_speaker_mute i b)
    then show ?thesis
      using audio_step.st_muted [of fl op ?y i b] by (auto simp: voice_setSpeakerMuted_def split_beta Let_def)
  next
    case (tv_speaker_volume i v)
    then show ?thesis
      using audio_step.st_volume [of fl op ?y i v] by (auto simp: voice_setSpeakerVolume_def split_beta Let_def)
  next
    case (tv_mute b)
    then show ?thesis using audio_step.st_localmuted [of fl op ?y b] by (auto simp: voice_setLocalMuted_def)
  next
    case (tv_session p)
    then show ?thesis
      using clear audio_step.st_session [of fl op ?y "ss_sessionid p" "ss_membershipgeneration p" "ss_playerid p"]
      by (auto simp: voice_handleSessionPacket_def)
  next
    case (tv_voice q)
    then show ?thesis
      using audio_step.st_push [of fl op ?y q] by (auto simp: voice_handleVoicePacket_def split_beta Let_def)
  next
    case (tv_capture_device env k)
    then show ?thesis
      using restart_audio [of fl op "s\<lparr>tv_captureDeviceIndex := k\<rparr>" env] by (auto simp: setCaptureDeviceIndex_def)
  next
    case (tv_playback_device env k)
    then show ?thesis
      using restart_audio [of fl op "s\<lparr>tv_playbackDeviceIndex := k\<rparr>" env] by (auto simp: setPlaybackDeviceIndex_def)
  next
    case (tv_network alive zdt send)
    then show ?thesis
      using send_loop_audio [of fl op s send 0] by (auto simp: voice_updateNetwork_def updateNetwork_with_def simp del: send_loop.simps)
  qed (use initialize_audio shutdown_audio callback_audio transmit clear in
      \<open>auto simp: device_stopped_def voice_setEnabled_def startTransmitting_def stopTransmitting_def
        setMicrophoneVolume_def setPlaybackVolume_def voice_reportMalformedPacket_def resetSession_def Let_def\<close>)
qed

lemma reachable_rtranclp: "step\<^sup>*\<^sup>* s s' \<Longrightarrow> reachable init step s \<Longrightarrow> reachable init step s'"
  by (induction rule: rtranclp_induct) (auto intro: reach_step)

interpretation voice: step_system "voice_init fl" "team_voice_step fl op" "\<lambda>s. reachable audio_init (audio_step fl op) (tv_audio s)"
  for fl :: "'f fops" and op :: "'d opus"
proof unfold_locales
  fix s :: "('f, 'd) TeamVoiceState" assume "voice_init fl s"
  then have "audio_init (tv_audio s)" by (auto simp: voice_init_def team_voice_def audio_init_def)
  then show "reachable audio_init (audio_step fl op) (tv_audio s)" by (rule reach_init)
next
  fix s s' :: "('f, 'd) TeamVoiceState"
  assume y: "reachable audio_init (audio_step fl op) (tv_audio s)" "team_voice_step fl op s s'"
  show "reachable audio_init (audio_step fl op) (tv_audio s')"
    by (rule reachable_rtranclp [OF voice_step_audio [OF y(2)] y(1)])
qed


subsection \<open>What the client sends and plays\<close>

definition sending :: "('f, 'd) TeamVoiceState \<Rightarrow> bool" where
  "sending s \<longleftrightarrow> a_running (as_state (tv_audio s)) \<and> captureActive (as_state (tv_audio s))"

lemma send_loop_done:
  assumes "\<forall>f \<in> set (a_outgoing (as_state (tv_audio s))). outgoing_current (as_state (tv_audio s)) f"
    "length (a_outgoing (as_state (tv_audio s))) < fuel" "send_loop send turn fuel s = (out, s')"
  shows "map fst out = (if sending s then map outgoing_packet (a_outgoing (as_state (tv_audio s))) else []) \<and>
    as_state (tv_audio s') = (as_state (tv_audio s))\<lparr>a_outgoing := if sending s then [] else a_outgoing (as_state (tv_audio s))\<rparr> \<and>
    tv_sentpackets s' = tv_sentpackets s + word_of_nat (length (filter snd out)) \<and>
    tv_sendfailures s' = tv_sendfailures s + word_of_nat (length (filter (\<lambda>x. \<not> snd x) out))"
  using assms
proof (induction fuel arbitrary: s turn out)
  case (Suc fuel)
  let ?a = "as_state (tv_audio s)"
  show ?case
  proof (cases "sending s \<and> a_outgoing ?a \<noteq> []")
    case False
    then have "fst (popOutgoingPacket ?a) = None" "snd (popOutgoingPacket ?a) = ?a"
      by (auto simp: popOutgoingPacket_def sending_def)
    then have "popOutgoingPacket ?a = (None, ?a)" by (simp add: prod_eq_iff)
    with False Suc.prems(3) show ?thesis by (auto simp: on_audio_def)
  next
    case True
    then obtain f rest where q: "a_outgoing ?a = f # rest" by (cases "a_outgoing ?a") auto
    let ?a1 = "?a\<lparr>a_outgoing := rest\<rparr>"
    have pop: "popOutgoingPacket ?a = (Some (outgoing_packet f), ?a1)"
      using True q Suc.prems(1) by (simp add: popOutgoingPacket_def sending_def)
    define s1 where "s1 = (if send turn (outgoing_packet f)
      then (on_audio (\<lambda>_. ?a1) s)\<lparr>tv_sentpackets := tv_sentpackets s + 1,
        tv_sentbytes := tv_sentbytes s + word_of_nat (length (up_payload (outgoing_packet f)))\<rparr>
      else (on_audio (\<lambda>_. ?a1) s)\<lparr>tv_sendfailures := tv_sendfailures s + 1\<rparr>)"
    obtain others where o: "send_loop send (turn + 1) fuel s1 = (others, s')"
        "out = (outgoing_packet f, send turn (outgoing_packet f)) # others"
      using Suc.prems(3) pop by (auto simp: s1_def on_audio_def Let_def split: prod.splits if_splits)
    have a1: "as_state (tv_audio s1) = ?a1" by (simp add: s1_def)
    then have "sending s1 = sending s" by (simp add: sending_def captureActive_def)
    moreover have "\<forall>g \<in> set (a_outgoing (as_state (tv_audio s1))). outgoing_current (as_state (tv_audio s1)) g"
      using Suc.prems(1) q by (simp add: a1 outgoing_current_def)
    moreover have "length (a_outgoing (as_state (tv_audio s1))) < fuel" using Suc.prems(2) q by (simp add: a1)
    ultimately show ?thesis
      using Suc.IH [OF _ _ o(1)] True q o(2) by (auto simp: a1 s1_def on_audio_def)
  qed
qed simp

text \<open>In every state the voice client reaches, a turn of the network hands the callback the whole outgoing
  queue, each packet once and in order, if the client is up, enabled and capturing, and nothing
  otherwise; every packet passes the router's validator and carries the current session and
  generation; afterwards the queue is empty, and the counters of packets sent and of failures have
  grown by exactly the two answers.\<close>

theorem network_turn_drains:
  assumes "opus_ok op" "reachable (voice_init fl) (team_voice_step fl op) s" "updateNetwork_with send s = (out, s')"
  shows "let a = as_state (tv_audio s); active = tv_initialized s \<and> tv_enabled s \<and> sending s in
    map fst out = (if active then map outgoing_packet (a_outgoing a) else []) \<and>
    list_all (\<lambda>(packet, ok). gValidateTeamVoiceUplinkPacket packet = NONE \<and> up_sessionid packet = a_sessionid a \<and>
      up_membershipgeneration packet = a_membershipgeneration a) out \<and>
    a_outgoing (as_state (tv_audio s')) = (if active then [] else a_outgoing a) \<and>
    tv_sentpackets s' = tv_sentpackets s + word_of_nat (length (filter snd out)) \<and>
    tv_sendfailures s' = tv_sendfailures s + word_of_nat (length (filter (\<lambda>x. \<not> snd x) out))"
proof (cases "tv_initialized s \<and> tv_enabled s")
  case True
  let ?a = "as_state (tv_audio s)"
  have core: "audio_core ?a"
    using voice.inv_reachable [OF assms(2), THEN audio.inv_reachable] assms(1) by (simp add: audio_inv_def)
  then have ok: "\<forall>f \<in> set (a_outgoing ?a). encoded_ok ?a f" by (simp add: audio_core_def)
  then have cur: "\<forall>f \<in> set (a_outgoing ?a). outgoing_current ?a f" by (simp add: encoded_ok_def)
  have fuel: "length (a_outgoing ?a) < length (a_outgoing ?a) + 1" by simp
  have loop: "send_loop send 0 (length (a_outgoing ?a) + 1) s = (out, s')"
    using assms(3) True by (simp add: updateNetwork_with_def del: send_loop.simps)
  have sent: "map fst out = (if sending s then map outgoing_packet (a_outgoing ?a) else [])"
      "a_outgoing (as_state (tv_audio s')) = (if sending s then [] else a_outgoing ?a)"
      "tv_sentpackets s' = tv_sentpackets s + word_of_nat (length (filter snd out))"
      "tv_sendfailures s' = tv_sendfailures s + word_of_nat (length (filter (\<lambda>x. \<not> snd x) out))"
    using send_loop_done [OF cur fuel loop] by simp_all
  have "gValidateTeamVoiceUplinkPacket p = NONE \<and> up_sessionid p = a_sessionid ?a \<and>
      up_membershipgeneration p = a_membershipgeneration ?a" if "p \<in> set (map fst out)" for p
    using that ok sent(1) by (auto simp: encoded_ok_def outgoing_current_def outgoing_packet_def split: if_splits)
  then have "list_all (\<lambda>(packet, ok). gValidateTeamVoiceUplinkPacket packet = NONE \<and> up_sessionid packet = a_sessionid ?a \<and>
      up_membershipgeneration packet = a_membershipgeneration ?a) out"
    by (force simp: list_all_iff)
  with sent True show ?thesis by (simp add: Let_def)
qed (use assms(3) in \<open>auto simp: updateNetwork_with_def\<close>)

lemma send_loop_answers:
  "send_loop (\<lambda>_ _. b) turn fuel s = (out, s') \<Longrightarrow> map snd out = replicate (length out) b"
  by (induction fuel arbitrary: turn s out) (fastforce simp: Let_def split: prod.splits option.splits)+

text \<open>Every state of the worker's own system is one of a client that is not yet initialised.\<close>

lemma voice_follows_audio:
  "reachable audio_init (audio_step fl op) y \<Longrightarrow>
    \<exists>s. reachable (voice_init fl) (team_voice_step fl op) s \<and> tv_audio s = y \<and> \<not> tv_initialized s \<and>
      \<not> tv_deviceinitialized s \<and> tv_enabled s"
proof (induction rule: reachable.induct)
  case (reach_init y)
  then obtain config where y: "y = \<lparr>as_state = audio_state config, as_worker = None\<rparr>"
    by (cases y) (auto simp: audio_init_def)
  define env :: "'b device_env" where "env = \<lparr>de_list = None, de_context = False, de_init = (\<lambda>_ _ _. None), de_start = None, de_codec = None\<rparr>"
  have "voice_init fl (team_voice fl env config)" unfolding voice_init_def by blast
  then have "reachable (voice_init fl) (team_voice_step fl op) (team_voice fl env config)" by (rule reachable.reach_init)
  then show ?case
    by (intro exI [of _ "team_voice fl env config"]) (simp add: y team_voice_def refreshDevices_def env_def)
next
  case (reach_step y y')
  then obtain s where s: "reachable (voice_init fl) (team_voice_step fl op) s" "tv_audio s = y" "\<not> tv_initialized s"
      "\<not> tv_deviceinitialized s" "tv_enabled s" by blast
  have "team_voice_step fl op s (s\<lparr>tv_audio := y'\<rparr>)" by (rule tv_worker) (use s(2) reach_step.hyps(2) in simp)
  from reachable.reach_step [OF s(1) this] s(3-5) show ?case by (intro exI [of _ "s\<lparr>tv_audio := y'\<rparr>"]) simp
qed

definition example_device :: "nat device_env" where
  "example_device = \<lparr>de_list = None, de_context = True, de_init = (\<lambda>_ _ _. None), de_start = None, de_codec = Some 0\<rparr>"

lemma initialize_running:
  assumes "\<not> tv_initialized s" "\<not> tv_deviceinitialized s" "a_running (as_state (tv_audio s))"
  shows "tv_audio (snd (voice_initialize op example_device s)) = tv_audio s \<and>
    tv_initialized (snd (voice_initialize op example_device s)) \<and>
    tv_enabled (snd (voice_initialize op example_device s)) = tv_enabled s"
  using assms by (simp add: voice_initialize_def Let_def audio_start_def open_device_def example_device_def)
    (simp add: on_audio_def)

lemma example_client:
  "\<exists>s. reachable (voice_init rat_fops) (team_voice_step rat_fops example_opus) s \<and> tv_audio s = example_sent \<and>
     tv_initialized s \<and> tv_enabled s"
proof -
  obtain s where s: "reachable (voice_init rat_fops) (team_voice_step rat_fops example_opus) s" "tv_audio s = example_sent"
      "\<not> tv_initialized s" "\<not> tv_deviceinitialized s" "tv_enabled s"
    using voice_follows_audio [OF example_sent_reachable] by blast
  have "a_running (as_state (tv_audio s))" using example_sent_queued s(2) by (simp add: example_queued_def)
  from initialize_running [OF s(3,4) this] reach_step [OF s(1) tv_init] s(2,5) show ?thesis by auto
qed


theorem network_turn_drains_witness:
  "\<exists>(s :: (rat, nat) TeamVoiceState) s'. updateNetwork_with (\<lambda>_ _. True) s = ([(outgoing_packet example_encoded, True)], s') \<and>
     a_outgoing (as_state (tv_audio s')) = [] \<and> tv_sentpackets s' = tv_sentpackets s + 1"
proof -
  obtain s where s: "reachable (voice_init rat_fops) (team_voice_step rat_fops example_opus) s" "tv_audio s = example_sent"
      "tv_initialized s" "tv_enabled s"
    using example_client by blast
  obtain out s' where o: "updateNetwork_with (\<lambda>_ _. True) s = (out, s')" by fastforce
  have act: "sending s" "a_outgoing (as_state (tv_audio s)) = [example_encoded]"
    using example_sent_queued s(2) by (simp_all add: sending_def example_queued_def)
  note turn = network_turn_drains [OF example_opus_ok s(1) o, unfolded Let_def]
  have "map fst out = [outgoing_packet example_encoded]" "a_outgoing (as_state (tv_audio s')) = []"
      "tv_sentpackets s' = tv_sentpackets s + word_of_nat (length (filter snd out))"
    using turn act s(3,4) by simp_all
  moreover have "map snd out = replicate (length out) True"
    using send_loop_answers [of True] o s(3,4) by (simp add: updateNetwork_with_def del: send_loop.simps)
  ultimately have "out = [(outgoing_packet example_encoded, True)]" by (cases out) auto
  then show ?thesis using o \<open>a_outgoing (as_state (tv_audio s')) = []\<close>
      \<open>tv_sentpackets s' = tv_sentpackets s + word_of_nat (length (filter snd out))\<close> by auto
qed

end
