(* ===== verification/HostVoice.thy ===== *)
theory HostVoice
  imports HostInvariants TeamVoice
begin

section \<open>The host's own voice\<close>

text \<open>
  The voice half of \<open>GameBackendLocal.cpp\<close>: a host that is not a dedicated server has a voice client of its own,
  which sends into the host's router without a session and is one of the router's peers. The state is
  the host with its client; a dedicated server has the client too and never touches it.
\<close>

type_synonym ('f, 'c, 'd) hosted = "('f, 'c) LocalState \<times> ('f, 'd) TeamVoiceState"

definition on_client :: "(('f, 'd) TeamVoiceState \<Rightarrow> ('f, 'd) TeamVoiceState) \<Rightarrow> ('f, 'c, 'd) hosted \<Rightarrow> ('f, 'c, 'd) hosted" where
  "on_client f y = (case y of (s, v) \<Rightarrow> if lo_isDedicatedServer s then (s, v) else (s, f v))"

definition hosted_initializeVoice :: "'d opus \<Rightarrow> 'd device_env \<Rightarrow> ('f, 'c, 'd) hosted \<Rightarrow> bool \<times> ('f, 'c, 'd) hosted" where
  "hosted_initializeVoice op env y = (case y of (s, v) \<Rightarrow>
     if lo_isDedicatedServer s then (True, s, v)
     else (case voice_initialize op env v of (ok, v) \<Rightarrow> (ok, s, v)))"

definition hosted_shutdownVoice :: "('f, 'c, 'd) hosted \<Rightarrow> ('f, 'c, 'd) hosted" where
  "hosted_shutdownVoice y = (case on_client voice_shutdown y of (s, v) \<Rightarrow> (host_shutdownVoice s, v))"

definition hosted_startVoiceTransmission :: "'d opus \<Rightarrow> 'd device_env \<Rightarrow> ('f, 'c, 'd) hosted \<Rightarrow> ('f, 'c, 'd) hosted" where
  "hosted_startVoiceTransmission op env y = (case y of (s, v) \<Rightarrow>
     if lo_isDedicatedServer s then (s, v)
     else let (s, v) = (if \<not> tv_initialized v then snd (hosted_initializeVoice op env (s, v)) else (s, v))
          in (s, startTransmitting v))"

definition hosted_stopVoiceTransmission :: "('f, 'c, 'd) hosted \<Rightarrow> ('f, 'c, 'd) hosted" where
  "hosted_stopVoiceTransmission y = on_client stopTransmitting y"

definition hosted_isVoiceTransmitting :: "('f, 'c, 'd) hosted \<Rightarrow> bool" where
  "hosted_isVoiceTransmitting y = (case y of (s, v) \<Rightarrow> if lo_isDedicatedServer s then False else voice_isTransmitting v)"

definition hosted_isPlayerTalking :: "u32 \<Rightarrow> ('f, 'c, 'd) hosted \<Rightarrow> bool" where
  "hosted_isPlayerTalking playerId y = (case y of (s, v) \<Rightarrow>
     if lo_isDedicatedServer s then False
     else list_ex (\<lambda>sp. sst_speakerid sp = ucast playerId \<and> sst_jitterdepth sp > 0)
       (a_speakersnapshot (as_state (tv_audio v))))"

definition hosted_setSpeakerMuted :: "'f fops \<Rightarrow> u32 \<Rightarrow> bool \<Rightarrow> ('f, 'c, 'd) hosted \<Rightarrow> ('f, 'c, 'd) hosted" where
  "hosted_setSpeakerMuted fl playerId muted y = on_client (\<lambda>v. snd (voice_setSpeakerMuted fl (ucast playerId) muted v)) y"

definition hosted_setSpeakerVolume :: "'f fops \<Rightarrow> u32 \<Rightarrow> 'f \<Rightarrow> ('f, 'c, 'd) hosted \<Rightarrow> ('f, 'c, 'd) hosted" where
  "hosted_setSpeakerVolume fl playerId volume y = on_client (\<lambda>v. snd (voice_setSpeakerVolume fl (ucast playerId) volume v)) y"

definition hosted_setVoiceEnabled :: "bool \<Rightarrow> ('f, 'c, 'd) hosted \<Rightarrow> ('f, 'c, 'd) hosted" where
  "hosted_setVoiceEnabled enabled y = on_client (voice_setEnabled enabled) y"

definition hosted_isVoiceEnabled :: "('f, 'c, 'd) hosted \<Rightarrow> bool" where
  "hosted_isVoiceEnabled y = (case y of (s, v) \<Rightarrow> if lo_isDedicatedServer s then True else tv_enabled v)"

text \<open>What arrives for the host: from a session, and from its router through the callback it registered.\<close>

definition hosted_handleVoiceSessionPacket :: "gTeamVoiceSessionPacket \<Rightarrow> ('f, 'c, 'd) hosted \<Rightarrow> ('f, 'c, 'd) hosted" where
  "hosted_handleVoiceSessionPacket p y = on_client (voice_handleSessionPacket p) y"

definition hosted_handleVoiceDownlinkPacket :: "gTeamVoiceDownlinkPacket \<Rightarrow> ('f, 'c, 'd) hosted \<Rightarrow> ('f, 'c, 'd) hosted" where
  "hosted_handleVoiceDownlinkPacket p y = on_client (voice_handleVoicePacket p) y"

fun own_peer_callback :: "voice_message \<Rightarrow> ('f, 'd) TeamVoiceState \<Rightarrow> ('f, 'd) TeamVoiceState" where
  "own_peer_callback (RelayMessage down) v = voice_handleVoicePacket down v"
| "own_peer_callback (ControlMessage sess) v = voice_handleSessionPacket sess v"

text \<open>An uplink a session sent: the router relays, and what it relays to the host's own peer is played there.\<close>

definition hosted_uplink ::
  "'f fops \<Rightarrow> ('f, 'c) host_env \<Rightarrow> u64 \<Rightarrow> gTeamVoiceUplinkPacket \<Rightarrow> ('f, 'c, 'd) hosted \<Rightarrow> ('f, 'c, 'd) hosted" where
  "hosted_uplink fl env connId p y = (case y of (s, v) \<Rightarrow>
     (handleVoiceUplinkPacket fl env connId p s,
      fold (\<lambda>(target, down, ok) v. if target = HostVoice then own_peer_callback (RelayMessage down) v else v)
        (fst (handleVoicePacket fl (he_deliver env) (he_steady env) connId p (lo_voice s))) v))"

text \<open>The frame: the network turn of the client hands its queue to the router, which always takes it. While the
  frame runs the lobby may be synchronised into the router, which then tells its own peer:
  \<open>controls\<close> are the packets it sends it before the network turn.\<close>

definition hosted_update ::
  "'f fops \<Rightarrow> ('f, 'c) host_env \<Rightarrow> (nat \<Rightarrow> 'f) \<Rightarrow> u64 \<Rightarrow> gTeamVoiceSessionPacket list \<Rightarrow> 'f \<Rightarrow> ('f, 'c, 'd) hosted
     \<Rightarrow> ('f, 'c) host_effect list \<times> ('f, 'c, 'd) hosted" where
  "hosted_update fl env clock now_ms controls deltaTime y = (case y of (s, v) \<Rightarrow>
     (let v = (if lo_isDedicatedServer s then v else fold (\<lambda>p. own_peer_callback (ControlMessage p)) controls v);
          (sent, v) = (if lo_isDedicatedServer s then ([], v) else updateNetwork_with (\<lambda>_ _. True) v);
          (effects, s) = host_update fl env clock now_ms (map fst sent) deltaTime s
      in (effects, s, v)))"

definition hosted_start ::
  "'f fops \<Rightarrow> 'd opus \<Rightarrow> 'd device_env \<Rightarrow> ('f, 'c) host_env \<Rightarrow> gTeamVoiceSessionPacket list \<Rightarrow> ('f, 'c, 'd) hosted \<Rightarrow> ('f, 'c, 'd) hosted" where
  "hosted_start fl op denv env controls y = (case y of (s, v) \<Rightarrow>
     if lo_isDedicatedServer s then (host_start fl env s, v)
     else (case hosted_initializeVoice op denv (s, v) of (_, s, v) \<Rightarrow>
       (host_start fl env s, fold (\<lambda>p. own_peer_callback (ControlMessage p)) controls v)))"

text \<open>The end of a host: the sessions it still has are closed, then the router is emptied and its client shut down.\<close>

definition hosted_destroy :: "('f, 'c, 'd) hosted \<Rightarrow> nat list \<times> ('f, 'c, 'd) hosted" where
  "hosted_destroy y = (case y of (s, v) \<Rightarrow>
     (lo_sessions s, on_client voice_shutdown (s\<lparr>lo_sessions := [], lo_voice := voice_reset (lo_voice s)\<rparr>, v)))"

subsection \<open>The client of a host\<close>

text \<open>One operation of the host on its client, or anything else that leaves the client alone.\<close>

inductive hosted_step :: "'f fops \<Rightarrow> 'd opus \<Rightarrow> ('f, 'c, 'd) hosted \<Rightarrow> ('f, 'c, 'd) hosted \<Rightarrow> bool" for fl op where
  hs_init: "hosted_step fl op y (snd (hosted_initializeVoice op denv y))"
| hs_shut: "hosted_step fl op y (hosted_shutdownVoice y)"
| hs_start: "hosted_step fl op y (hosted_startVoiceTransmission op denv y)"
| hs_stop: "hosted_step fl op y (hosted_stopVoiceTransmission y)"
| hs_mute: "hosted_step fl op y (hosted_setSpeakerMuted fl i b y)"
| hs_volume: "hosted_step fl op y (hosted_setSpeakerVolume fl i x y)"
| hs_enable: "hosted_step fl op y (hosted_setVoiceEnabled b y)"
| hs_session: "hosted_step fl op y (hosted_handleVoiceSessionPacket sp y)"
| hs_downlink: "hosted_step fl op y (hosted_handleVoiceDownlinkPacket dp y)"
| hs_uplink: "hosted_step fl op y (hosted_uplink fl env conn up y)"
| hs_frame: "hosted_step fl op y (snd (hosted_update fl env clock ms controls dt y))"
| hs_begin: "hosted_step fl op y (hosted_start fl op denv env controls y)"
| hs_host: "lo_isDedicatedServer s' = lo_isDedicatedServer s \<Longrightarrow> hosted_step fl op (s, v) (s', v)"
| hs_device: "team_voice_step fl op v v' \<Longrightarrow> \<not> lo_isDedicatedServer s \<Longrightarrow> hosted_step fl op (s, v) (s, v')"
| hs_destroy: "hosted_step fl op y (snd (hosted_destroy y))"

lemma callback_steps: "(team_voice_step fl op)\<^sup>*\<^sup>* v (own_peer_callback msg v)"
  by (cases msg) (auto intro: tv_session tv_voice)

lemma fold_steps: "(\<And>x v. (team_voice_step fl op)\<^sup>*\<^sup>* v (f x v)) \<Longrightarrow> (team_voice_step fl op)\<^sup>*\<^sup>* v (fold f xs v)"
  by (induction xs arbitrary: v) (auto intro: rtranclp_trans)

lemma turn_steps: "(team_voice_step fl op)\<^sup>*\<^sup>* v (snd (updateNetwork_with send v))"
  using tv_network [of fl op v True True send] by (auto simp: voice_updateNetwork_def)

lemma announce_dedicated [simp]: "lo_isDedicatedServer (snd (announce_leaves ids s)) = lo_isDedicatedServer s"
  by (induction ids arbitrary: s) (simp_all add: enqueue_def Let_def split_beta)

lemma uplinks_dedicated [simp]:
  "lo_isDedicatedServer (fold (handleVoiceUplinkPacket fl env c) ps s) = lo_isDedicatedServer s"
  by (induction ps arbitrary: s) (simp_all add: handleVoiceUplinkPacket_def)

lemma host_update_dedicated [simp]:
  "lo_isDedicatedServer (snd (host_update fl env clock ms uplinks dt s)) = lo_isDedicatedServer s"
proof -
  have "lo_isDedicatedServer (snd (host_base_update fl env clock ms dt s)) = lo_isDedicatedServer s"
    using does_update [of s fl env clock ms dt] by (simp add: does_def)
  then show ?thesis
    by (simp add: host_update_def sweep_dead_def ping_tick_def heartbeat_tick_def Let_def split_beta)
qed

lemma host_start_dedicated [simp]: "lo_isDedicatedServer (host_start fl env s) = lo_isDedicatedServer s"
  using sync_fields [where env = env] by (simp add: host_start_def Let_def)

definition client_moves :: "'f fops \<Rightarrow> 'd opus \<Rightarrow> ('f, 'c, 'd) hosted \<Rightarrow> ('f, 'c, 'd) hosted \<Rightarrow> bool" where
  "client_moves fl op y y' \<longleftrightarrow> (team_voice_step fl op)\<^sup>*\<^sup>* (snd y) (snd y') \<and>
     lo_isDedicatedServer (fst y') = lo_isDedicatedServer (fst y)"

lemma on_client_moves: "(\<And>v. team_voice_step fl op v (f v)) \<Longrightarrow> client_moves fl op y (on_client f y)"
  by (cases y) (auto simp: on_client_def client_moves_def)

lemma hosted_init_moves: "client_moves fl op y (snd (hosted_initializeVoice op denv y))"
  using tv_init [of fl op "snd y" denv] by (cases y) (auto simp: hosted_initializeVoice_def client_moves_def split_beta)

lemma hosted_step_moves:
  "hosted_step fl op y y' \<Longrightarrow> client_moves fl op y y'"
proof (induction rule: hosted_step.induct)
  case (hs_init y denv)
  show ?case by (rule hosted_init_moves)
next
  case (hs_start y denv)
  have "client_moves fl op y (snd (hosted_initializeVoice op denv y))" by (rule hosted_init_moves)
  then show ?case using tv_start
    by (cases y) (auto simp: hosted_startVoiceTransmission_def client_moves_def Let_def split_beta intro: rtranclp.rtrancl_into_rtrancl)
next
  case (hs_uplink y env conn up)
  let ?hear = "\<lambda>(target, down, ok) v. if target = HostVoice then own_peer_callback (RelayMessage down) v else v"
  have "(team_voice_step fl op)\<^sup>*\<^sup>* v (?hear x v)" for x :: "voice_target \<times> gTeamVoiceDownlinkPacket \<times> bool" and v
    using callback_steps [of fl op v "RelayMessage (fst (snd x))"] by (auto split: prod.split)
  then have "(team_voice_step fl op)\<^sup>*\<^sup>* v (fold ?hear sent v)" for sent :: "(voice_target \<times> gTeamVoiceDownlinkPacket \<times> bool) list" and v
    by (rule fold_steps)
  then show ?case by (cases y) (auto simp: hosted_uplink_def client_moves_def handleVoiceUplinkPacket_def split_beta)
next
  case (hs_frame y env clock ms controls dt)
  obtain s v where y: "y = (s, v)" by fastforce
  have "(team_voice_step fl op)\<^sup>*\<^sup>* v (fold (\<lambda>p. own_peer_callback (ControlMessage p)) controls v)"
    by (intro fold_steps callback_steps)
  from rtranclp_trans [OF this turn_steps] show ?case
    by (auto simp: y hosted_update_def client_moves_def Let_def split_beta)
next
  case (hs_begin y denv env controls)
  obtain s v where y: "y = (s, v)" by fastforce
  obtain ok s1 v1 where i: "hosted_initializeVoice op denv (s, v) = (ok, s1, v1)" by (metis prod.exhaust)
  have "(team_voice_step fl op)\<^sup>*\<^sup>* v1 (fold (\<lambda>p. own_peer_callback (ControlMessage p)) controls v1)"
    by (intro fold_steps callback_steps)
  then show ?case using hosted_init_moves [of fl op "(s, v)" denv] i
    by (auto simp: y hosted_start_def client_moves_def)
next
  case (hs_destroy y)
  show ?case using tv_shut by (cases y) (auto simp: hosted_destroy_def client_moves_def on_client_def)
next
  case (hs_shut y)
  show ?case using tv_shut
    by (cases y) (auto simp: hosted_shutdownVoice_def client_moves_def on_client_def host_shutdownVoice_def)
next
  case (hs_host s' s v)
  then show ?case by (simp add: client_moves_def)
next
  case (hs_device v v' s)
  then show ?case by (auto simp: client_moves_def)
qed (unfold hosted_stopVoiceTransmission_def hosted_setSpeakerMuted_def hosted_setSpeakerVolume_def hosted_setVoiceEnabled_def
  hosted_handleVoiceSessionPacket_def hosted_handleVoiceDownlinkPacket_def, rule on_client_moves, rule tv_stop, rule on_client_moves,
  rule tv_speaker_mute, rule on_client_moves, rule tv_speaker_volume, rule on_client_moves, rule tv_enable, rule on_client_moves,
  rule tv_session, rule on_client_moves, rule tv_voice)

text \<open>So the worker of a host's client keeps its invariant, whatever the sessions send.\<close>

interpretation hosted: step_system "\<lambda>y. voice_init fl (snd y)" "hosted_step fl op"
  "\<lambda>y. reachable (voice_init fl) (team_voice_step fl op) (snd y)"
  for fl :: "'f fops" and op :: "'d opus"
proof unfold_locales
  fix y y' :: "('f, 'c, 'd) hosted"
  assume y: "reachable (voice_init fl) (team_voice_step fl op) (snd y)" "hosted_step fl op y y'"
  have "(team_voice_step fl op)\<^sup>*\<^sup>* (snd y) (snd y')" using hosted_step_moves [OF y(2)] by (simp add: client_moves_def)
  then show "reachable (voice_init fl) (team_voice_step fl op) (snd y')" using y(1) by (rule reachable_rtranclp)
qed (auto intro: reach_init)

lemma hosted_worker_invariant:
  assumes "reachable (\<lambda>y. voice_init fl (snd y)) (hosted_step fl op) y" "opus_ok op"
  shows "audio_inv (as_state (tv_audio (snd y)))"
  using TeamVoice.voice.inv_reachable [OF hosted.inv_reachable [OF assms(1)]] audio.inv_reachable assms(2) by blast

end
