(* ===== verification/VoiceLoopback.thy ===== *)
theory VoiceLoopback
  imports AudioInvariants
begin

section \<open>The voice loopback\<close>

text \<open>
  \<open>gVoiceLoopback.h\<close> and \<open>.cpp\<close>: the microphone played back two seconds later, either sample by sample or
  through Opus. The device callback and a turn of the worker are steps; the deque the worker keeps is
  part of the state. Opus is the codec of \<open>AudioProcessor\<close>, miniaudio and the codec's setup are
  arguments.
\<close>

definition OPUS_MAX_PACKET_SIZE :: nat where "OPUS_MAX_PACKET_SIZE = 1275"
definition DELAY_MILLISECONDS :: nat where "DELAY_MILLISECONDS = 2000"
definition DELAY_FRAMES :: nat where "DELAY_FRAMES = SAMPLERATE * DELAY_MILLISECONDS div 1000"
definition DELAY_PACKETS :: nat where "DELAY_PACKETS = DELAY_FRAMES div FRAME_SAMPLES"
definition WORKER_RING_FRAMES :: nat where "WORKER_RING_FRAMES = SAMPLERATE"

datatype loopback_mode = MODE_RAW_PCM | MODE_OPUS

record LoopbackStats =
  ls_pcmbytes :: u64
  ls_opusbytes :: u64
  ls_encodedpackets :: u64
  ls_decodedpackets :: u64
  ls_captureoverruns :: u64
  ls_playbackoverruns :: u64
  ls_playbackunderruns :: u64
  ls_codecerrors :: u64

definition no_stats :: LoopbackStats where
  "no_stats = \<lparr>ls_pcmbytes = 0, ls_opusbytes = 0, ls_encodedpackets = 0, ls_decodedpackets = 0,
     ls_captureoverruns = 0, ls_playbackoverruns = 0, ls_playbackunderruns = 0, ls_codecerrors = 0\<rparr>"

record 'd LoopbackState =
  lb_mode :: loopback_mode
  lb_running :: bool
  lb_deviceinitialized :: bool
  lb_worker :: bool
  lb_codec :: "'d option"
  lb_rawbuffer :: "sample list"
  lb_rawposition :: nat
  lb_rawframes :: u64
  lb_capturering :: "sample ring"
  lb_playbackring :: "sample ring"
  lb_playbackready :: bool
  lb_delayedpackets :: "bytes list"
  lb_stats :: LoopbackStats
  lb_lasterror :: string

definition loopback :: "'d LoopbackState" where
  "loopback = \<lparr>lb_mode = MODE_RAW_PCM, lb_running = False, lb_deviceinitialized = False, lb_worker = False, lb_codec = None,
     lb_rawbuffer = replicate DELAY_FRAMES 0, lb_rawposition = 0, lb_rawframes = 0,
     lb_capturering = audio_ring_new WORKER_RING_FRAMES 0, lb_playbackring = audio_ring_new WORKER_RING_FRAMES 0,
     lb_playbackready = False, lb_delayedpackets = [], lb_stats = no_stats, lb_lasterror = []\<rparr>"

definition count_in :: "(LoopbackStats \<Rightarrow> LoopbackStats) \<Rightarrow> 'd LoopbackState \<Rightarrow> 'd LoopbackState" where
  "count_in f s = s\<lparr>lb_stats := f (lb_stats s)\<rparr>"

definition resetBuffers :: "'d LoopbackState \<Rightarrow> 'd LoopbackState" where
  "resetBuffers s = s\<lparr>lb_rawbuffer := replicate (length (lb_rawbuffer s)) 0, lb_rawposition := 0, lb_rawframes := 0,
     lb_capturering := audio_reset (lb_capturering s), lb_playbackring := audio_reset (lb_playbackring s),
     lb_playbackready := False\<rparr>"

definition resetStats :: "'d LoopbackState \<Rightarrow> 'd LoopbackState" where
  "resetStats s = s\<lparr>lb_stats := no_stats\<rparr>"

subsection \<open>Start and stop\<close>

text \<open>The worker is joined before the codec closes.\<close>

definition loopback_stop :: "'d LoopbackState \<Rightarrow> 'd LoopbackState" where
  "loopback_stop s = s\<lparr>lb_running := False, lb_worker := False, lb_deviceinitialized := False, lb_codec := None\<rparr>"

record 'd loopback_env =
  le_setup :: "'d option"
  le_setup_error :: string
  le_context :: bool
  le_device :: "string option"
  le_device_start :: "string option"

definition loopback_start :: "'d loopback_env \<Rightarrow> loopback_mode \<Rightarrow> 'd LoopbackState \<Rightarrow> bool \<times> 'd LoopbackState" where
  "loopback_start env newmode s =
     (let s = loopback_stop s; s = s\<lparr>lb_lasterror := [], lb_mode := newmode\<rparr>; s = resetStats (resetBuffers s)
      in if newmode = MODE_OPUS \<and> le_setup env = None then (False, s\<lparr>lb_lasterror := le_setup_error env\<rparr>)
         else let s = (if newmode = MODE_OPUS then s\<lparr>lb_codec := le_setup env\<rparr> else s) in
           if \<not> le_context env
           then (False, s\<lparr>lb_lasterror := ''Could not access the GlistEngine audio context'', lb_codec := None\<rparr>)
           else (case le_device env of
               Some e \<Rightarrow> (False, s\<lparr>lb_lasterror := e, lb_codec := None\<rparr>)
             | None \<Rightarrow>
                 (let s = s\<lparr>lb_deviceinitialized := True, lb_running := True\<rparr>;
                      s = (if newmode = MODE_OPUS then s\<lparr>lb_worker := True, lb_delayedpackets := []\<rparr> else s)
                  in case le_device_start env of
                       Some e \<Rightarrow> (False, loopback_stop (s\<lparr>lb_lasterror := e\<rparr>))
                     | None \<Rightarrow> (True, s))))"

definition loopback_device_stopped :: "'d LoopbackState \<Rightarrow> 'd LoopbackState" where
  "loopback_device_stopped s = s\<lparr>lb_running := False\<rparr>"

subsection \<open>The device callback\<close>

text \<open>The raw mode sample by sample; without an input the samples are zeros.\<close>

fun raw_loop :: "sample list \<Rightarrow> 'd LoopbackState \<Rightarrow> sample list \<times> 'd LoopbackState" where
  "raw_loop [] s = ([], s)"
| "raw_loop (x # input) s =
     (let delayed = lb_rawbuffer s ! lb_rawposition s;
          s = s\<lparr>lb_rawbuffer := (lb_rawbuffer s)[lb_rawposition s := x]\<rparr>;
          out = (if of_nat DELAY_FRAMES \<le> lb_rawframes s then delayed else 0);
          s = s\<lparr>lb_rawposition := (if lb_rawposition s + 1 = length (lb_rawbuffer s) then 0 else lb_rawposition s + 1),
                lb_rawframes := lb_rawframes s + 1\<rparr>
      in case raw_loop input s of (output, s) \<Rightarrow> (out # output, s))"

definition processRaw :: "sample list option \<Rightarrow> nat \<Rightarrow> 'd LoopbackState \<Rightarrow> sample list \<times> 'd LoopbackState" where
  "processRaw input framecount s =
     (case raw_loop (case input of None \<Rightarrow> replicate framecount 0 | Some xs \<Rightarrow> take framecount xs) s of
        (output, s) \<Rightarrow> (output, count_in (\<lambda>c. c\<lparr>ls_pcmbytes := ls_pcmbytes c + of_nat (framecount * 2)\<rparr>) s))"

definition processOpusCallback :: "sample list option \<Rightarrow> nat \<Rightarrow> 'd LoopbackState \<Rightarrow> sample list \<times> 'd LoopbackState" where
  "processOpusCallback input framecount s =
     (let s = (case input of None \<Rightarrow> s
        | Some xs \<Rightarrow> (case audio_write (take framecount xs) (lb_capturering s) of (written, ring) \<Rightarrow>
            let s = s\<lparr>lb_capturering := ring\<rparr> in
            if written < framecount
            then count_in (\<lambda>c. c\<lparr>ls_captureoverruns := ls_captureoverruns c + of_nat (framecount - written)\<rparr>) s else s));
          (out, ring) = audio_read framecount (lb_playbackring s); s = s\<lparr>lb_playbackring := ring\<rparr>;
          s = (if lb_playbackready s \<and> length out < framecount
            then count_in (\<lambda>c. c\<lparr>ls_playbackunderruns := ls_playbackunderruns c + of_nat (framecount - length out)\<rparr>) s else s)
      in (out @ replicate (framecount - length out) 0, s))"

definition loopback_dataCallback :: "sample list option \<Rightarrow> nat \<Rightarrow> 'd LoopbackState \<Rightarrow> sample list \<times> 'd LoopbackState" where
  "loopback_dataCallback input framecount s =
     (if \<not> lb_running s then (replicate framecount 0, s)
      else if lb_mode s = MODE_RAW_PCM then processRaw input framecount s
      else processOpusCallback input framecount s)"

subsection \<open>The worker\<close>

text \<open>The oldest packet is decoded once a hundred are held.\<close>

definition play_delayed :: "'d opus \<Rightarrow> 'd \<Rightarrow> 'd LoopbackState \<Rightarrow> 'd LoopbackState" where
  "play_delayed op codec s =
     (case lb_delayedpackets s of [] \<Rightarrow> s\<lparr>lb_codec := Some codec\<rparr>
      | delayed # others \<Rightarrow>
          if length (lb_delayedpackets s) \<ge> DELAY_PACKETS
          then (case op_decode op codec (Some delayed) of (decodedframes, decoded, codec) \<Rightarrow>
            (let s = s\<lparr>lb_codec := Some codec\<rparr>;
                 s = (if decodedframes < 0 then count_in (\<lambda>c. c\<lparr>ls_codecerrors := ls_codecerrors c + 1\<rparr>) s
                   else (case audio_write (take (nat decodedframes) (decoded_array decoded)) (lb_playbackring s) of (written, ring) \<Rightarrow>
                     let s = s\<lparr>lb_playbackring := ring\<rparr>;
                         s = (if written < nat decodedframes
                           then count_in (\<lambda>c. c\<lparr>ls_playbackoverruns := ls_playbackoverruns c + of_nat (nat decodedframes - written)\<rparr>) s
                           else s);
                         s = count_in (\<lambda>c. c\<lparr>ls_decodedpackets := ls_decodedpackets c + 1\<rparr>) s
                     in s\<lparr>lb_playbackready := True\<rparr>))
             in s\<lparr>lb_delayedpackets := others\<rparr>))
          else s\<lparr>lb_codec := Some codec\<rparr>)"

text \<open>One turn of the loop; nothing when it sleeps.\<close>

definition loopback_turn :: "'d opus \<Rightarrow> 'd LoopbackState \<Rightarrow> 'd LoopbackState" where
  "loopback_turn op s = (case lb_codec s of None \<Rightarrow> s
   | Some codec \<Rightarrow>
      if \<not> lb_worker s \<or> \<not> lb_running s \<or> audio_available (lb_capturering s) < FRAME_SAMPLES then s
      else (case audio_read FRAME_SAMPLES (lb_capturering s) of (input, ring) \<Rightarrow>
        (let s = s\<lparr>lb_capturering := ring\<rparr>; (n, packet, codec) = op_encode op codec input;
             s = count_in (\<lambda>c. c\<lparr>ls_pcmbytes := ls_pcmbytes c + of_nat (FRAME_SAMPLES * 2)\<rparr>) s
         in if n < 0 then count_in (\<lambda>c. c\<lparr>ls_codecerrors := ls_codecerrors c + 1\<rparr>) (s\<lparr>lb_codec := Some codec\<rparr>)
            else let s = count_in (\<lambda>c. c\<lparr>ls_opusbytes := ls_opusbytes c + of_int n, ls_encodedpackets := ls_encodedpackets c + 1\<rparr>) s;
                     s = s\<lparr>lb_delayedpackets := lb_delayedpackets s @ [take (nat n) packet]\<rparr>
                 in play_delayed op codec s)))"

text \<open>The self test of the codec: \<open>tone\<close> is its frame of a sine.\<close>

definition runCodecSelfTest :: "'d opus \<Rightarrow> 'd loopback_env \<Rightarrow> sample list \<Rightarrow> (nat \<Rightarrow> string) \<Rightarrow> bool \<times> string" where
  "runCodecSelfTest op env tone decimal_text = (case le_setup env of None \<Rightarrow> (False, le_setup_error env)
   | Some codec \<Rightarrow> (case op_encode op codec tone of (encodedbytes, packet, codec) \<Rightarrow>
       if encodedbytes \<le> 0 then (False, op_error op (Some codec))
       else (case op_decode op codec (Some (take (nat encodedbytes) packet)) of (decodedframes, _, codec) \<Rightarrow>
         if decodedframes \<noteq> int FRAME_SAMPLES
         then (False, if decodedframes < 0 then op_error op (Some codec) else ''Opus decoded an unexpected frame count'')
         else if encodedbytes \<ge> int (FRAME_SAMPLES * 2) then (False, ''Opus packet is not smaller than the input PCM frame'')
         else (True, ''passed ('' @ decimal_text (FRAME_SAMPLES * 2) @ '' PCM bytes -> '' @ decimal_text (nat encodedbytes) @
           '' Opus bytes)''))))"

definition getModeName :: "loopback_mode \<Rightarrow> string" where
  "getModeName mode = (if mode = MODE_RAW_PCM then ''Raw PCM'' else ''Opus round-trip'')"

subsection \<open>The state between the steps\<close>

lemma DELAY_FRAMES_eq [simp]: "DELAY_FRAMES = 96000"
  by (simp add: DELAY_FRAMES_def SAMPLERATE_def DELAY_MILLISECONDS_def)

lemma DELAY_PACKETS_eq [simp]: "DELAY_PACKETS = 100"
  by (simp add: DELAY_PACKETS_def)

inductive loopback_step :: "'d opus \<Rightarrow> 'd LoopbackState \<Rightarrow> 'd LoopbackState \<Rightarrow> bool" for op where
  lb_start: "loopback_step op s (snd (loopback_start env mode s))"
| lb_stop: "loopback_step op s (loopback_stop s)"
| lb_lost: "loopback_step op s (loopback_device_stopped s)"
| lb_data: "loopback_step op s (snd (loopback_dataCallback input framecount s))"
| lb_turn: "loopback_step op s (loopback_turn op s)"

text \<open>The worker holds fewer than a hundred packets between its turns, and has its codec while it runs.\<close>

definition loopback_inv :: "'d LoopbackState \<Rightarrow> bool" where
  "loopback_inv s \<longleftrightarrow> length (lb_rawbuffer s) = DELAY_FRAMES \<and> lb_rawposition s < DELAY_FRAMES \<and>
     length (lb_delayedpackets s) < DELAY_PACKETS \<and> (lb_worker s \<longrightarrow> lb_codec s \<noteq> None)"

definition same_loop :: "'d LoopbackState \<Rightarrow> 'd LoopbackState \<Rightarrow> bool" where
  "same_loop s s' \<longleftrightarrow> length (lb_rawbuffer s') = length (lb_rawbuffer s) \<and> lb_worker s' = lb_worker s \<and> lb_codec s' = lb_codec s \<and>
     lb_delayedpackets s' = lb_delayedpackets s"

lemma raw_loop_same:
  "0 < length (lb_rawbuffer s) \<Longrightarrow> lb_rawposition s < length (lb_rawbuffer s) \<Longrightarrow>
     same_loop s (snd (raw_loop xs s)) \<and> lb_rawposition (snd (raw_loop xs s)) < length (lb_rawbuffer s)"
proof (induction xs arbitrary: s)
  case (Cons x xs)
  let ?p = "if lb_rawposition s + 1 = length (lb_rawbuffer s) then 0 else lb_rawposition s + 1"
  let ?s = "s\<lparr>lb_rawbuffer := (lb_rawbuffer s)[lb_rawposition s := x], lb_rawposition := ?p, lb_rawframes := lb_rawframes s + 1\<rparr>"
  have "snd (raw_loop (x # xs) s) = snd (raw_loop xs ?s)" by (simp add: Let_def split_beta)
  moreover have "?p < length (lb_rawbuffer s)" using Cons.prems by auto
  ultimately show ?case using Cons.IH [of ?s] Cons.prems(1) by (simp add: same_loop_def)
qed (simp add: same_loop_def)

lemma opus_callback_same:
  "same_loop s (snd (processOpusCallback input n s)) \<and> lb_rawposition (snd (processOpusCallback input n s)) = lb_rawposition s"
  by (auto simp: processOpusCallback_def same_loop_def count_in_def Let_def split: option.split prod.split)

lemma data_inv: "loopback_inv s \<Longrightarrow> loopback_inv (snd (loopback_dataCallback input n s))"
  using raw_loop_same [of s "case input of None \<Rightarrow> replicate n 0 | Some xs \<Rightarrow> take n xs"] opus_callback_same [of s input n]
  by (auto simp: loopback_dataCallback_def processRaw_def loopback_inv_def same_loop_def count_in_def split_beta)

lemma play_inv:
  "length (lb_rawbuffer s) = DELAY_FRAMES \<Longrightarrow> lb_rawposition s < DELAY_FRAMES \<Longrightarrow>
   length (lb_delayedpackets s) \<le> DELAY_PACKETS \<Longrightarrow> loopback_inv (play_delayed op codec s)"
  by (auto simp: play_delayed_def loopback_inv_def count_in_def Let_def split: list.split prod.split)

lemma turn_inv: "loopback_inv s \<Longrightarrow> loopback_inv (loopback_turn op s)"
  unfolding loopback_turn_def Let_def
  by (auto simp: count_in_def split: option.split prod.split intro!: play_inv) (auto simp: loopback_inv_def)

interpretation loop: step_system "\<lambda>s. s = loopback" "loopback_step op" loopback_inv
  for op :: "'d opus"
proof unfold_locales
  fix s s' :: "'d LoopbackState"
  assume inv: "loopback_inv s" and step: "loopback_step op s s'"
  from step inv show "loopback_inv s'"
  proof cases
    case (lb_start env mode)
    then show ?thesis using inv
      by (auto simp: loopback_inv_def loopback_start_def loopback_stop_def resetBuffers_def resetStats_def Let_def split: option.split)
  next
    case lb_stop
    then show ?thesis using inv by (simp add: loopback_inv_def loopback_stop_def)
  next
    case lb_lost
    then show ?thesis using inv by (simp add: loopback_inv_def loopback_device_stopped_def)
  next
    case lb_data
    then show ?thesis using inv data_inv by simp
  next
    case lb_turn
    then show ?thesis using inv turn_inv by simp
  qed
qed (auto simp: loopback_inv_def loopback_def)

subsection \<open>The raw mode is a delay line\<close>

definition delay_line :: "'d LoopbackState \<Rightarrow> sample list" where
  "delay_line s = drop (lb_rawposition s) (lb_rawbuffer s) @ take (lb_rawposition s) (lb_rawbuffer s)"

lemma delay_line_advance:
  assumes "p < length b"
  shows "drop (if p + 1 = length b then 0 else p + 1) (b[p := x]) @ take (if p + 1 = length b then 0 else p + 1) (b[p := x]) =
    tl (drop p b @ take p b) @ [x]" "hd (drop p b @ take p b) = b ! p"
proof -
  have b: "b = take p b @ b ! p # drop (Suc p) b" using assms by (rule id_take_nth_drop)
  have u: "b[p := x] = take p b @ x # drop (Suc p) b" using assms by (rule upd_conv_take_nth_drop)
  have d: "drop p b = b ! p # drop (Suc p) b" using assms by (rule Cons_nth_drop_Suc [symmetric])
  show "hd (drop p b @ take p b) = b ! p" by (simp add: d)
  have l: "length (take p b) = p" using assms by simp
  show "drop (if p + 1 = length b then 0 else p + 1) (b[p := x]) @ take (if p + 1 = length b then 0 else p + 1) (b[p := x]) =
    tl (drop p b @ take p b) @ [x]"
  proof (cases "p + 1 = length b")
    case True
    then show ?thesis by (simp add: d u)
  next
    case False
    then show ?thesis unfolding u d using l by (simp add: drop_append take_append)
  qed
qed

text \<open>What the line holds from before the start is silent.\<close>

definition silent_start :: "'d LoopbackState \<Rightarrow> bool" where
  "silent_start s \<longleftrightarrow> (\<forall>i < DELAY_FRAMES - unat (lb_rawframes s). delay_line s ! i = 0)"

definition raw_next :: "sample \<Rightarrow> 'd LoopbackState \<Rightarrow> 'd LoopbackState" where
  "raw_next x s = s\<lparr>lb_rawbuffer := (lb_rawbuffer s)[lb_rawposition s := x],
     lb_rawposition := (if lb_rawposition s + 1 = length (lb_rawbuffer s) then 0 else lb_rawposition s + 1),
     lb_rawframes := lb_rawframes s + 1\<rparr>"

lemma raw_loop_Cons:
  "raw_loop (x # xs) s = (case raw_loop xs (raw_next x s) of (out, s') \<Rightarrow>
     ((if of_nat DELAY_FRAMES \<le> lb_rawframes s then lb_rawbuffer s ! lb_rawposition s else 0) # out, s'))"
  by (simp add: raw_next_def Let_def)

lemma raw_next_line:
  assumes "length (lb_rawbuffer s) = DELAY_FRAMES" "lb_rawposition s < DELAY_FRAMES" "silent_start s"
    "unat (lb_rawframes s) + 1 < 2 ^ 64"
  obtains y ys where "delay_line s = y # ys" "delay_line (raw_next x s) = ys @ [x]" "silent_start (raw_next x s)"
    "(if of_nat DELAY_FRAMES \<le> lb_rawframes s then lb_rawbuffer s ! lb_rawposition s else 0) = y"
    "unat (lb_rawframes (raw_next x s)) = unat (lb_rawframes s) + 1"
proof -
  have p: "lb_rawposition s < length (lb_rawbuffer s)" using assms by simp
  have line: "delay_line (raw_next x s) = tl (delay_line s) @ [x]" and hd: "hd (delay_line s) = lb_rawbuffer s ! lb_rawposition s"
    using delay_line_advance [OF p] by (simp_all add: delay_line_def raw_next_def)
  have len: "length (delay_line s) = DELAY_FRAMES" using assms(1,2) by (simp add: delay_line_def)
  then obtain y ys where ys: "delay_line s = y # ys" by (cases "delay_line s") auto
  have frames: "unat (lb_rawframes (raw_next x s)) = unat (lb_rawframes s) + 1"
    using position_Suc [OF assms(4)] by (simp add: raw_next_def)
  have "silent_start (raw_next x s)" unfolding silent_start_def frames
  proof (intro allI impI)
    fix i assume i: "i < DELAY_FRAMES - (unat (lb_rawframes s) + 1)"
    then have "Suc i < DELAY_FRAMES - unat (lb_rawframes s)" by simp
    then have "delay_line s ! Suc i = 0" using assms(3) unfolding silent_start_def by blast
    moreover have "i < length ys" using i len ys by simp
    ultimately show "delay_line (raw_next x s) ! i = 0" by (simp add: line ys nth_append)
  qed
  moreover have "y = 0" if "unat (lb_rawframes s) < DELAY_FRAMES"
  proof -
    have "delay_line s ! 0 = 0" using assms(3) that unfolding silent_start_def by simp
    then show ?thesis by (simp add: ys)
  qed
  moreover have "of_nat DELAY_FRAMES \<le> lb_rawframes s \<longleftrightarrow> DELAY_FRAMES \<le> unat (lb_rawframes s)" by (simp add: word_le_nat_alt)
  ultimately show thesis using that [OF ys] line hd frames by (auto simp: ys not_le)
qed

lemma raw_loop_delays:
  assumes "length (lb_rawbuffer s) = DELAY_FRAMES" "lb_rawposition s < DELAY_FRAMES" "silent_start s"
    "unat (lb_rawframes s) + length xs < 2 ^ 64" "raw_loop xs s = (out, s')"
  shows "out = take (length xs) (delay_line s @ xs) \<and> delay_line s' = drop (length xs) (delay_line s @ xs) \<and>
    silent_start s' \<and> unat (lb_rawframes s') = unat (lb_rawframes s) + length xs"
  using assms
proof (induction xs arbitrary: s out)
  case (Cons x xs)
  have "unat (lb_rawframes s) + 1 < 2 ^ 64" using Cons.prems(4) by simp
  from raw_next_line [OF Cons.prems(1-3) this, where x = x]
  obtain y ys where next_line: "delay_line s = y # ys" "delay_line (raw_next x s) = ys @ [x]" "silent_start (raw_next x s)"
    "(if of_nat DELAY_FRAMES \<le> lb_rawframes s then lb_rawbuffer s ! lb_rawposition s else 0) = y"
    "unat (lb_rawframes (raw_next x s)) = unat (lb_rawframes s) + 1" .
  obtain others where loop: "raw_loop xs (raw_next x s) = (others, s')" and out: "out = y # others"
    using Cons.prems(5) next_line(4) unfolding raw_loop_Cons by (auto split: prod.splits)
  have "length (lb_rawbuffer (raw_next x s)) = DELAY_FRAMES" "lb_rawposition (raw_next x s) < DELAY_FRAMES"
    using Cons.prems(1,2) by (auto simp: raw_next_def)
  from Cons.IH [OF this next_line(3) _ loop] show ?case using Cons.prems(4) next_line out by simp
qed simp

text \<open>A run of callbacks: what each is given and for how many frames.\<close>

fun play_blocks :: "(sample list option \<times> nat) list \<Rightarrow> 'd LoopbackState \<Rightarrow> sample list \<times> 'd LoopbackState" where
  "play_blocks [] s = ([], s)"
| "play_blocks ((input, framecount) # blocks) s = (case loopback_dataCallback input framecount s of (out, s) \<Rightarrow>
     (case play_blocks blocks s of (others, s) \<Rightarrow> (out @ others, s)))"

definition heard :: "(sample list option \<times> nat) list \<Rightarrow> sample list" where
  "heard blocks = concat (map (\<lambda>(input, framecount). case input of None \<Rightarrow> replicate framecount 0 | Some xs \<Rightarrow> take framecount xs) blocks)"

definition delaying :: "'d LoopbackState \<Rightarrow> bool" where
  "delaying s \<longleftrightarrow> lb_running s \<and> lb_mode s = MODE_RAW_PCM \<and> length (lb_rawbuffer s) = DELAY_FRAMES \<and> lb_rawposition s < DELAY_FRAMES \<and>
     silent_start s"

lemma raw_loop_mode: "lb_running (snd (raw_loop xs s)) = lb_running s \<and> lb_mode (snd (raw_loop xs s)) = lb_mode s"
  by (induction xs arbitrary: s) (simp_all add: raw_loop_Cons raw_next_def split_beta del: raw_loop.simps(2))

lemma count_in_line [simp]:
  "delay_line (count_in f s) = delay_line s" "silent_start (count_in f s) = silent_start s"
  "lb_rawbuffer (count_in f s) = lb_rawbuffer s" "lb_rawposition (count_in f s) = lb_rawposition s"
  "lb_rawframes (count_in f s) = lb_rawframes s" "lb_running (count_in f s) = lb_running s" "lb_mode (count_in f s) = lb_mode s"
  by (simp_all add: count_in_def delay_line_def silent_start_def)

lemma block_delays:
  assumes "delaying s" "unat (lb_rawframes s) + length (heard [(input, n)]) < 2 ^ 64" "loopback_dataCallback input n s = (out, s')"
  shows "delaying s' \<and> out = take (length (heard [(input, n)])) (delay_line s @ heard [(input, n)]) \<and>
    delay_line s' = drop (length (heard [(input, n)])) (delay_line s @ heard [(input, n)]) \<and>
    unat (lb_rawframes s') = unat (lb_rawframes s) + length (heard [(input, n)])"
proof -
  obtain s1 where loop: "raw_loop (heard [(input, n)]) s = (out, s1)"
    and s': "s' = count_in (\<lambda>c. c\<lparr>ls_pcmbytes := ls_pcmbytes c + of_nat (n * 2)\<rparr>) s1"
    using assms(1,3) by (auto simp: delaying_def loopback_dataCallback_def processRaw_def heard_def split: prod.splits option.splits)
  note run = raw_loop_delays [OF _ _ _ assms(2) loop]
  have "lb_rawbuffer s \<noteq> []" using assms(1) by (auto simp: delaying_def)
  then have "length (lb_rawbuffer s1) = DELAY_FRAMES" "lb_rawposition s1 < DELAY_FRAMES"
    using raw_loop_same [of s "heard [(input, n)]"] loop assms(1) by (auto simp: delaying_def same_loop_def)
  then show ?thesis using run raw_loop_mode [of "heard [(input, n)]" s] loop assms(1)
    by (simp add: delaying_def s' del: take_append drop_append)
qed

lemma delay_split:
  "take (length a + length b) (l @ a @ b) = take (length a) (l @ a) @ take (length b) (drop (length a) (l @ a) @ b)"
proof -
  have "take (length a) ((l @ a) @ b) = take (length a) (l @ a)" "drop (length a) ((l @ a) @ b) = drop (length a) (l @ a) @ b"
    by (simp_all only: take_append drop_append) simp_all
  then show ?thesis using take_add [of "length a" "length b" "(l @ a) @ b"] by simp
qed

lemma blocks_delay:
  assumes "delaying s" "unat (lb_rawframes s) + length (heard blocks) < 2 ^ 64" "play_blocks blocks s = (out, s')"
  shows "out = take (length (heard blocks)) (delay_line s @ heard blocks)"
  using assms
proof (induction blocks arbitrary: s out)
  case (Cons b blocks)
  obtain input n where b: "b = (input, n)" by fastforce
  obtain o1 s1 where 1: "loopback_dataCallback input n s = (o1, s1)" by fastforce
  obtain o2 where 2: "play_blocks blocks s1 = (o2, s')" "out = o1 @ o2"
    using Cons.prems(3) 1 by (auto simp: b split: prod.splits)
  have h: "heard (b # blocks) = heard [(input, n)] @ heard blocks" by (simp add: b heard_def)
  note block = block_delays [OF Cons.prems(1) _ 1]
  have "o2 = take (length (heard blocks)) (delay_line s1 @ heard blocks)"
    by (rule Cons.IH [OF _ _ 2(1)]) (use block Cons.prems(2) h in auto)
  moreover have "o1 = take (length (heard [(input, n)])) (delay_line s @ heard [(input, n)])"
      "delay_line s1 = drop (length (heard [(input, n)])) (delay_line s @ heard [(input, n)])"
    using block Cons.prems(2) h by simp_all
  ultimately show ?case using 2(2) unfolding h length_append delay_split by simp
qed (simp add: heard_def)

text \<open>C40. In its raw mode the loopback is a delay line of two seconds: however the device cuts the stream into
  callbacks, what is played after a successful start is silence for 96000 samples and from then on
  the samples heard, one for one (for fewer than $2^{64}$ of them).\<close>

theorem raw_loopback_delays:
  assumes "reachable (\<lambda>s. s = loopback) (loopback_step op) s" "loopback_start env MODE_RAW_PCM s = (True, s0)"
    "length (heard blocks) < 2 ^ 64" "play_blocks blocks s0 = (out, s')"
  shows "out = take (length (heard blocks)) (replicate DELAY_FRAMES 0 @ heard blocks)"
proof -
  have "length (lb_rawbuffer s) = DELAY_FRAMES" using loop.inv_reachable [OF assms(1)] by (simp add: loopback_inv_def)
  then have "delaying s0" "delay_line s0 = replicate DELAY_FRAMES 0" "lb_rawframes s0 = 0"
    using assms(2) by (auto simp: loopback_start_def delaying_def silent_start_def delay_line_def loopback_stop_def resetBuffers_def
      resetStats_def Let_def split: option.splits if_splits)
  then show ?thesis using blocks_delay [of s0 blocks out s'] assms(3,4) by simp
qed

definition example_loopback_env :: "nat loopback_env" where
  "example_loopback_env = \<lparr>le_setup = None, le_setup_error = [], le_context = True, le_device = None, le_device_start = None\<rparr>"

theorem raw_loopback_delays_witness:
  "\<exists>s0 :: nat LoopbackState. loopback_start example_loopback_env MODE_RAW_PCM loopback = (True, s0) \<and>
     fst (play_blocks [(Some [7, 8], 2), (None, 96000)] s0) = replicate 96000 0 @ [7, 8]"
proof -
  obtain s0 :: "nat LoopbackState" where s0: "loopback_start example_loopback_env MODE_RAW_PCM loopback = (True, s0)"
    by (simp add: loopback_start_def example_loopback_env_def Let_def)
  let ?blocks = "[(Some [7, 8], 2), (None, 96000)]"
  obtain out s' where out: "play_blocks ?blocks s0 = (out, s')" by fastforce
  have h: "heard ?blocks = [7, 8] @ replicate 96000 0" by (simp add: heard_def)
  have "out = take (length (heard ?blocks)) (replicate DELAY_FRAMES 0 @ heard ?blocks)"
    by (rule raw_loopback_delays [OF reach_init s0 _ out]) (simp_all add: h)
  then have "out = replicate 96000 0 @ [7, 8]" unfolding h by (simp add: take_append)
  then show ?thesis using s0 out by auto
qed

end
