(* ===== verification/MasterAccounts.thy ===== *)
theory MasterAccounts
  imports GameBackend MasterPackets
begin

section \<open>The accounts of the master server\<close>

text \<open>
  The account half of \<open>master/MasterMain.cpp\<close>: the checks on names and addresses, the password and
  token digests, the login limiter, the two SQL tables with the statements the handlers run on them,
  and the handlers of registration, login, login by token and logout.

  The digests of OpenSSL and its random bytes are a parameter (\<open>crypto\<close>). The tables are lists of
  rows and each SQL statement of the source is a definition on them; whether the engine fails to
  prepare or to step a statement is a function of the environment. Times of the steady clock are
  nanoseconds, times of the database seconds.
\<close>

subsection \<open>Strings\<close>

definition tolower :: "char \<Rightarrow> char" where
  "tolower c = (if 65 \<le> (of_char c :: nat) \<and> of_char c \<le> (90 :: nat) then char_of (of_char c + 32 :: nat) else c)"

definition isdigit :: "char \<Rightarrow> bool" where
  "isdigit c \<longleftrightarrow> 48 \<le> (of_char c :: nat) \<and> of_char c \<le> (57 :: nat)"

definition isalnum :: "char \<Rightarrow> bool" where
  "isalnum c \<longleftrightarrow> isdigit c \<or> 65 \<le> (of_char c :: nat) \<and> of_char c \<le> (90 :: nat) \<or>
     97 \<le> (of_char c :: nat) \<and> of_char c \<le> (122 :: nat)"

definition lower_all :: "string \<Rightarrow> string" where
  "lower_all txt = map tolower txt"

text \<open>\<open>c_str()\<close> bound with length \<open>-1\<close> ends at the first zero byte.\<close>

definition c_str :: "string \<Rightarrow> string" where
  "c_str txt = takeWhile (\<lambda>c. of_char c \<noteq> (0 :: nat)) txt"

text \<open>\<open>std::string::find\<close> of a character from a position, and \<open>rfind\<close>.\<close>

definition index_of :: "char \<Rightarrow> string \<Rightarrow> nat option" where
  "index_of c txt = (let n = length (takeWhile (\<lambda>d. d \<noteq> c) txt) in if n < length txt then Some n else None)"

definition find_from :: "char \<Rightarrow> string \<Rightarrow> nat \<Rightarrow> nat option" where
  "find_from c txt start = map_option (\<lambda>i. start + i) (index_of c (drop start txt))"

definition rfind :: "char \<Rightarrow> string \<Rightarrow> nat option" where
  "rfind c txt = map_option (\<lambda>i. length txt - 1 - i) (index_of c (rev txt))"

definition IsValidEmail :: "string \<Rightarrow> bool" where
  "IsValidEmail email =
     (if length email < 3 \<or> length email > 100 then False
      else (case find_from CHR ''@'' email 0 of None \<Rightarrow> False
        | Some pos \<Rightarrow> if pos = 0 \<or> pos = length email - 1 then False
          else (case find_from CHR ''.'' email pos of None \<Rightarrow> False
            | Some dot \<Rightarrow> \<not> (dot = pos + 1 \<or> dot = length email - 1))))"

definition IsValidUsername :: "string \<Rightarrow> bool" where
  "IsValidUsername username =
     (if length username < 3 \<or> length username > 20 then False
      else list_all (\<lambda>c. \<not> (\<not> isalnum c \<and> c \<noteq> CHR ''_'')) username)"

subsection \<open>Digests\<close>

record crypto =
  SHA256 :: "string \<Rightarrow> bytes"
  PBKDF2_HMAC_SHA256 :: "string \<Rightarrow> bytes \<Rightarrow> int \<Rightarrow> bytes"
  RAND_bytes :: "nat \<Rightarrow> nat \<Rightarrow> bytes \<times> nat"

text \<open>\<open>std::hex\<close> with width two and fill \<open>0\<close>.\<close>

definition hex_digit :: "nat \<Rightarrow> char" where
  "hex_digit n = char_of (if n < 10 then 48 + n else 87 + n)"

definition hex_byte :: "u8 \<Rightarrow> string" where
  "hex_byte b = [hex_digit (unat b div 16), hex_digit (unat b mod 16)]"

definition to_hex :: "bytes \<Rightarrow> string" where
  "to_hex bs = concat (map hex_byte bs)"

text \<open>\<open>std::strtol\<close> in base 16: white space, a sign, \<open>0x\<close>, then as many digits as there are.\<close>

definition isspace :: "char \<Rightarrow> bool" where
  "isspace c \<longleftrightarrow> of_char c = (32 :: nat) \<or> 9 \<le> (of_char c :: nat) \<and> of_char c \<le> (13 :: nat)"

definition hex_value :: "char \<Rightarrow> nat option" where
  "hex_value c =
     (let n = of_char c in
      if isdigit c then Some (n - 48)
      else if 65 \<le> n \<and> n \<le> 70 then Some (n - 55)
      else if 97 \<le> n \<and> n \<le> 102 then Some (n - 87) else None)"

fun hex_number :: "int \<Rightarrow> string \<Rightarrow> int" where
  "hex_number v [] = v"
| "hex_number v (c # cs) = (case hex_value c of None \<Rightarrow> v | Some d \<Rightarrow> hex_number (v * 16 + int d) cs)"

definition sign_of :: "string \<Rightarrow> bool \<times> string" where
  "sign_of txt = (case txt of [] \<Rightarrow> (False, [])
     | c # cs \<Rightarrow> if c = CHR ''-'' then (True, cs) else if c = CHR ''+'' then (False, cs) else (False, txt))"

definition strip_0x :: "string \<Rightarrow> string" where
  "strip_0x txt = (case txt of
       a # x # d # _ \<Rightarrow> if a = CHR ''0'' \<and> (x = CHR ''x'' \<or> x = CHR ''X'') \<and> hex_value d \<noteq> None
         then drop 2 txt else txt
     | _ \<Rightarrow> txt)"

definition strtol16 :: "string \<Rightarrow> int" where
  "strtol16 txt =
     (let (neg, digits) = sign_of (dropWhile isspace txt); v = hex_number 0 (strip_0x digits)
      in if neg then - v else v)"

definition GenerateSecureRandomHex :: "crypto \<Rightarrow> nat \<Rightarrow> nat \<Rightarrow> string \<times> nat" where
  "GenerateSecureRandomHex cr numBytes g = (let (bs, g) = RAND_bytes cr numBytes g in (to_hex bs, g))"

definition GenerateSecureSessionToken :: "crypto \<Rightarrow> nat \<Rightarrow> string \<times> nat" where
  "GenerateSecureSessionToken cr g = GenerateSecureRandomHex cr 32 g"

definition GenerateRandomSalt :: "crypto \<Rightarrow> nat \<Rightarrow> nat \<Rightarrow> string \<times> nat" where
  "GenerateRandomSalt cr numBytes g = GenerateSecureRandomHex cr numBytes g"

definition PBKDF2_ITERATIONS :: int where
  "PBKDF2_ITERATIONS = 600000"

fun salt_bytes :: "string \<Rightarrow> bytes" where
  "salt_bytes (a # b # rest) = word_of_int (strtol16 [a, b]) # salt_bytes rest"
| "salt_bytes _ = []"

definition HashPasswordPBKDF2 :: "crypto \<Rightarrow> string \<Rightarrow> string \<Rightarrow> string" where
  "HashPasswordPBKDF2 cr password saltHex =
     (let saltBytes = salt_bytes saltHex;
          saltBytes = (if saltBytes = [] then replicate 16 0 else saltBytes)
      in to_hex (PBKDF2_HMAC_SHA256 cr password saltBytes PBKDF2_ITERATIONS))"

definition HashSessionToken :: "crypto \<Rightarrow> string \<Rightarrow> string" where
  "HashSessionToken cr rawToken = to_hex (SHA256 cr rawToken)"

definition HashPasswordWithSalt :: "crypto \<Rightarrow> string \<Rightarrow> string \<Rightarrow> string" where
  "HashPasswordWithSalt cr clientHash salt = to_hex (SHA256 cr (clientHash @ '':'' @ salt))"

subsection \<open>The login limiter\<close>

text \<open>\<open>time_point::min()\<close> is \<open>-2^63\<close>; \<open>duration_cast\<close> to seconds truncates toward zero.\<close>

record IpRateLimit =
  rl_failedAttempts :: "int list"
  rl_lockoutUntil :: int

definition TIME_POINT_MIN :: int where
  "TIME_POINT_MIN = - (2 ^ 63)"

definition ip_rate_limit :: IpRateLimit where
  "ip_rate_limit = \<lparr>rl_failedAttempts = [], rl_lockoutUntil = TIME_POINT_MIN\<rparr>"

definition whole_seconds :: "int \<Rightarrow> int" where
  "whole_seconds ns = (if ns < 0 then - (- ns div 1000000000) else ns div 1000000000)"

definition isLockedOut :: "int \<Rightarrow> string \<Rightarrow> (string, IpRateLimit) umap \<Rightarrow> string option" where
  "isLockedOut now ip tracker =
     (case um_find tracker ip of None \<Rightarrow> None
      | Some entry \<Rightarrow>
          if now < rl_lockoutUntil entry
          then Some (''Too many failed attempts. Locked out for '' @
                 to_string (nat (whole_seconds (rl_lockoutUntil entry - now))) @ ''s.'')
          else None)"

definition recordFailedAttempt ::
  "int \<Rightarrow> string \<Rightarrow> (string, IpRateLimit) umap \<Rightarrow> (string, IpRateLimit) umap" where
  "recordFailedAttempt now ip tracker =
     (let entry = (case um_find tracker ip of None \<Rightarrow> ip_rate_limit | Some e \<Rightarrow> e);
          attempts = filter (\<lambda>tp. \<not> whole_seconds (now - tp) > 60) (rl_failedAttempts entry) @ [now]
      in um_put ip
           (if length attempts \<ge> 10
            then \<lparr>rl_failedAttempts = [], rl_lockoutUntil = now + 300 * 1000000000\<rparr>
            else entry\<lparr>rl_failedAttempts := attempts\<rparr>) tracker)"

definition recordSuccess :: "string \<Rightarrow> (string, IpRateLimit) umap \<Rightarrow> (string, IpRateLimit) umap" where
  "recordSuccess ip tracker = um_erase ip tracker"

subsection \<open>The tables\<close>

text \<open>
  A database made by this version has a unique \<open>token_hash\<close> and no \<open>token\<close> column; one migrated
  from the version before (\<open>db_migrated\<close>) has the old \<open>token\<close> column, and a \<open>token_hash\<close> that is
  not unique. Nothing enforces the foreign key of a session, as SQLite only does so on request.
\<close>

record UserRow =
  ur_id :: int
  ur_username :: string
  ur_email :: string
  ur_password :: string
  ur_salt :: string
  ur_algo :: string

record SessionRow =
  sr_id :: int
  sr_user :: int
  sr_hash :: string
  sr_token :: "string option"
  sr_lastUsed :: int

record Database =
  db_users :: "UserRow list"
  db_sessions :: "SessionRow list"
  db_nextUser :: int
  db_nextSession :: int
  db_migrated :: bool

definition fresh_database :: Database where
  "fresh_database = \<lparr>db_users = [], db_sessions = [], db_nextUser = 1, db_nextSession = 1, db_migrated = False\<rparr>"

text \<open>The statements, and how the engine can refuse one.\<close>

datatype sql = InsertUser | InsertSession | SelectUser | UpgradeUser | SelectToken | TouchSession
  | DeleteSession | PruneSessions

datatype sql_fault = PrepareFails | StepFails

datatype sql_rc = SqlDone | SqlConstraint | SqlOther

record sql_env =
  se_fault :: "sql \<Rightarrow> sql_fault option"
  se_now :: int

definition ColumnText :: "string option \<Rightarrow> string" where
  "ColumnText column = (case column of None \<Rightarrow> [] | Some txt \<Rightarrow> c_str txt)"

definition insert_user :: "string \<Rightarrow> string \<Rightarrow> string \<Rightarrow> string \<Rightarrow> Database \<Rightarrow> sql_rc \<times> Database" where
  "insert_user username email password salt db =
     (if list_ex (\<lambda>u. ur_username u = username \<or> ur_email u = email) (db_users db) then (SqlConstraint, db)
      else (SqlDone, db\<lparr>db_users := db_users db @ [\<lparr>ur_id = db_nextUser db, ur_username = username,
             ur_email = email, ur_password = password, ur_salt = salt, ur_algo = ''pbkdf2''\<rparr>],
           db_nextUser := db_nextUser db + 1\<rparr>))"

definition insert_session :: "int \<Rightarrow> string \<Rightarrow> int \<Rightarrow> Database \<Rightarrow> Database" where
  "insert_session user hash now db =
     (if \<not> db_migrated db \<and> list_ex (\<lambda>r. sr_hash r = hash) (db_sessions db) then db
      else db\<lparr>db_sessions := db_sessions db @ [\<lparr>sr_id = db_nextSession db, sr_user = user, sr_hash = hash,
             sr_token = None, sr_lastUsed = now\<rparr>],
           db_nextSession := db_nextSession db + 1\<rparr>)"

definition select_user :: "string \<Rightarrow> Database \<Rightarrow> UserRow option" where
  "select_user email db = List.find (\<lambda>u. lower_all (ur_email u) = email) (db_users db)"

definition upgrade_user :: "int \<Rightarrow> string \<Rightarrow> string \<Rightarrow> Database \<Rightarrow> Database" where
  "upgrade_user userId password salt db =
     db\<lparr>db_users := map (\<lambda>u. if ur_id u = userId
          then u\<lparr>ur_password := password, ur_salt := salt, ur_algo := ''pbkdf2''\<rparr> else u) (db_users db)\<rparr>"

definition select_token :: "string \<Rightarrow> string \<Rightarrow> string \<Rightarrow> Database \<Rightarrow> (UserRow \<times> SessionRow) option" where
  "select_token email tokenHash token db =
     List.find (\<lambda>(u, r). sr_user r = ur_id u \<and> lower_all (ur_email u) = email \<and>
         (sr_hash r = tokenHash \<or> sr_token r = Some token))
       (concat (map (\<lambda>r. map (\<lambda>u. (u, r)) (db_users db)) (db_sessions db)))"

definition touch_session :: "int \<Rightarrow> string \<Rightarrow> int \<Rightarrow> Database \<Rightarrow> Database" where
  "touch_session sessId tokenHash now db =
     (if \<not> db_migrated db \<and> list_ex (\<lambda>r. sr_hash r = tokenHash \<and> sr_id r \<noteq> sessId) (db_sessions db) then db
      else db\<lparr>db_sessions := map (\<lambda>r. if sr_id r = sessId then r\<lparr>sr_lastUsed := now, sr_hash := tokenHash\<rparr> else r)
             (db_sessions db)\<rparr>)"

definition delete_session :: "string \<Rightarrow> string \<Rightarrow> Database \<Rightarrow> Database" where
  "delete_session tokenHash token db =
     db\<lparr>db_sessions := filter (\<lambda>r. \<not> (sr_hash r = tokenHash \<or> sr_token r = Some token)) (db_sessions db)\<rparr>"

definition PruneExpiredSessions :: "sql_env \<Rightarrow> Database option \<Rightarrow> Database option" where
  "PruneExpiredSessions env dbo =
     (case dbo of None \<Rightarrow> None
      | Some db \<Rightarrow> if se_fault env PruneSessions \<noteq> None then Some db
          else Some (db\<lparr>db_sessions := filter (\<lambda>r. \<not> sr_lastUsed r < se_now env - 30 * 86400) (db_sessions db)\<rparr>))"

subsection \<open>The handlers\<close>

record AccountState =
  ac_db :: "Database option"
  ac_tracker :: "(string, IpRateLimit) umap"
  ac_rand :: nat

definition CreateSessionForUser ::
  "crypto \<Rightarrow> sql_env \<Rightarrow> int \<Rightarrow> AccountState \<Rightarrow> string \<times> AccountState" where
  "CreateSessionForUser cr env userId s =
     (case ac_db s of None \<Rightarrow> ([], s)
      | Some db \<Rightarrow>
          if userId \<le> 0 then ([], s)
          else (let (rawToken, g) = GenerateSecureSessionToken cr (ac_rand s);
                    s = s\<lparr>ac_rand := g\<rparr>;
                    tokenHash = HashSessionToken cr rawToken
            in (case se_fault env InsertSession of
                  Some PrepareFails \<Rightarrow> ([], s)
                | Some StepFails \<Rightarrow> (rawToken, s)
                | None \<Rightarrow> (rawToken, s\<lparr>ac_db := Some (insert_session userId tokenHash (se_now env) db)\<rparr>))))"

definition register_res :: "bool \<Rightarrow> string \<Rightarrow> string \<Rightarrow> MasterUserRegisterRes" where
  "register_res success message token = \<lparr>mf_success = success, mf_message = message, mf_token = token\<rparr>"

definition on_user_register ::
  "crypto \<Rightarrow> sql_env \<Rightarrow> MasterUserRegister \<Rightarrow> AccountState \<Rightarrow> MasterUserRegisterRes \<times> AccountState" where
  "on_user_register cr env p s =
     (let email = lower_all (me_email p) in
      if \<not> IsValidUsername (me_username p)
      then (register_res False ''Username must be 3-20 characters (letters, numbers, _).'' [], s)
      else if \<not> IsValidEmail email then (register_res False ''Invalid email address format.'' [], s)
      else if me_password p = [] then (register_res False ''Password is required.'' [], s)
      else (case ac_db s of None \<Rightarrow> (register_res False ''Database unavailable.'' [], s)
        | Some db \<Rightarrow>
           (let (salt, g) = GenerateRandomSalt cr 16 (ac_rand s);
                s = s\<lparr>ac_rand := g\<rparr>;
                pbkdf2Password = HashPasswordPBKDF2 cr (me_password p) salt
            in if se_fault env InsertUser = Some PrepareFails then (register_res False ''Database error.'' [], s)
               else (let (rc, db') = (if se_fault env InsertUser = Some StepFails then (SqlOther, db)
                           else insert_user (c_str (me_username p)) (c_str email) (c_str pbkdf2Password) (c_str salt) db)
                 in (case rc of
                       SqlDone \<Rightarrow>
                         (let userId = db_nextUser db;
                              (token, s) = CreateSessionForUser cr env userId (s\<lparr>ac_db := Some db'\<rparr>)
                          in (register_res True ''Registration successful!'' token, s))
                     | SqlConstraint \<Rightarrow> (register_res False ''Username or Email already exists.'' [], s)
                     | SqlOther \<Rightarrow> (register_res False ''Database error.'' [], s))))))"

definition login_res :: "bool \<Rightarrow> string \<Rightarrow> string \<Rightarrow> string \<Rightarrow> MasterUserLoginRes" where
  "login_res success message username token =
     \<lparr>mr_success = success, mr_message = message, mr_username = username, mr_token = token\<rparr>"

definition legacy_match :: "crypto \<Rightarrow> string \<Rightarrow> string \<Rightarrow> string \<Rightarrow> bool" where
  "legacy_match cr password salt storedPass =
     (if HashPasswordWithSalt cr password salt = storedPass \<or> storedPass = password then True
      else (let clientHash = to_hex (SHA256 cr password)
        in HashPasswordWithSalt cr clientHash salt = storedPass \<or> storedPass = clientHash))"

text \<open>The check of the password, with the upgrade of an account that still has an old digest.\<close>

definition check_password ::
  "crypto \<Rightarrow> sql_env \<Rightarrow> string \<Rightarrow> UserRow \<Rightarrow> AccountState \<Rightarrow> bool \<times> AccountState" where
  "check_password cr env password row s =
     (let storedPass = ColumnText (Some (ur_password row));
          salt = ColumnText (Some (ur_salt row));
          algo = ColumnText (Some (ur_algo row))
      in if algo = ''pbkdf2'' \<and> salt \<noteq> [] then (HashPasswordPBKDF2 cr password salt = storedPass, s)
         else if legacy_match cr password salt storedPass
         then (let (newSalt, g) = GenerateRandomSalt cr 16 (ac_rand s);
                   s = s\<lparr>ac_rand := g\<rparr>;
                   newHash = HashPasswordPBKDF2 cr password newSalt
           in (True, if se_fault env UpgradeUser \<noteq> None then s
                     else s\<lparr>ac_db := map_option (upgrade_user (ur_id row) (c_str newHash) (c_str newSalt)) (ac_db s)\<rparr>))
         else (False, s))"

definition fail_login :: "int \<Rightarrow> string \<Rightarrow> AccountState \<Rightarrow> MasterUserLoginRes \<times> AccountState" where
  "fail_login now ip s =
     (login_res False ''Incorrect email or password.'' [] [],
      s\<lparr>ac_tracker := recordFailedAttempt now ip (ac_tracker s)\<rparr>)"

definition on_user_login ::
  "crypto \<Rightarrow> sql_env \<Rightarrow> int \<Rightarrow> string \<Rightarrow> MasterUserLogin \<Rightarrow> AccountState \<Rightarrow> MasterUserLoginRes \<times> AccountState" where
  "on_user_login cr env now clientIp p s =
     (case isLockedOut now clientIp (ac_tracker s) of
        Some lockMsg \<Rightarrow> (login_res False lockMsg [] [], s)
      | None \<Rightarrow>
         (let email = lower_all (ml_email p) in
          if email = [] \<or> ml_password p = [] then fail_login now clientIp s
          else (case ac_db s of None \<Rightarrow> (login_res False ''Database unavailable.'' [] [], s)
            | Some db \<Rightarrow>
                if se_fault env SelectUser = Some PrepareFails then (login_res False ''Database error.'' [] [], s)
                else (case (if se_fault env SelectUser = Some StepFails then None
                            else select_user (c_str email) db) of
                    None \<Rightarrow> fail_login now clientIp s
                  | Some row \<Rightarrow>
                      (let (passwordMatch, s) = check_password cr env (ml_password p) row s
                       in if passwordMatch
                          then (let s = s\<lparr>ac_tracker := recordSuccess clientIp (ac_tracker s)\<rparr>;
                                    (token, s) = CreateSessionForUser cr env (ur_id row) s
                            in (login_res True ''Login successful!'' (ColumnText (Some (ur_username row))) token, s))
                          else fail_login now clientIp s)))))"

text \<open>Both statements about a token name the \<open>token\<close> column, which only a migrated table has.\<close>

definition token_prepares :: "sql_env \<Rightarrow> sql \<Rightarrow> Database \<Rightarrow> bool" where
  "token_prepares env q db \<longleftrightarrow> db_migrated db \<and> se_fault env q \<noteq> Some PrepareFails"

definition on_token_login ::
  "crypto \<Rightarrow> sql_env \<Rightarrow> MasterTokenLogin \<Rightarrow> AccountState \<Rightarrow> MasterUserLoginRes \<times> AccountState" where
  "on_token_login cr env p s =
     (let email = lower_all (mt_email p) in
      if email = [] \<or> mt_token p = [] then (login_res False ''Invalid session token.'' [] [], s)
      else (case PruneExpiredSessions env (ac_db s) of
          None \<Rightarrow> (login_res False ''Database unavailable.'' [] [], s)
        | Some db \<Rightarrow>
           (let s = s\<lparr>ac_db := Some db\<rparr>; tokenHash = HashSessionToken cr (mt_token p) in
            if \<not> token_prepares env SelectToken db then (login_res False ''Database error.'' [] [], s)
            else (case (if se_fault env SelectToken = Some StepFails then None
                        else select_token (c_str email) tokenHash (c_str (mt_token p)) db) of
                None \<Rightarrow> (login_res False ''Session expired or invalid. Please log in.'' [] [], s)
              | Some (u, r) \<Rightarrow>
                  (login_res True ''Auto-login successful!'' (ColumnText (Some (ur_username u))) (mt_token p),
                   if se_fault env TouchSession \<noteq> None then s
                   else s\<lparr>ac_db := Some (touch_session (sr_id r) tokenHash (se_now env) db)\<rparr>)))))"

definition on_user_logout :: "crypto \<Rightarrow> sql_env \<Rightarrow> MasterLogout \<Rightarrow> AccountState \<Rightarrow> AccountState" where
  "on_user_logout cr env p s =
     (case ac_db s of None \<Rightarrow> s
      | Some db \<Rightarrow>
          if mo_token p = [] then s
          else if \<not> token_prepares env DeleteSession db \<or> se_fault env DeleteSession = Some StepFails then s
          else s\<lparr>ac_db := Some (delete_session (HashSessionToken cr (mo_token p)) (c_str (mo_token p)) db)\<rparr>)"

subsection \<open>The start of the database\<close>

text \<open>\<open>CREATE TABLE IF NOT EXISTS\<close> leaves the tables of a file that has them as they are; the three
  \<open>ALTER TABLE\<close> statements fail where the columns exist. \<open>opened\<close> is what the file holds, with its
  columns as the migration leaves them, and \<open>None\<close> when it cannot be opened.\<close>

definition open_database :: "sql_env \<Rightarrow> Database option option \<Rightarrow> Database option" where
  "open_database env opened =
     (case opened of None \<Rightarrow> None
      | Some None \<Rightarrow> PruneExpiredSessions env (Some fresh_database)
      | Some (Some db) \<Rightarrow> PruneExpiredSessions env (Some db))"

subsection \<open>Digests and texts\<close>

lemma whole_seconds_gt: "whole_seconds x > 60 \<longleftrightarrow> x \<ge> 61000000000"
  unfolding whole_seconds_def by (auto split: if_splits)

lemma c_str_id: "\<forall>c \<in> set txt. of_char c \<noteq> (0 :: nat) \<Longrightarrow> c_str txt = txt"
  by (simp add: c_str_def takeWhile_eq_all_conv)

lemma hex_digit_code: "n < 16 \<Longrightarrow> 0 < (of_char (hex_digit n) :: nat)"
  by (simp add: hex_digit_def)

lemma c_str_to_hex [simp]: "c_str (to_hex bs) = to_hex bs"
proof (rule c_str_id, rule ballI)
  fix c assume "c \<in> set (to_hex bs)"
  then obtain b :: u8 where "c \<in> set (hex_byte b)" by (auto simp: to_hex_def)
  moreover have "unat b < 2 ^ LENGTH(8)" by (rule unsigned_less)
  then have "unat b div 16 < 16" by simp
  ultimately show "of_char c \<noteq> (0 :: nat)" by (auto simp: hex_byte_def hex_digit_code)
qed

lemma length_to_hex [simp]: "length (to_hex bs) = 2 * length bs"
  unfolding to_hex_def by (induction bs) (auto simp: hex_byte_def)

lemma c_str_digests [simp]:
  "c_str (HashPasswordPBKDF2 cr password salt) = HashPasswordPBKDF2 cr password salt"
  "c_str (HashSessionToken cr token) = HashSessionToken cr token"
  by (simp_all add: HashPasswordPBKDF2_def HashSessionToken_def Let_def)

lemma random_salt: 
  "GenerateRandomSalt cr n g = (to_hex (fst (RAND_bytes cr n g)), snd (RAND_bytes cr n g))"
  by (simp add: GenerateRandomSalt_def GenerateSecureRandomHex_def split_beta)

lemma IsValidUsername_iff:
  "IsValidUsername u \<longleftrightarrow> 3 \<le> length u \<and> length u \<le> 20 \<and> (\<forall>c \<in> set u. isalnum c \<or> c = CHR ''_'')"
  by (auto simp: IsValidUsername_def list_all_iff)

lemma c_str_username: "IsValidUsername u \<Longrightarrow> c_str u = u"
  by (rule c_str_id) (auto simp: IsValidUsername_iff isalnum_def isdigit_def)

lemma tolower_idem [simp]: "tolower (tolower c) = tolower c"
  by (auto simp: tolower_def)

lemma lower_all_idem [simp]: "lower_all (lower_all txt) = lower_all txt"
  by (simp add: lower_all_def)

lemma tolower_zero: "of_char (tolower c) = (0 :: nat) \<longleftrightarrow> of_char c = (0 :: nat)"
  by (auto simp: tolower_def)

lemma lower_c_str: "lower_all (c_str txt) = c_str (lower_all txt)"
  using tolower_zero by (simp add: lower_all_def c_str_def takeWhile_map comp_def flip: neq0_conv)

subsection \<open>What a login does to the limiter\<close>

definition wrong_message :: string where
  "wrong_message = ''Incorrect email or password.''"

lemma lock_message: "isLockedOut now ip tr = Some msg \<Longrightarrow> msg \<noteq> wrong_message"
  by (auto simp: isLockedOut_def wrong_message_def split: option.splits if_splits)

lemma create_session_tracker [simp]:
  "ac_tracker (snd (CreateSessionForUser cr env i s)) = ac_tracker s"
  by (auto simp: CreateSessionForUser_def Let_def split_beta split: option.splits sql_fault.splits)

lemma check_password_tracker [simp]:
  "ac_tracker (snd (check_password cr env password row s)) = ac_tracker s"
  by (simp add: check_password_def Let_def split_beta)

lemma login_tracker_cases:
  assumes "on_user_login cr env now ip p s = (r, s')"
  obtains (locked) msg where "isLockedOut now ip (ac_tracker s) = Some msg" "r = login_res False msg [] []" "s' = s"
  | (wrong) "isLockedOut now ip (ac_tracker s) = None" "r = login_res False wrong_message [] []"
      "ac_tracker s' = recordFailedAttempt now ip (ac_tracker s)"
  | (success) "isLockedOut now ip (ac_tracker s) = None" "mr_success r" "mr_message r \<noteq> wrong_message"
      "ac_tracker s' = recordSuccess ip (ac_tracker s)"
  | (down) "isLockedOut now ip (ac_tracker s) = None" "\<not> mr_success r" "mr_message r \<noteq> wrong_message" "s' = s"
  using assms unfolding on_user_login_def fail_login_def Let_def
  by (cases "isLockedOut now ip (ac_tracker s)")
    (auto simp: wrong_message_def login_res_def split_beta split: option.splits if_splits)

fun login_run ::
  "crypto \<Rightarrow> (sql_env \<times> int \<times> string \<times> MasterUserLogin) list \<Rightarrow> AccountState
     \<Rightarrow> (int \<times> string \<times> MasterUserLoginRes) list \<times> AccountState" where
  "login_run cr [] s = ([], s)"
| "login_run cr ((env, now, ip, p) # reqs) s =
     (let (r, s) = on_user_login cr env now ip p s; (out, s) = login_run cr reqs s in ((now, ip, r) # out, s))"

definition wrong_guesses :: "string \<Rightarrow> (int \<times> string \<times> MasterUserLoginRes) list \<Rightarrow> int list" where
  "wrong_guesses ip out = map fst (filter (\<lambda>(now, i, r). i = ip \<and> mr_message r = wrong_message) out)"

definition never_succeeds :: "string \<Rightarrow> (int \<times> string \<times> MasterUserLoginRes) list \<Rightarrow> bool" where
  "never_succeeds ip out \<longleftrightarrow> list_all (\<lambda>(now, i, r). i = ip \<longrightarrow> \<not> mr_success r) out"

definition request_time :: "sql_env \<times> int \<times> string \<times> MasterUserLogin \<Rightarrow> int" where
  "request_time q = fst (snd q)"

lemma request_time_simp [simp]: "request_time (env, now, ip, p) = now"
  by (simp add: request_time_def)

definition recent :: "int \<Rightarrow> int list \<Rightarrow> int list" where
  "recent t gs = filter (\<lambda>g. t - g < 61000000000) gs"

definition entry_of :: "string \<Rightarrow> (string, IpRateLimit) umap \<Rightarrow> IpRateLimit" where
  "entry_of ip tr = (case um_find tr ip of None \<Rightarrow> ip_rate_limit | Some e \<Rightarrow> e)"

text \<open>The entry of an address holds the wrong guesses \<open>gs\<close> made so far, as far as they still count at
  any time from \<open>t\<close> on that is not locked.\<close>

definition tracks :: "int list \<Rightarrow> int \<Rightarrow> IpRateLimit \<Rightarrow> bool" where
  "tracks gs t e \<longleftrightarrow> (\<forall>g \<in> set gs. g \<le> t) \<and> length (rl_failedAttempts e) \<le> 9 \<and>
     (\<forall>t' \<ge> t. rl_lockoutUntil e \<le> t' \<longrightarrow> recent t' (rl_failedAttempts e) = recent t' gs) \<and>
     (gs \<noteq> [] \<longrightarrow> 10 \<le> length (recent (last gs) gs) \<longrightarrow> rl_lockoutUntil e = last gs + 300000000000)"

definition few_per_minute :: "int list \<Rightarrow> bool" where
  "few_per_minute gs \<longleftrightarrow> (\<forall>a. length (filter (\<lambda>g. a \<le> g \<and> g \<le> a + 60000000000) gs) \<le> 10)"

lemma locked_iff: "isLockedOut now ip tr \<noteq> None \<longleftrightarrow> um_find tr ip \<noteq> None \<and> now < rl_lockoutUntil (entry_of ip tr)"
  by (auto simp: isLockedOut_def entry_of_def split: option.splits)

lemma not_locked_from: "isLockedOut now ip tr = None \<Longrightarrow> TIME_POINT_MIN \<le> now \<Longrightarrow> rl_lockoutUntil (entry_of ip tr) \<le> now"
  by (auto simp: isLockedOut_def entry_of_def ip_rate_limit_def split: option.splits if_splits)

lemma entry_failed:
  "entry_of i (recordFailedAttempt now ip tr) =
     (if i = ip then
        (let kept = recent now (rl_failedAttempts (entry_of ip tr)) in
         if 9 \<le> length kept then \<lparr>rl_failedAttempts = [], rl_lockoutUntil = now + 300000000000\<rparr>
         else (entry_of ip tr)\<lparr>rl_failedAttempts := kept @ [now]\<rparr>)
      else entry_of i tr)"
  by (auto simp: recordFailedAttempt_def entry_of_def recent_def whole_seconds_gt Let_def not_le)

lemma entry_success: "entry_of i (recordSuccess ip tr) = (if i = ip then ip_rate_limit else entry_of i tr)"
  by (simp add: entry_of_def recordSuccess_def)

lemma recent_recent: "t \<le> t' \<Longrightarrow> recent t' (recent t gs) = recent t' gs"
  unfolding recent_def by (induction gs) auto

lemma recent_later: "\<forall>g \<in> set gs. g \<le> t \<Longrightarrow> t + 61000000000 \<le> t' \<Longrightarrow> recent t' gs = []"
  by (force simp: recent_def filter_empty_conv)

lemma recent_Nil [simp]: "recent t [] = []"
  by (simp add: recent_def)

lemma recent_snoc: "recent t' (gs @ [t]) = recent t' gs @ (if t' - t < 61000000000 then [t] else [])"
  by (simp add: recent_def)
lemma tracks_later: "tracks gs t e \<Longrightarrow> t \<le> t' \<Longrightarrow> tracks gs t' e"
  by (force simp: tracks_def)

lemma tracks_recent: "tracks gs t e \<Longrightarrow> t \<le> now \<Longrightarrow> rl_lockoutUntil e \<le> now \<Longrightarrow> length (recent now gs) \<le> 9"
  unfolding tracks_def using length_filter_le [of _ "rl_failedAttempts e"] by (metis le_trans recent_def)

lemma tracks_failed:
  assumes gs: "tracks gs t (entry_of ip tr)" and now: "t \<le> now" "rl_lockoutUntil (entry_of ip tr) \<le> now"
  shows "tracks (gs @ [now]) now (entry_of ip (recordFailedAttempt now ip tr))"
proof -
  let ?e = "entry_of ip tr"
  have kept: "recent now (rl_failedAttempts ?e) = recent now gs" and past: "\<forall>g \<in> set gs. g \<le> now"
    using gs now by (force simp: tracks_def)+
  have later: "recent t' (gs @ [now]) = recent t' (recent now gs @ [now])" if "now \<le> t'" for t'
    using that by (simp add: recent_snoc recent_recent)
  have "rl_lockoutUntil (entry_of ip (recordFailedAttempt now ip tr)) = now + 300000000000 \<and>
        rl_failedAttempts (entry_of ip (recordFailedAttempt now ip tr)) = []" if "9 \<le> length (recent now gs)"
    using that by (simp add: entry_failed kept)
  moreover have "recent t' (gs @ [now]) = []" if "now + 300000000000 \<le> t'" for t'
    by (rule recent_later [of _ now]) (use past that in auto)
  moreover have "rl_failedAttempts (entry_of ip (recordFailedAttempt now ip tr)) = recent now gs @ [now]"
    if "\<not> 9 \<le> length (recent now gs)"
    using that by (simp add: entry_failed kept)
  moreover have "rl_lockoutUntil (entry_of ip (recordFailedAttempt now ip tr)) = rl_lockoutUntil ?e"
    if "\<not> 9 \<le> length (recent now gs)"
    using that by (simp add: entry_failed kept)
  moreover have "recent now (gs @ [now]) = recent now gs @ [now]" by (simp add: recent_snoc)
  ultimately show ?thesis
    using past later by (cases "9 \<le> length (recent now gs)") (auto simp: tracks_def not_le)
qed

lemma few_snoc:
  assumes "few_per_minute gs" "\<forall>g \<in> set gs. g \<le> now" "length (recent now gs) \<le> 9"
  shows "few_per_minute (gs @ [now])"
  unfolding few_per_minute_def
proof
  fix a
  show "length (filter (\<lambda>g. a \<le> g \<and> g \<le> a + 60000000000) (gs @ [now])) \<le> 10"
  proof (cases "a \<le> now \<and> now \<le> a + 60000000000")
    case True
    have "filter (\<lambda>g. a \<le> g \<and> g \<le> a + 60000000000) gs = filter (\<lambda>g. a \<le> g \<and> g \<le> a + 60000000000) (recent now gs)"
      using True by (induction gs) (auto simp: recent_def)
    then have "length (filter (\<lambda>g. a \<le> g \<and> g \<le> a + 60000000000) gs) \<le> 9"
      using le_trans [OF length_filter_le [of _ "recent now gs"] assms(3)] by simp
    with True show ?thesis by simp
  next
    case False
    with assms(1) show ?thesis by (auto simp: few_per_minute_def)
  qed
qed

lemma wrong_guesses_Cons:
  "wrong_guesses ip ((now, i, r) # out) =
     (if i = ip \<and> mr_message r = wrong_message then now # wrong_guesses ip out else wrong_guesses ip out)"
  by (simp add: wrong_guesses_def)

lemma wrong_guess_times:
  "login_run cr reqs s = (out, s') \<Longrightarrow> set (wrong_guesses ip out) \<subseteq> request_time ` set reqs"
proof (induction reqs arbitrary: s out)
  case (Cons q reqs)
  obtain env now i p where q: "q = (env, now, i, p)" by (cases q)
  obtain r s1 where "on_user_login cr env now i p s = (r, s1)" by fastforce
  moreover obtain out1 where "login_run cr reqs s1 = (out1, s')" "out = (now, i, r) # out1"
    using Cons.prems calculation by (auto simp: q split: prod.splits)
  ultimately show ?case using Cons.IH by (fastforce simp: q wrong_guesses_Cons split: if_splits)
qed (simp add: wrong_guesses_def)

lemma login_run_tracks:
  assumes "login_run cr reqs s = (out, s')" "tracks gs t (entry_of ip (ac_tracker s))" "few_per_minute gs"
    "TIME_POINT_MIN \<le> t" "sorted (t # map request_time reqs)" "never_succeeds ip out"
  shows "few_per_minute (gs @ wrong_guesses ip out) \<and>
    (\<exists>t'. tracks (gs @ wrong_guesses ip out) t' (entry_of ip (ac_tracker s')) \<and> (t' = t \<or> t' \<in> request_time ` set reqs))"
  using assms
proof (induction reqs arbitrary: s gs t out)
  case Nil
  then show ?case by (auto simp: wrong_guesses_def)
next
  case (Cons q reqs)
  obtain env now i p where q: "q = (env, now, i, p)" by (cases q)
  obtain r s1 where r: "on_user_login cr env now i p s = (r, s1)" by fastforce
  obtain out1 where out: "login_run cr reqs s1 = (out1, s')" "out = (now, i, r) # out1"
    using Cons.prems(1) by (auto simp: q r split: prod.splits)
  have now: "t \<le> now" "sorted (now # map request_time reqs)" "TIME_POINT_MIN \<le> now"
    using Cons.prems(4,5) by (auto simp: q)
  have ok: "never_succeeds ip out1" "i = ip \<Longrightarrow> \<not> mr_success r"
    using Cons.prems(6) by (auto simp: never_succeeds_def out)
  have rest: ?case if "tracks gs' now (entry_of ip (ac_tracker s1))" "few_per_minute gs'"
      "gs @ wrong_guesses ip out = gs' @ wrong_guesses ip out1" for gs'
    using Cons.IH [OF out(1) that(1,2) now(3,2) ok(1)] that(3) by (auto simp: q)
  have same: "tracks gs now (entry_of ip (ac_tracker s))" by (rule tracks_later) (use Cons.prems(2) now in auto)
  show ?case
    using r
  proof (cases rule: login_tracker_cases)
    case (locked msg)
    then show ?thesis
      using rest [of gs] same Cons.prems(3) lock_message by (auto simp: out wrong_guesses_Cons login_res_def)
  next
    case wrong
    show ?thesis
    proof (cases "i = ip")
      case True
      have unlocked: "rl_lockoutUntil (entry_of ip (ac_tracker s)) \<le> now"
        using not_locked_from wrong(1) now(3) True by blast
      have "tracks (gs @ [now]) now (entry_of ip (ac_tracker s1))"
        using tracks_failed [OF same _ unlocked] wrong(3) True by simp
      moreover have "few_per_minute (gs @ [now])"
        using few_snoc [OF Cons.prems(3)] tracks_recent [OF same _ unlocked] same by (simp add: tracks_def)
      ultimately show ?thesis using rest [of "gs @ [now]"] True wrong(2) by (simp add: out wrong_guesses_Cons login_res_def)
    qed (use rest [of gs] same Cons.prems(3) wrong in \<open>simp add: out wrong_guesses_Cons entry_failed\<close>)
  next
    case success
    then have "i \<noteq> ip" using ok(2) by blast
    with success show ?thesis
      using rest [of gs] same Cons.prems(3) ok(2) by (auto simp: out wrong_guesses_Cons entry_success)
  next
    case down
    then show ?thesis using rest [of gs] same Cons.prems(3) by (simp add: out wrong_guesses_Cons)
  qed
qed
text \<open>Digests that are the text itself, a counter for random bytes, an engine that never fails: enough
  to run the handlers in the witnesses.\<close>

definition plain_crypto :: crypto where
  "plain_crypto = \<lparr>SHA256 = (\<lambda>txt. map (\<lambda>c. word_of_int (of_char c)) txt),
     PBKDF2_HMAC_SHA256 = (\<lambda>pw salt n. map (\<lambda>c. word_of_int (of_char c)) pw @ salt),
     RAND_bytes = (\<lambda>n g. (replicate n (word_of_nat g), g + 1))\<rparr>"

definition quiet_sql :: sql_env where
  "quiet_sql = \<lparr>se_fault = (\<lambda>q. None), se_now = 0\<rparr>"

definition empty_accounts :: AccountState where
  "empty_accounts = \<lparr>ac_db = Some fresh_database, ac_tracker = [], ac_rand = 0\<rparr>"

definition guess_at :: "int \<Rightarrow> sql_env \<times> int \<times> string \<times> MasterUserLogin" where
  "guess_at t = (quiet_sql, t, ''1.2.3.4'', \<lparr>ml_email = ''a@b.c'', ml_password = ''x''\<rparr>)"

definition guess_run :: "int list \<Rightarrow> (int \<times> string \<times> MasterUserLoginRes) list \<times> AccountState" where
  "guess_run ts = login_run plain_crypto (map guess_at ts) empty_accounts"

lemma guess_run_facts:
  "never_succeeds ''1.2.3.4'' (fst (guess_run [0..11]))"
  "wrong_guesses ''1.2.3.4'' (fst (guess_run [0..11])) = [0..9]"
  "um_find (ac_tracker empty_accounts) ''1.2.3.4'' = None"
  "sorted (TIME_POINT_MIN # map request_time (map guess_at [0..11]))"
  by code_simp+




text \<open>Ten wrong guesses close an address for five minutes: when ten wrong guesses of a run fell within
  61 seconds up to the last one, every login request from that address in the next 300 seconds,
  with the right password too, is refused and changes neither the limiter nor the database.\<close>

theorem ten_guesses_lock:
  assumes "login_run cr reqs s = (out, s')" "um_find (ac_tracker s) ip = None"
    "sorted (TIME_POINT_MIN # map request_time reqs)" "never_succeeds ip out"
    "wrong_guesses ip out = gs @ [b]" "10 \<le> length (recent b (gs @ [b]))" "b \<le> now" "now < b + 300 * 1000000000"
  shows "\<exists>msg. on_user_login cr env now ip p s' = (login_res False msg [] [], s')"
proof -
  have "tracks [] TIME_POINT_MIN (entry_of ip (ac_tracker s))" "few_per_minute []"
    by (simp_all add: tracks_def few_per_minute_def entry_of_def assms(2) ip_rate_limit_def)
  from login_run_tracks [OF assms(1) this order.refl assms(3,4)]
  have "rl_lockoutUntil (entry_of ip (ac_tracker s')) = b + 300000000000"
    using assms(6) by (auto simp: tracks_def assms(5))
  moreover have "TIME_POINT_MIN \<le> b"
    using wrong_guess_times [OF assms(1), of ip] assms(3) by (auto simp: assms(5))
  ultimately have "isLockedOut now ip (ac_tracker s') \<noteq> None"
    using assms(8) unfolding locked_iff by (auto simp: entry_of_def ip_rate_limit_def split: option.splits)
  then show ?thesis by (auto simp: on_user_login_def)
qed

theorem ten_guesses_lock_witness:
  "\<exists>msg. on_user_login plain_crypto quiet_sql 299000000009 ''1.2.3.4'' \<lparr>ml_email = ''a@b.c'', ml_password = ''y''\<rparr>
     (snd (guess_run [0..11])) = (login_res False msg [] [], snd (guess_run [0..11]))"
proof (rule ten_guesses_lock [where reqs = "map guess_at [0..11]" and s = empty_accounts
        and out = "fst (guess_run [0..11])" and gs = "[0..8]" and b = 9])
  show "wrong_guesses ''1.2.3.4'' (fst (guess_run [0..11])) = [0..8] @ [9]" "10 \<le> length (recent 9 ([0..8] @ [9]))"
    unfolding guess_run_facts(2) by code_simp+
qed (use guess_run_facts in \<open>simp_all add: guess_run_def\<close>)

subsection \<open>The tables stay consistent\<close>

definition accounts_wf :: "Database \<Rightarrow> bool" where
  "accounts_wf db \<longleftrightarrow>
     distinct (map ur_id (db_users db)) \<and> (\<forall>i \<in> set (map ur_id (db_users db)). 0 < i \<and> i < db_nextUser db) \<and>
     0 < db_nextUser db \<and> distinct (map ur_username (db_users db)) \<and> distinct (map ur_email (db_users db)) \<and>
     distinct (map sr_id (db_sessions db)) \<and> (\<forall>i \<in> set (map sr_id (db_sessions db)). i < db_nextSession db) \<and>
     set (map sr_user (db_sessions db)) \<subseteq> set (map ur_id (db_users db)) \<and>
     (\<not> db_migrated db \<longrightarrow> distinct (map sr_hash (db_sessions db)) \<and>
        (\<forall>e \<in> set (map ur_email (db_users db)). lower_all e = e))"

definition db_ok :: "AccountState \<Rightarrow> bool" where
  "db_ok s \<longleftrightarrow> pred_option accounts_wf (ac_db s)"

datatype account_op = OpRegister MasterUserRegister | OpLogin int string MasterUserLogin
  | OpToken MasterTokenLogin | OpLogout MasterLogout

fun account_step :: "crypto \<Rightarrow> sql_env \<Rightarrow> account_op \<Rightarrow> AccountState \<Rightarrow> AccountState" where
  "account_step cr env (OpRegister p) s = snd (on_user_register cr env p s)"
| "account_step cr env (OpLogin now ip p) s = snd (on_user_login cr env now ip p s)"
| "account_step cr env (OpToken p) s = snd (on_token_login cr env p s)"
| "account_step cr env (OpLogout p) s = on_user_logout cr env p s"

lemma accounts_wf_fresh: "accounts_wf fresh_database"
  by (simp add: accounts_wf_def fresh_database_def)

lemma distinct_map_filter: "distinct (map f xs) \<Longrightarrow> distinct (map f (filter P xs))"
  by (induction xs) auto

lemma insert_user_wf:
  assumes "accounts_wf db" "lower_all email = email" "insert_user username email password salt db = (rc, db')"
  shows "accounts_wf db'"
  using assms unfolding insert_user_def accounts_wf_def
  by (auto simp: list_ex_iff image_iff split: if_splits; force)

lemma insert_user_Done:
  "insert_user username email password salt db = (SqlDone, db') \<Longrightarrow>
    db_nextUser db \<in> ur_id ` set (db_users db')"
  by (auto simp: insert_user_def split: if_splits)

lemma insert_session_wf:
  "accounts_wf db \<Longrightarrow> i \<in> ur_id ` set (db_users db) \<Longrightarrow> accounts_wf (insert_session i hash now db)"
  unfolding insert_session_def accounts_wf_def by (auto simp: list_ex_iff image_iff; force)

lemma map_if_same: "(\<And>u. g (f u) = g u) \<Longrightarrow> map g (map (\<lambda>u. if P u then f u else u) us) = map g us"
  by (induction us) auto

lemma upgrade_user_wf [inv_intros]: "accounts_wf db \<Longrightarrow> accounts_wf (upgrade_user i password salt db)"
  unfolding accounts_wf_def upgrade_user_def by (simp add: map_if_same del: map_map set_map)

lemma touch_hashes:
  "distinct (map sr_hash rs) \<Longrightarrow> distinct (map sr_id rs) \<Longrightarrow>
    \<forall>r \<in> set rs. sr_hash r = hash \<longrightarrow> sr_id r = i \<Longrightarrow>
    distinct (map sr_hash (map (\<lambda>r. if sr_id r = i then r\<lparr>sr_lastUsed := now, sr_hash := hash\<rparr> else r) rs))"
proof (induction rs)
  case (Cons r rs)
  let ?f = "\<lambda>r. if sr_id r = i then r\<lparr>sr_lastUsed := now, sr_hash := hash\<rparr> else r"
  have IH: "distinct (map sr_hash (map ?f rs))"
    by (rule Cons.IH) (use Cons.prems in simp_all)
  have "sr_hash (?f r) \<noteq> sr_hash (?f r')" if r': "r' \<in> set rs" for r'
  proof -
    have "sr_hash r' \<noteq> sr_hash r" "sr_id r' \<noteq> sr_id r" using Cons.prems r' by (auto simp: image_iff)
    moreover have "sr_hash r = hash \<longrightarrow> sr_id r = i" "sr_hash r' = hash \<longrightarrow> sr_id r' = i"
      using Cons.prems(3) r' by simp_all
    ultimately show ?thesis by (cases "sr_id r = i"; cases "sr_id r' = i") simp_all
  qed
  then have "sr_hash (?f r) \<notin> set (map sr_hash (map ?f rs))" unfolding set_map by blast
  with IH show ?case unfolding list.map distinct.simps by blast
qed simp

lemma touch_session_wf [inv_intros]:
  "accounts_wf db \<Longrightarrow> accounts_wf (touch_session i hash now db)"
  unfolding accounts_wf_def touch_session_def
  by (auto simp: map_if_same touch_hashes list_ex_iff simp del: map_map set_map)

lemma filter_sessions_wf [inv_intros]:
  "accounts_wf db \<Longrightarrow> accounts_wf (db\<lparr>db_sessions := filter P (db_sessions db)\<rparr>)"
  unfolding accounts_wf_def by (auto simp: distinct_map_filter)

lemma create_session_disj:
  "ac_db (snd (CreateSessionForUser cr env i s)) = ac_db s \<or>
   (\<exists>db. ac_db s = Some db \<and> 0 < i \<and> ac_db (snd (CreateSessionForUser cr env i s)) =
      Some (insert_session i (HashSessionToken cr (fst (CreateSessionForUser cr env i s))) (se_now env) db))"
proof (cases "se_fault env InsertSession")
  case None
  then show ?thesis by (auto simp: CreateSessionForUser_def Let_def split_beta split: option.splits)
next
  case (Some fault)
  then show ?thesis
    by (cases fault) (auto simp: CreateSessionForUser_def Let_def split_beta split: option.splits)
qed

lemmas create_session_cases = create_session_disj [THEN disjE, consumes 0, case_names same added]

lemma create_session_ok:
  assumes "db_ok s" "\<And>db. ac_db s = Some db \<Longrightarrow> i \<in> ur_id ` set (db_users db)"
  shows "db_ok (snd (CreateSessionForUser cr env i s))"
  by (cases rule: create_session_cases [of cr env i s]) (use assms in \<open>auto simp: db_ok_def insert_session_wf\<close>)

definition password_ok :: "crypto \<Rightarrow> string \<Rightarrow> UserRow \<Rightarrow> bool" where
  "password_ok cr password u \<longleftrightarrow>
     (if c_str (ur_algo u) = ''pbkdf2'' \<and> c_str (ur_salt u) \<noteq> []
      then HashPasswordPBKDF2 cr password (c_str (ur_salt u)) = c_str (ur_password u)
      else legacy_match cr password (c_str (ur_salt u)) (c_str (ur_password u)))"

lemma check_password_disj:
  "ac_db (snd (check_password cr env password row s)) = ac_db s \<or>
   \<not> (c_str (ur_algo row) = ''pbkdf2'' \<and> c_str (ur_salt row) \<noteq> []) \<and>
   (\<exists>h salt. ac_db (snd (check_password cr env password row s)) = map_option (upgrade_user (ur_id row) h salt) (ac_db s))"
  unfolding check_password_def
  by (cases "c_str (ur_algo row) = ''pbkdf2'' \<and> c_str (ur_salt row) \<noteq> []")
    (auto simp: ColumnText_def Let_def split_beta)

lemmas check_password_cases = check_password_disj [THEN disjE, consumes 0, case_names same upgraded]

lemma check_password_fst: "fst (check_password cr env password row s) = password_ok cr password row"
  by (simp add: check_password_def password_ok_def ColumnText_def Let_def split_beta)

lemma check_password_fail: "\<not> password_ok cr password row \<Longrightarrow> snd (check_password cr env password row s) = s"
  by (auto simp: check_password_def password_ok_def ColumnText_def Let_def split_beta split: if_splits)

lemma upgrade_user_ids [simp]: "ur_id ` set (db_users (upgrade_user i h salt db)) = ur_id ` set (db_users db)"
proof -
  have "set (map ur_id (db_users (upgrade_user i h salt db))) = set (map ur_id (db_users db))"
    unfolding upgrade_user_def by (simp add: map_if_same del: map_map set_map)
  then show ?thesis by simp
qed

lemma select_user_in: "select_user email db = Some u \<Longrightarrow> u \<in> set (db_users db) \<and> lower_all (ur_email u) = email"
  unfolding select_user_def by (auto dest: find_SomeD)

text \<open>What a login does to the tables, on every path.\<close>

lemma login_cases:
  assumes "on_user_login cr env now ip p s = (r, s')"
  obtains (refused) "\<not> mr_success r" "ac_db s' = ac_db s"
  | (accepted) db u s1 where "ac_db s = Some db" "isLockedOut now ip (ac_tracker s) = None"
    "select_user (c_str (lower_all (ml_email p))) db = Some u"
    "password_ok cr (ml_password p) u" "mr_success r" "mr_username r = c_str (ur_username u)"
    "mr_token r = fst (CreateSessionForUser cr env (ur_id u) s1)"
    "ac_db s' = ac_db (snd (CreateSessionForUser cr env (ur_id u) s1))"
    "ac_db s1 = ac_db (snd (check_password cr env (ml_password p) u s))"
  using assms unfolding on_user_login_def fail_login_def Let_def
  by (auto simp: login_res_def split_beta check_password_fst check_password_fail ColumnText_def
      split: option.splits if_splits)

lemma login_ok: "db_ok s \<Longrightarrow> db_ok (snd (on_user_login cr env now ip p s))"
proof -
  assume ok: "db_ok s"
  obtain r s' where l: "on_user_login cr env now ip p s = (r, s')" by fastforce
  show ?thesis
    using l
  proof (cases rule: login_cases)
    case refused
    then show ?thesis using ok l by (simp add: db_ok_def)
  next
    case (accepted db u s1)
    have u: "ur_id u \<in> ur_id ` set (db_users db)" using select_user_in accepted(3) by blast
    have "db_ok s1 \<and> (\<forall>db1. ac_db s1 = Some db1 \<longrightarrow> ur_id u \<in> ur_id ` set (db_users db1))"
      by (cases rule: check_password_cases [of cr env "ml_password p" u s])
        (use accepted(1,9) u ok in \<open>auto simp: db_ok_def upgrade_user_wf\<close>)
    then have "db_ok (snd (CreateSessionForUser cr env (ur_id u) s1))" by (simp add: create_session_ok)
    then show ?thesis using l accepted(8) by (simp add: db_ok_def)
  qed
qed

lemma register_cases:
  assumes "on_user_register cr env p s = (r, s')"
  obtains (refused) "\<not> mf_success r" "ac_db s' = ac_db s"
  | (accepted) db db' salt s1 where "ac_db s = Some db" "IsValidUsername (me_username p)"
    "IsValidEmail (lower_all (me_email p))" "me_password p \<noteq> []"
    "salt = to_hex (fst (RAND_bytes cr 16 (ac_rand s)))"
    "insert_user (me_username p) (c_str (lower_all (me_email p))) (HashPasswordPBKDF2 cr (me_password p) salt) salt db
       = (SqlDone, db')"
    "s1 = s\<lparr>ac_rand := snd (RAND_bytes cr 16 (ac_rand s)), ac_db := Some db'\<rparr>" "mf_success r" "ac_db s' = ac_db (snd (CreateSessionForUser cr env (db_nextUser db) s1))"
  using assms unfolding on_user_register_def Let_def random_salt
  by (auto simp: register_res_def split_beta c_str_username insert_user_def
      split: option.splits if_splits)

lemma register_ok: "db_ok s \<Longrightarrow> db_ok (snd (on_user_register cr env p s))"
proof -
  assume ok: "db_ok s"
  obtain r s' where l: "on_user_register cr env p s = (r, s')" by fastforce
  show ?thesis
    using l
  proof (cases rule: register_cases)
    case refused
    then show ?thesis using ok l by (simp add: db_ok_def)
  next
    case (accepted db db' salt s1)
    have "accounts_wf db'"
      by (rule insert_user_wf [OF _ _ accepted(6)]) (use ok accepted(1) in \<open>auto simp: db_ok_def lower_c_str\<close>)
    then have "db_ok (snd (CreateSessionForUser cr env (db_nextUser db) s1))"
      using insert_user_Done [OF accepted(6)] accepted(7) by (intro create_session_ok) (auto simp: db_ok_def)
    then show ?thesis using l accepted(9) by (simp add: db_ok_def)
  qed
qed

lemma prune_cases:
  "PruneExpiredSessions env dbo = dbo \<or> (\<exists>db P. dbo = Some db \<and>
     PruneExpiredSessions env dbo = Some (db\<lparr>db_sessions := filter P (db_sessions db)\<rparr>))"
  by (auto simp: PruneExpiredSessions_def split: option.splits)

lemma prune_ok: "pred_option accounts_wf dbo \<Longrightarrow> pred_option accounts_wf (PruneExpiredSessions env dbo)"
  using prune_cases [of env dbo] by (auto simp: filter_sessions_wf)

text \<open>A login by token leaves the users alone; so does a logout.\<close>

lemma token_login_cases:
  "ac_db (snd (on_token_login cr env p s)) = ac_db s \<or>
   ac_db (snd (on_token_login cr env p s)) = PruneExpiredSessions env (ac_db s) \<or>
   (\<exists>db i. PruneExpiredSessions env (ac_db s) = Some db \<and> db_migrated db \<and>
      ac_db (snd (on_token_login cr env p s)) =
        Some (touch_session i (HashSessionToken cr (mt_token p)) (se_now env) db))"
  unfolding on_token_login_def token_prepares_def Let_def by (auto split: option.splits)

lemma token_login_ok: "db_ok s \<Longrightarrow> db_ok (snd (on_token_login cr env p s))"
  using token_login_cases [of cr env p s] prune_ok [of "ac_db s" env]
  by (auto simp: db_ok_def touch_session_wf)

lemma logout_ok: "db_ok s \<Longrightarrow> db_ok (on_user_logout cr env p s)"
  by (auto simp: on_user_logout_def db_ok_def delete_session_def filter_sessions_wf split: option.splits)

lemma account_step_ok: "db_ok s \<Longrightarrow> db_ok (account_step cr env op s)"
  by (cases op) (simp_all add: login_ok register_ok token_login_ok logout_ok)

text \<open>An account whose digest is current stays as it is.\<close>

definition has_account :: "UserRow \<Rightarrow> AccountState \<Rightarrow> bool" where
  "has_account u s \<longleftrightarrow> (\<exists>db. ac_db s = Some db \<and> u \<in> set (db_users db) \<and> \<not> db_migrated db)"

lemma insert_session_users [simp]:
  "db_users (insert_session i h now db) = db_users db" "db_migrated (insert_session i h now db) = db_migrated db"
  by (simp_all add: insert_session_def)

lemma has_account_session: "has_account u s \<Longrightarrow> has_account u (snd (CreateSessionForUser cr env i s))"
  by (cases rule: create_session_cases [of cr env i s]) (auto simp: has_account_def)

lemma has_account_register: "has_account u s \<Longrightarrow> has_account u (snd (on_user_register cr env p s))"
proof -
  assume u: "has_account u s"
  obtain r s' where l: "on_user_register cr env p s = (r, s')" by fastforce
  show ?thesis
    using l
  proof (cases rule: register_cases)
    case (accepted db db' salt s1)
    have "has_account u s1" using accepted(1,6,7) u by (auto simp: has_account_def insert_user_def split: if_splits)
    from has_account_session [OF this] show ?thesis using accepted(9) l by (simp add: has_account_def)
  qed (use l u in \<open>simp add: has_account_def\<close>)
qed

lemma has_account_login:
  assumes "db_ok s" "has_account u s" "c_str (ur_algo u) = ''pbkdf2''" "c_str (ur_salt u) \<noteq> []"
  shows "has_account u (snd (on_user_login cr env now ip p s))"
proof -
  obtain r s' where l: "on_user_login cr env now ip p s = (r, s')" by fastforce
  show ?thesis
    using l
  proof (cases rule: login_cases)
    case (accepted db v s1)
    have v: "v \<in> set (db_users db)" "u \<in> set (db_users db)" "accounts_wf db"
      using select_user_in [OF accepted(3)] assms(1,2) accepted(1) by (auto simp: has_account_def db_ok_def)
    have "has_account u (snd (check_password cr env (ml_password p) v s))"
    proof (cases rule: check_password_cases [of cr env "ml_password p" v s])
      case upgraded
      then have "v \<noteq> u" using assms(3,4) by blast
      then have "ur_id v \<noteq> ur_id u" using v by (auto simp: accounts_wf_def distinct_map inj_on_def)
      with upgraded assms(2) accepted(1) show ?thesis by (force simp: has_account_def upgrade_user_def)
    qed (use assms(2) in \<open>simp add: has_account_def\<close>)
    then have "has_account u s1" using accepted(9) by (simp add: has_account_def)
    from has_account_session [OF this] show ?thesis using accepted(8) l by (simp add: has_account_def)
  qed (use l assms(2) in \<open>simp add: has_account_def\<close>)
qed

lemma has_account_step:
  assumes "db_ok s" "has_account u s" "c_str (ur_algo u) = ''pbkdf2''" "c_str (ur_salt u) \<noteq> []"
  shows "has_account u (account_step cr env op s)"
proof (cases op)
  case (OpToken p)
  have "has_account u (s\<lparr>ac_db := PruneExpiredSessions env (ac_db s)\<rparr>)"
    using assms(2) prune_cases [of env "ac_db s"] by (auto simp: has_account_def)
  then show ?thesis
    using token_login_cases [of cr env p s] assms(2) OpToken by (auto simp: has_account_def)
next
  case (OpLogout p)
  then show ?thesis
    using assms(2) by (auto simp: has_account_def on_user_logout_def delete_session_def split: option.splits)
qed (use assms has_account_register has_account_login in simp_all)

definition account_run :: "crypto \<Rightarrow> (sql_env \<times> account_op) list \<Rightarrow> AccountState \<Rightarrow> AccountState" where
  "account_run cr ops s = fold (\<lambda>(env, op). account_step cr env op) ops s"

lemma account_run_keeps:
  "db_ok s \<Longrightarrow> has_account u s \<Longrightarrow> c_str (ur_algo u) = ''pbkdf2'' \<Longrightarrow> c_str (ur_salt u) \<noteq> [] \<Longrightarrow>
    db_ok (account_run cr ops s) \<and> has_account u (account_run cr ops s)"
  unfolding account_run_def
  by (induction ops arbitrary: s) (auto simp: account_step_ok has_account_step)

lemma index_of_Some: "index_of c txt = Some n \<Longrightarrow> n < length txt \<and> txt ! n = c"
  by (auto simp: index_of_def Let_def split: if_splits dest: nth_length_takeWhile)

lemma email_not_empty: "IsValidEmail e \<Longrightarrow> e \<noteq> []"
  by (auto simp: IsValidEmail_def)

text \<open>The row found for an address is the one that has it.\<close>

lemma select_user_unique:
  assumes "accounts_wf db" "\<not> db_migrated db" "u \<in> set (db_users db)"
  shows "select_user (ur_email u) db = Some u"
proof -
  have "lower_all (ur_email v) = ur_email v" if "v \<in> set (db_users db)" for v
    using assms(1,2) that by (auto simp: accounts_wf_def)
  then have "List.find (\<lambda>v. lower_all (ur_email v) = ur_email u) (db_users db) =
      List.find (\<lambda>v. ur_email v = ur_email u) (db_users db)" by (intro find_cong) auto
  moreover have "distinct (map ur_email (db_users db))" using assms(1) by (simp add: accounts_wf_def)
  ultimately show ?thesis using find_distinct_key [OF _ assms(3)] by (simp add: select_user_def)
qed


definition alice :: MasterUserRegister where
  "alice = \<lparr>me_username = ''alice'', me_email = ''Al@x.org'', me_password = ''pw''\<rparr>"

definition bob :: MasterUserRegister where
  "bob = \<lparr>me_username = ''bob'', me_email = ''al@x.org'', me_password = ''other''\<rparr>"

lemma empty_accounts_ok:
  "db_ok empty_accounts" "\<forall>db. ac_db empty_accounts = Some db \<longrightarrow> \<not> db_migrated db"
  using accounts_wf_fresh by (simp_all add: db_ok_def empty_accounts_def, simp add: fresh_database_def)

lemma register_tracker [simp]: "ac_tracker (snd (on_user_register cr env p s)) = ac_tracker s"
  by (simp add: on_user_register_def Let_def split_beta split: option.split sql_rc.split)

lemma alice_valid: "IsValidUsername (me_username alice)" "IsValidEmail (lower_all (me_email alice))"
  "me_password alice \<noteq> []"
  by code_simp+

lemma alice_registers:
  "mf_success (fst (on_user_register plain_crypto quiet_sql alice empty_accounts))"
  using alice_valid
  by (simp add: on_user_register_def empty_accounts_def quiet_sql_def insert_user_def fresh_database_def
      register_res_def split_beta Let_def)

lemma alice_facts:
  "length (fst (RAND_bytes plain_crypto 16 (ac_rand empty_accounts))) = 16" "se_fault quiet_sql SelectUser = None"
  "lower_all ''AL@x.org'' = lower_all (me_email alice)" "''pw'' = me_password alice" "me_username alice = ''alice''"
  by code_simp+

lemma alice_unlocked: "isLockedOut 5 ''1.2.3.4'' (ac_tracker (account_run plain_crypto [(quiet_sql, OpRegister bob)]
    (snd (on_user_register plain_crypto quiet_sql alice empty_accounts)))) = None"
  by (simp add: account_run_def empty_accounts_def isLockedOut_def)


text \<open>C26. A login opens a session for nobody but the owner of the account: when it succeeds, the client
  is not locked out, the account is the one found under the address, the password matches its stored
  digest, and the only sessions added are that account's and hold the digest of the token that is
  answered; when it fails, the tables are untouched. Nobody else's password, name or address changes
  either way.\<close>

theorem login_sound:
  assumes "on_user_login cr env now ip p s = (r, s')" "ac_db s = Some db"
  shows "(mr_success r \<longrightarrow> isLockedOut now ip (ac_tracker s) = None \<and>
      (\<exists>u db'. select_user (c_str (lower_all (ml_email p))) db = Some u \<and> password_ok cr (ml_password p) u \<and>
        mr_username r = c_str (ur_username u) \<and> ac_db s' = Some db' \<and>
        (\<forall>x \<in> set (db_sessions db') - set (db_sessions db).
           sr_user x = ur_id u \<and> sr_hash x = HashSessionToken cr (mr_token r) \<and> sr_token x = None) \<and>
        {v \<in> set (db_users db'). ur_id v \<noteq> ur_id u} = {v \<in> set (db_users db). ur_id v \<noteq> ur_id u})) \<and>
    (\<not> mr_success r \<longrightarrow> ac_db s' = Some db)"
  using assms(1)
proof (cases rule: login_cases)
  case refused
  then show ?thesis using assms(2) by simp
next
  case (accepted db0 u s1)
  have db0: "db0 = db" using accepted(1) assms(2) by simp
  obtain db1 where db1: "ac_db s1 = Some db1" "db_sessions db1 = db_sessions db"
      "{v \<in> set (db_users db1). ur_id v \<noteq> ur_id u} = {v \<in> set (db_users db). ur_id v \<noteq> ur_id u}"
    by (cases rule: check_password_cases [of cr env "ml_password p" u s])
      (use accepted(1,9) db0 in \<open>force simp: upgrade_user_def\<close>)+
  show ?thesis
  proof (cases rule: create_session_cases [of cr env "ur_id u" s1])
    case same
    then have "ac_db s' = Some db1" using accepted(8) db1(1) by simp
    then show ?thesis using accepted db1(2,3) db0 by auto
  next
    case added
    then show ?thesis
      using accepted db1 db0 by (auto simp: insert_session_def)
  qed
qed

definition alice_row :: UserRow where
  "alice_row = \<lparr>ur_id = 1, ur_username = ''alice'', ur_email = ''al@x.org'', ur_password = ''pw'', ur_salt = [], ur_algo = []\<rparr>"

definition one_user :: Database where
  "one_user = fresh_database\<lparr>db_users := [alice_row], db_nextUser := 2\<rparr>"

definition alice_login :: MasterUserLogin where
  "alice_login = \<lparr>ml_email = ''AL@x.org'', ml_password = ''pw''\<rparr>"

lemma alice_row_found:
  "select_user (c_str (lower_all (ml_email alice_login))) one_user = Some alice_row"
  "password_ok plain_crypto (ml_password alice_login) alice_row" "lower_all (ml_email alice_login) \<noteq> []"
  "ml_password alice_login \<noteq> []"
  by code_simp+

lemma alice_logs_in: "mr_success (fst (on_user_login plain_crypto quiet_sql 0 ''1.2.3.4'' alice_login
    (empty_accounts\<lparr>ac_db := Some one_user\<rparr>)))"
  using alice_row_found
  by (simp add: on_user_login_def empty_accounts_def quiet_sql_def isLockedOut_def login_res_def
      check_password_fst split_beta Let_def)

theorem login_sound_witness:
  "\<exists>r s' u db'. on_user_login plain_crypto quiet_sql 0 ''1.2.3.4'' alice_login (empty_accounts\<lparr>ac_db := Some one_user\<rparr>) = (r, s') \<and>
     mr_success r \<and> password_ok plain_crypto (ml_password alice_login) u \<and> ac_db s' = Some db' \<and>
     sr_user ` (set (db_sessions db') - set (db_sessions one_user)) \<subseteq> {ur_id u}"
  using login_sound [OF prod.collapse [symmetric], of "empty_accounts\<lparr>ac_db := Some one_user\<rparr>" one_user
      plain_crypto quiet_sql 0 "''1.2.3.4''" alice_login] alice_logs_in
  by (auto simp: prod_eq_iff)



end
