(* ===== verification/MasterRegistry.thy ===== *)
theory MasterRegistry
  imports MasterAccounts
begin

section \<open>The server list of the master server\<close>

text \<open>
  The broker half of \<open>master/MasterMain.cpp\<close>: room codes, the list of registered servers with the
  handlers that read and write it, the candidates the two sides of a punch are offered, and the
  sweep that drops hosts that went away.

  Candidates and addresses are znet's: a record of operations reads a candidate's type and address
  (a null address is \<open>None\<close>) and makes the ones the master adds. What znet answers about a session,
  whether it is alive and where it comes from, is in the environment, as are the random generator
  and the relay. The generator's states are numbered.
\<close>

subsection \<open>Room codes\<close>

definition room_charset :: string where
  "room_charset = ''ABCDEFGHIJKLMNOPQRSTUVWXYZ0123456789''"

text \<open>One draw of the distribution gives an index and the next state of the generator.\<close>

fun draw_chars :: "(nat \<Rightarrow> nat \<times> nat) \<Rightarrow> nat \<Rightarrow> string \<Rightarrow> nat \<Rightarrow> string \<times> nat" where
  "draw_chars roll 0 code g = (code, g)"
| "draw_chars roll (Suc n) code g =
     (let (i, g) = roll g in draw_chars roll n (code @ [room_charset ! i]) g)"

definition GenerateRoomCode :: "(nat \<Rightarrow> nat \<times> nat) \<Rightarrow> nat \<Rightarrow> string \<times> nat" where
  "GenerateRoomCode roll g = draw_chars roll 6 [] g"

fun try_codes :: "(nat \<Rightarrow> nat \<times> nat) \<Rightarrow> nat \<Rightarrow> string list \<Rightarrow> nat \<Rightarrow> string \<times> nat" where
  "try_codes roll 0 taken g = GenerateRoomCode roll g"
| "try_codes roll (Suc n) taken g =
     (let (code, g) = GenerateRoomCode roll g
      in if code \<in> set taken then try_codes roll n taken g else (code, g))"

definition GenerateUniqueRoomCode ::
  "(nat \<Rightarrow> nat \<times> nat) \<Rightarrow> ('f, 'c, 's) gServerInfo list \<Rightarrow> nat \<Rightarrow> string \<times> nat" where
  "GenerateUniqueRoomCode roll serverList g = try_codes roll 32 (map si_roomCode serverList) g"

subsection \<open>Addresses\<close>

text \<open>\<open>std::stoi\<close>: \<open>None\<close> is either of its exceptions.\<close>

definition decimal :: "string \<Rightarrow> int" where
  "decimal digits = foldl (\<lambda>v c. v * 10 + (int (of_char c) - 48)) 0 digits"

definition stoi :: "string \<Rightarrow> int option" where
  "stoi txt =
     (let (neg, txt) = sign_of (dropWhile isspace txt);
          digits = takeWhile isdigit txt;
          v = (if neg then - decimal digits else decimal digits)
      in if digits = [] then None else if v < - (2 ^ 31) \<or> v \<ge> 2 ^ 31 then None else Some v)"

text \<open>The two outputs keep what the caller put in them when there is no port.\<close>

definition SplitHostPort :: "string \<Rightarrow> string \<times> u16 \<Rightarrow> bool \<times> string \<times> u16" where
  "SplitHostPort txt outputs =
     (case rfind CHR '':'' txt of None \<Rightarrow> (False, outputs)
      | Some colon \<Rightarrow>
          (case stoi (drop (colon + 1) txt) of None \<Rightarrow> (False, outputs)
           | Some parsed \<Rightarrow> if parsed < 0 \<or> parsed > 65535 then (False, outputs)
               else (True, take colon txt, word_of_int parsed)))"

definition before_colon :: "string \<Rightarrow> string" where
  "before_colon txt = (case find_from CHR '':'' txt 0 of None \<Rightarrow> txt | Some i \<Rightarrow> take i txt)"

datatype cand_type = HostCandidate | ReflexiveCandidate | RelayedCandidate

record 'c cand_ops =
  cn_type :: "'c \<Rightarrow> cand_type"
  cn_address :: "'c \<Rightarrow> string option"
  cn_reflexive :: "string \<Rightarrow> u16 \<Rightarrow> 'c option"
  cn_relayed :: "string \<Rightarrow> u16 \<Rightarrow> u64 \<Rightarrow> 'c"
  cn_max :: nat

text \<open>The loop of \<open>known\<close> stops at the first equal address; \<open>None\<close> is a null address dereferenced.\<close>

fun known_address :: "'c cand_ops \<Rightarrow> 'c list \<Rightarrow> string \<Rightarrow> bool option" where
  "known_address co [] a = Some False"
| "known_address co (offered # out) a =
     (case cn_address co offered of None \<Rightarrow> None
      | Some b \<Rightarrow> if b = a then Some True else known_address co out a)"

fun offer_hosts :: "'c cand_ops \<Rightarrow> 'c list \<Rightarrow> 'c list \<Rightarrow> 'c list option" where
  "offer_hosts co [] out = Some out"
| "offer_hosts co (c # gathered) out =
     (if cn_type co c = HostCandidate
      then (case cn_address co c of None \<Rightarrow> None
        | Some a \<Rightarrow> (case known_address co out a of None \<Rightarrow> None
            | Some present \<Rightarrow> offer_hosts co gathered (if present then out else out @ [c])))
      else offer_hosts co gathered out)"

definition offer_reflexive :: "'c cand_ops \<Rightarrow> string \<Rightarrow> u16 \<Rightarrow> 'c list \<Rightarrow> 'c list" where
  "offer_reflexive co observedIp punchPort gathered =
     (let out = filter (\<lambda>c. cn_type co c = ReflexiveCandidate) gathered
      in if out = [] then (case cn_reflexive co observedIp punchPort of None \<Rightarrow> [] | Some c \<Rightarrow> [c]) else out)"

definition BuildOffer :: "'c cand_ops \<Rightarrow> string \<Rightarrow> u16 \<Rightarrow> 'c list \<Rightarrow> 'c option \<Rightarrow> 'c list option" where
  "BuildOffer co observedIp punchPort gathered relayed =
     (case offer_hosts co gathered (offer_reflexive co observedIp punchPort gathered) of None \<Rightarrow> None
      | Some out \<Rightarrow>
          (let out = (if length out > cn_max co - 1 then take (cn_max co - 1) out else out)
           in Some (case relayed of None \<Rightarrow> out | Some r \<Rightarrow> out @ [r])))"

definition PeerAddresses :: "'c cand_ops \<Rightarrow> string \<Rightarrow> 'c list \<Rightarrow> string list" where
  "PeerAddresses co observed candidates =
     fold (\<lambda>c out. case cn_address co c of None \<Rightarrow> out
         | Some readable \<Rightarrow> if cn_type co c \<noteq> HostCandidate then out
             else if readable \<noteq> observed then out @ [readable] else out)
       candidates [observed]"

subsection \<open>The handlers\<close>

record 'c broker_env =
  bw_cand :: "'c cand_ops"
  bw_remote :: "nat \<Rightarrow> string"
  bw_withPort :: "nat \<Rightarrow> u16 \<Rightarrow> string"
  bw_alive :: "nat \<Rightarrow> bool"
  bw_roll :: "nat \<Rightarrow> nat \<times> nat"
  bw_relay :: "(u16 \<times> u64 option) option"
  bw_relayHost :: string

type_synonym ('f, 'c) server_entry = "('f, 'c, nat) gServerInfo"
type_synonym ('f, 'c) broker_sends = "(nat \<times> ('f, 'c, nat) master_packet) list"

record ('f, 'c) BrokerState =
  br_serverList :: "('f, 'c) server_entry list"
  br_gen :: nat

definition advertised_ip :: "'c broker_env \<Rightarrow> nat \<Rightarrow> string \<Rightarrow> string" where
  "advertised_ip w session ip =
     (let (_, _, advertisedPort) = SplitHostPort ip ([], 25000) in bw_withPort w session advertisedPort)"

definition refresh_entry ::
  "'f fops \<Rightarrow> 'c MasterRegister \<Rightarrow> string list \<Rightarrow> nat \<Rightarrow> ('f, 'c) server_entry \<Rightarrow> ('f, 'c) server_entry" where
  "refresh_entry fl p candidates session s =
     s\<lparr>si_name := mi_name p, si_currentPlayers := mi_currentPlayers p, si_maxPlayers := mi_maxPlayers p,
       si_matchState := mi_matchState p, si_isPrivate := mi_isPrivate p, si_hasPassword := mi_hasPassword p,
       si_isDedicated := mi_isDedicated p, si_useP2P := mi_useP2P p, si_hostSession := Some session,
       si_lastHeartbeat := flit fl 0, si_peerCandidates := candidates, si_candidates := mi_candidates p\<rparr>"

definition new_entry ::
  "'f fops \<Rightarrow> 'c MasterRegister \<Rightarrow> string list \<Rightarrow> nat \<Rightarrow> string \<Rightarrow> string \<Rightarrow> ('f, 'c) server_entry" where
  "new_entry fl p candidates session ip code =
     \<lparr>si_ip = ip, si_peerCandidates = candidates, si_candidates = mi_candidates p, si_name = mi_name p,
      si_currentPlayers = mi_currentPlayers p, si_maxPlayers = mi_maxPlayers p, si_matchState = mi_matchState p,
      si_lastHeartbeat = flit fl 0, si_isPrivate = mi_isPrivate p, si_hasPassword = mi_hasPassword p,
      si_isDedicated = mi_isDedicated p, si_useP2P = mi_useP2P p, si_roomCode = code,
      si_hostSession = Some session\<rparr>"
definition on_register ::
  "'f fops \<Rightarrow> 'c broker_env \<Rightarrow> nat \<Rightarrow> 'c MasterRegister \<Rightarrow> ('f, 'c) BrokerState
     \<Rightarrow> ('f, 'c) broker_sends \<times> ('f, 'c) BrokerState" where
  "on_register fl w session p s =
     (let actualIp = advertised_ip w session (mi_ip p);
          candidates = PeerAddresses (bw_cand w) actualIp (mi_candidates p);
          serverList = br_serverList s;
          (assignedRoomCode, s) =
            (case List.find (\<lambda>x. si_ip x = actualIp) serverList of
               Some x \<Rightarrow> (si_roomCode x,
                 s\<lparr>br_serverList := update_first (\<lambda>x. si_ip x = actualIp) (refresh_entry fl p candidates session) serverList\<rparr>)
             | None \<Rightarrow> (let (code, g) = GenerateUniqueRoomCode (bw_roll w) serverList (br_gen s)
                 in (code, s\<lparr>br_serverList := serverList @ [new_entry fl p candidates session actualIp code], br_gen := g\<rparr>)))
      in ([(session, MRegisterRes \<lparr>ms_roomCode = assignedRoomCode\<rparr>)], s))"

definition on_heartbeat ::
  "'f fops \<Rightarrow> 'c broker_env \<Rightarrow> nat \<Rightarrow> MasterHeartbeat \<Rightarrow> ('f, 'c) BrokerState \<Rightarrow> ('f, 'c) BrokerState" where
  "on_heartbeat fl w session p s =
     s\<lparr>br_serverList := update_first (\<lambda>x. si_ip x = advertised_ip w session (mh_ip p))
         (\<lambda>x. x\<lparr>si_lastHeartbeat := flit fl 0\<rparr>) (br_serverList s)\<rparr>"

text \<open>The address a listed server is shown with: its private one to a client behind the same NAT.\<close>

definition shown_entry :: "string \<Rightarrow> ('f, 'c) server_entry \<Rightarrow> ('f, 'c) server_entry" where
  "shown_entry clientPublicIp x =
     (if si_isDedicated x \<and> before_colon (si_ip x) = clientPublicIp \<and> length (si_peerCandidates x) > 1
      then x\<lparr>si_ip := si_peerCandidates x ! 1\<rparr> else x)"

definition on_get_list ::
  "'c broker_env \<Rightarrow> nat \<Rightarrow> MasterGetList \<Rightarrow> ('f, 'c) BrokerState \<Rightarrow> ('f, 'c) broker_sends" where
  "on_get_list w session p s =
     (let clientPublicIp = before_colon (bw_remote w session) in
      [(session, MSendList (map (shown_entry clientPublicIp)
         (filter (\<lambda>x. \<not> si_isPrivate x \<and> (mg_matchStateFilter p = -1 \<or> si_matchState x = mg_matchStateFilter p))
           (br_serverList s))))])"

definition punch_target :: "string \<Rightarrow> ('f, 'c) server_entry list \<Rightarrow> ('f, 'c) server_entry option" where
  "punch_target identifier serverList =
     List.find (\<lambda>x. si_roomCode x = identifier \<or> si_ip x = identifier \<or> identifier \<in> set (si_peerCandidates x))
       serverList"

definition live_host :: "'c broker_env \<Rightarrow> ('f, 'c) server_entry \<Rightarrow> nat option" where
  "live_host w x = (case si_hostSession x of None \<Rightarrow> None | Some h \<Rightarrow> if bw_alive w h then Some h else None)"

definition relay_offer :: "'c broker_env \<Rightarrow> 'c option" where
  "relay_offer w =
     (case bw_relay w of Some (port, Some token) \<Rightarrow>
        Some (cn_relayed (bw_cand w) (if bw_relayHost w = [] then ''0.0.0.0'' else bw_relayHost w) port token)
      | _ \<Rightarrow> None)"

text \<open>The log line of an offer reads the address of each candidate in it.\<close>

definition logged :: "'c cand_ops \<Rightarrow> 'c list option \<Rightarrow> 'c list option" where
  "logged co offer = (case offer of None \<Rightarrow> None
     | Some cs \<Rightarrow> if list_all (\<lambda>c. cn_address co c \<noteq> None) cs then Some cs else None)"

text \<open>\<open>None\<close> is a null address dereferenced on the way.\<close>

definition on_punch_request ::
  "'c broker_env \<Rightarrow> nat \<Rightarrow> 'c MasterPunchReq \<Rightarrow> ('f, 'c) BrokerState \<Rightarrow> ('f, 'c) broker_sends option" where
  "on_punch_request w session p s =
     (case punch_target (mp_targetIdentifier p) (br_serverList s) of None \<Rightarrow> Some []
      | Some x \<Rightarrow> (case live_host w x of None \<Rightarrow> Some []
          | Some h \<Rightarrow>
              (let co = bw_cand w;
                   clientPublicIp = before_colon (bw_remote w session);
                   (_, hostPublicIp, hostPunchPort) = SplitHostPort (si_ip x) ([], 0);
                   relayed = relay_offer w
               in (case logged co (BuildOffer co clientPublicIp (mp_clientGamePort p) (mp_candidates p) relayed) of
                     None \<Rightarrow> None
                   | Some forHost \<Rightarrow>
                      (case logged co (BuildOffer co hostPublicIp hostPunchPort (si_candidates x) relayed) of
                         None \<Rightarrow> None
                       | Some forClient \<Rightarrow>
                           Some [(h, MPunchExec \<lparr>mx_candidates = forHost, mx_isHost = True\<rparr>),
                                 (session, MPunchExec \<lparr>mx_candidates = forClient, mx_isHost = False\<rparr>)])))))"

definition on_query_room :: "nat \<Rightarrow> MasterQueryRoom \<Rightarrow> ('f, 'c) BrokerState \<Rightarrow> ('f, 'c) broker_sends" where
  "on_query_room session p s =
     [(session, MQueryRoomRes
        (case List.find (\<lambda>x. si_roomCode x = mq_roomCode p) (br_serverList s) of
           None \<Rightarrow> query_room_res (mq_roomCode p) False
         | Some x \<Rightarrow> (query_room_res (mq_roomCode p) True)\<lparr>mv_name := si_name x,
             mv_currentPlayers := si_currentPlayers x, mv_maxPlayers := si_maxPlayers x,
             mv_hasPassword := si_hasPassword x, mv_isDedicated := si_isDedicated x,
             mv_useP2P := si_useP2P x, mv_ip := si_ip x\<rparr>))]"

text \<open>One frame of the server: every entry ages, a host whose session is gone or that was silent for
  more than thirty seconds is erased.\<close>

fun age_servers ::
  "'f fops \<Rightarrow> 'c broker_env \<Rightarrow> 'f \<Rightarrow> ('f, 'c) server_entry list \<Rightarrow> ('f, 'c) server_entry list" where
  "age_servers fl w deltaTime [] = []"
| "age_servers fl w deltaTime (x # xs) =
     (let x = x\<lparr>si_lastHeartbeat := fadd fl (si_lastHeartbeat x) deltaTime\<rparr> in
      if live_host w x = None then age_servers fl w deltaTime xs
      else if flt fl (flit fl 30) (si_lastHeartbeat x) then age_servers fl w deltaTime xs
      else x # age_servers fl w deltaTime xs)"

definition broker_update ::
  "'f fops \<Rightarrow> 'c broker_env \<Rightarrow> 'f \<Rightarrow> ('f, 'c) BrokerState \<Rightarrow> ('f, 'c) BrokerState" where
  "broker_update fl w deltaTime s = s\<lparr>br_serverList := age_servers fl w deltaTime (br_serverList s)\<rparr>"

subsection \<open>Room codes are fresh\<close>

definition next_gen :: "(nat \<Rightarrow> nat \<times> nat) \<Rightarrow> nat \<Rightarrow> nat" where
  "next_gen roll g = snd (GenerateRoomCode roll g)"

definition code_at :: "(nat \<Rightarrow> nat \<times> nat) \<Rightarrow> nat \<Rightarrow> nat \<Rightarrow> string" where
  "code_at roll g k = fst (GenerateRoomCode roll ((next_gen roll ^^ k) g))"

lemma code_at_Suc: "code_at roll g (Suc k) = code_at roll (next_gen roll g) k"
  unfolding code_at_def funpow_swap1 [symmetric] by (simp add: funpow_swap1)

lemma draw_chars_set:
  "(\<And>g. fst (roll g) < 36) \<Longrightarrow> set code \<subseteq> set room_charset \<Longrightarrow>
    length (fst (draw_chars roll n code g)) = length code + n \<and> set (fst (draw_chars roll n code g)) \<subseteq> set room_charset"
proof (induction n arbitrary: code g)
  case (Suc n)
  have "length room_charset = 36" by (simp add: room_charset_def)
  then have "room_charset ! fst (roll g) \<in> set room_charset" using Suc.prems(1) by simp
  then have "set (code @ [room_charset ! fst (roll g)]) \<subseteq> set room_charset" using Suc.prems(2) by simp
  from Suc.IH [OF Suc.prems(1) this] show ?case by (simp add: split_beta Let_def)
qed simp

lemma try_codes_spec:
  "\<exists>k \<le> n. try_codes roll n taken g = (code_at roll g k, (next_gen roll ^^ Suc k) g) \<and>
     (\<forall>j < k. code_at roll g j \<in> set taken) \<and> (k < n \<longrightarrow> code_at roll g k \<notin> set taken)"
proof (induction n arbitrary: g)
  case 0
  show ?case by (simp add: code_at_def next_gen_def)
next
  case (Suc n)
  show ?case
  proof (cases "code_at roll g 0 \<in> set taken")
    case True
    obtain k where k: "k \<le> n" "try_codes roll n taken (next_gen roll g) =
          (code_at roll (next_gen roll g) k, (next_gen roll ^^ Suc k) (next_gen roll g))"
        "\<forall>j < k. code_at roll (next_gen roll g) j \<in> set taken"
        "k < n \<longrightarrow> code_at roll (next_gen roll g) k \<notin> set taken"
      using Suc by blast
    have "\<forall>j < Suc k. code_at roll g j \<in> set taken"
      using True k(3) by (auto simp: less_Suc_eq_0_disj code_at_Suc)
    moreover have "try_codes roll (Suc n) taken g = try_codes roll n taken (next_gen roll g)"
      using True by (simp add: code_at_def next_gen_def split_beta Let_def)
    ultimately show ?thesis
      using k by (intro exI [of _ "Suc k"]) (auto simp: code_at_Suc funpow_swap1)
  next
    case False
    then show ?thesis
      by (intro exI [of _ 0]) (simp add: code_at_def next_gen_def split_beta Let_def)
  qed
qed

text \<open>C30. The search for a room code ends, and with a good code: it draws at most 33 codes and returns the
  last one drawn, all the codes drawn before it belonged to listed rooms, and the returned one
  belongs to none unless all of the first 32 did. As long as the generator stays within its 36
  indices, a room code is six capital letters and digits.\<close>

theorem room_code_search:
  "\<exists>k \<le> 32. GenerateUniqueRoomCode roll serverList g = (code_at roll g k, (next_gen roll ^^ Suc k) g) \<and>
     (\<forall>j < k. code_at roll g j \<in> si_roomCode ` set serverList) \<and>
     (k < 32 \<longrightarrow> code_at roll g k \<notin> si_roomCode ` set serverList) \<and>
     ((\<forall>g. fst (roll g) < 36) \<longrightarrow> length (code_at roll g k) = 6 \<and> set (code_at roll g k) \<subseteq> set room_charset)"
proof -
  obtain k where k: "k \<le> 32" "try_codes roll 32 (map si_roomCode serverList) g = (code_at roll g k, (next_gen roll ^^ Suc k) g)"
      "\<forall>j < k. code_at roll g j \<in> set (map si_roomCode serverList)"
      "k < 32 \<longrightarrow> code_at roll g k \<notin> set (map si_roomCode serverList)"
    using try_codes_spec [of 32 roll "map si_roomCode serverList" g] by blast
  have "(\<forall>g. fst (roll g) < 36) \<longrightarrow> length (code_at roll g k) = 6 \<and> set (code_at roll g k) \<subseteq> set room_charset"
    using draw_chars_set [of roll "[]" 6] by (simp add: code_at_def GenerateRoomCode_def)
  then show ?thesis using k by (intro exI [of _ k]) (simp add: GenerateUniqueRoomCode_def)
qed

theorem room_code_search_witness:
  "\<exists>k \<le> 32. GenerateUniqueRoomCode (\<lambda>g. (g mod 36, g + 1)) ([] :: (rat, unit, nat) gServerInfo list) 0 =
       (code_at (\<lambda>g. (g mod 36, g + 1)) 0 k, (next_gen (\<lambda>g. (g mod 36, g + 1)) ^^ Suc k) 0) \<and>
     length (code_at (\<lambda>g. (g mod 36, g + 1)) 0 k) = 6"
  using room_code_search [of "\<lambda>g. (g mod 36, g + 1)" "[] :: (rat, unit, nat) gServerInfo list" 0] by auto

subsection \<open>Offers\<close>

lemma known_address_Some:
  "\<forall>c \<in> set out. cn_address co c \<noteq> None \<Longrightarrow>
    known_address co out a = Some (a \<in> (the \<circ> cn_address co) ` set out)"
  by (induction out) auto

definition host_candidates :: "'c cand_ops \<Rightarrow> 'c list \<Rightarrow> 'c list" where
  "host_candidates co gathered = filter (\<lambda>c. cn_type co c = HostCandidate) gathered"

lemma offer_hosts_Some:
  "\<forall>c \<in> set gathered \<union> set out. cn_address co c \<noteq> None \<Longrightarrow>
    \<exists>hosts. offer_hosts co gathered out = Some (out @ hosts) \<and> set hosts \<subseteq> set (host_candidates co gathered) \<and>
      distinct (map (cn_address co) hosts) \<and> cn_address co ` set hosts \<inter> cn_address co ` set out = {} \<and>
      cn_address co ` set (host_candidates co gathered) \<subseteq> cn_address co ` set (out @ hosts)"
proof (induction gathered arbitrary: out)
  case (Cons c gathered)
  have addr: "\<forall>x \<in> set gathered \<union> set out. cn_address co x \<noteq> None" using Cons.prems by simp
  obtain a where a: "cn_address co c = Some a" using Cons.prems by auto
  have same: "cn_address co x = Some b \<longleftrightarrow> the (cn_address co x) = b" if "x \<in> set out" for x b
    using addr that by auto
  have known: "known_address co out a = Some (Some a \<in> cn_address co ` set out)"
    using known_address_Some [of out co a] addr same by (force simp: image_iff)
  show ?case
  proof (cases "cn_type co c = HostCandidate \<and> Some a \<notin> cn_address co ` set out")
    case True
    obtain hosts where h: "offer_hosts co gathered (out @ [c]) = Some ((out @ [c]) @ hosts)"
        "set hosts \<subseteq> set (host_candidates co gathered)" "distinct (map (cn_address co) hosts)"
        "cn_address co ` set hosts \<inter> cn_address co ` set (out @ [c]) = {}"
        "cn_address co ` set (host_candidates co gathered) \<subseteq> cn_address co ` set ((out @ [c]) @ hosts)"
      using Cons.IH [of "out @ [c]"] Cons.prems by auto
    have "offer_hosts co (c # gathered) out = Some (out @ (c # hosts))"
      using True h(1) by (simp add: a known)
    moreover have "cn_address co c \<notin> cn_address co ` set hosts" using h(4) by auto
    ultimately show ?thesis using True h(2-5) a
      by (intro exI [of _ "c # hosts"]) (auto simp: host_candidates_def)
  next
    case False
    obtain hosts where "offer_hosts co gathered out = Some (out @ hosts)"
        "set hosts \<subseteq> set (host_candidates co gathered)" "distinct (map (cn_address co) hosts)"
        "cn_address co ` set hosts \<inter> cn_address co ` set out = {}"
        "cn_address co ` set (host_candidates co gathered) \<subseteq> cn_address co ` set (out @ hosts)"
      using Cons.IH [OF addr] by blast
    with False show ?thesis
      by (intro exI [of _ hosts]) (auto simp: host_candidates_def a known)
  qed
qed (simp add: host_candidates_def)

text \<open>What the handlers rely on of znet's candidates: those read off the wire or made from a host and a
  port have an address, and at least one fits in a packet.\<close>

definition addressed :: "'c cand_ops \<Rightarrow> 'c list \<Rightarrow> bool" where
  "addressed co cs \<longleftrightarrow> list_all (\<lambda>c. cn_address co c \<noteq> None) cs"

definition cand_ops_ok :: "'c cand_ops \<Rightarrow> bool" where
  "cand_ops_ok co \<longleftrightarrow> 0 < cn_max co \<and>
     (\<forall>ip port c. cn_reflexive co ip port = Some c \<longrightarrow> cn_type co c = ReflexiveCandidate \<and> cn_address co c \<noteq> None)"

lemma offer_reflexive_facts:
  assumes "cand_ops_ok co" "addressed co gathered" "c \<in> set (offer_reflexive co ip port gathered)"
  shows "cn_type co c = ReflexiveCandidate" "cn_address co c \<noteq> None"
    "c \<in> set gathered \<or> cn_reflexive co ip port = Some c"
  using assms by (auto simp: offer_reflexive_def cand_ops_ok_def addressed_def list_all_iff Let_def
      split: if_splits option.splits)

text \<open>The direct part of an offer, before it is cut to length.\<close>

definition direct_offer :: "'c cand_ops \<Rightarrow> string \<Rightarrow> u16 \<Rightarrow> 'c list \<Rightarrow> 'c list \<Rightarrow> bool" where
  "direct_offer co ip port gathered direct \<longleftrightarrow>
     (\<exists>hosts. direct = offer_reflexive co ip port gathered @ hosts \<and>
        set hosts \<subseteq> set (host_candidates co gathered) \<and> distinct (map (cn_address co) hosts) \<and>
        cn_address co ` set hosts \<inter> cn_address co ` set (offer_reflexive co ip port gathered) = {} \<and>
        cn_address co ` set (host_candidates co gathered) \<subseteq> cn_address co ` set direct)"

lemma BuildOffer_Some:
  assumes "cand_ops_ok co" "addressed co gathered"
  shows "\<exists>direct. direct_offer co ip port gathered direct \<and> addressed co direct \<and>
    BuildOffer co ip port gathered relayed =
      Some (take (cn_max co - 1) direct @ (case relayed of None \<Rightarrow> [] | Some r \<Rightarrow> [r]))"
proof -
  let ?out = "offer_reflexive co ip port gathered"
  have out: "addressed co ?out"
    using offer_reflexive_facts(2) [OF assms] by (auto simp: addressed_def list_all_iff)
  then have "\<forall>c \<in> set gathered \<union> set ?out. cn_address co c \<noteq> None"
    using assms(2) unfolding addressed_def list_all_iff by blast
  from offer_hosts_Some [OF this]
  obtain hosts where h: "offer_hosts co gathered ?out = Some (?out @ hosts)"
      "set hosts \<subseteq> set (host_candidates co gathered)" "distinct (map (cn_address co) hosts)"
      "cn_address co ` set hosts \<inter> cn_address co ` set ?out = {}"
      "cn_address co ` set (host_candidates co gathered) \<subseteq> cn_address co ` set (?out @ hosts)"
    by blast
  have "addressed co (?out @ hosts)"
    using out h(2) assms(2) by (auto simp: addressed_def list_all_iff host_candidates_def)
  moreover have "direct_offer co ip port gathered (?out @ hosts)"
    unfolding direct_offer_def using h(2-5) by blast
  ultimately show ?thesis
    using h(1) by (intro exI [of _ "?out @ hosts"]) (auto simp: BuildOffer_def Let_def split: option.split)
qed

lemma offer_length:
  "0 < m \<Longrightarrow> length (take (m - 1) direct @ (case relayed of None \<Rightarrow> [] | Some r \<Rightarrow> [r])) \<le> m"
  by (cases relayed) auto

text \<open>What one side of a punch is told to try: building the offer never touches a null address when
  the gathered candidates have theirs; the offer fits in a packet, ends with the relayed candidate if
  the relay gave one, and starts with the reflexive candidates (or the observed address in their
  place) and then the host ones, no address twice among these, and none of the gathered host
  addresses missing unless the packet is full.\<close>

theorem offer_bounded:
  assumes "cand_ops_ok co" "addressed co gathered"
  shows "\<exists>direct offer. BuildOffer co ip port gathered relayed = Some offer \<and> length offer \<le> cn_max co \<and>
    direct_offer co ip port gathered direct \<and>
    offer = take (cn_max co - 1) direct @ (case relayed of None \<Rightarrow> [] | Some r \<Rightarrow> [r])"
proof -
  obtain direct where "direct_offer co ip port gathered direct"
      "BuildOffer co ip port gathered relayed =
        Some (take (cn_max co - 1) direct @ (case relayed of None \<Rightarrow> [] | Some r \<Rightarrow> [r]))"
    using BuildOffer_Some [OF assms] by blast
  moreover have "length (take (cn_max co - 1) direct @ (case relayed of None \<Rightarrow> [] | Some r \<Rightarrow> [r])) \<le> cn_max co"
    by (rule offer_length) (use assms(1) in \<open>simp add: cand_ops_ok_def\<close>)
  ultimately show ?thesis by blast
qed

definition text_candidates :: "(cand_type \<times> string) cand_ops" where
  "text_candidates = \<lparr>cn_type = fst, cn_address = (\<lambda>c. Some (snd c)),
     cn_reflexive = (\<lambda>ip port. Some (ReflexiveCandidate, ip @ '':'' @ to_string (unat port))),
     cn_relayed = (\<lambda>host port token. (RelayedCandidate, host @ '':'' @ to_string (unat port))), cn_max = 4\<rparr>"

lemma text_candidates_ok: "cand_ops_ok text_candidates" "addressed text_candidates cs"
  by (auto simp: cand_ops_ok_def text_candidates_def addressed_def list_all_iff)

theorem offer_bounded_witness:
  "\<exists>direct offer. BuildOffer text_candidates ''1.2.3.4'' 25000 [(HostCandidate, ''10.0.0.1:25000'')] None = Some offer \<and>
     length offer \<le> 4 \<and> direct_offer text_candidates ''1.2.3.4'' 25000 [(HostCandidate, ''10.0.0.1:25000'')] direct"
  using offer_bounded [OF text_candidates_ok, of "''1.2.3.4''" 25000 "[(HostCandidate, ''10.0.0.1:25000'')]" None]
  by (auto simp: text_candidates_def)

lemma offer_logged:
  assumes "cand_ops_ok co" "addressed co cs" "\<forall>r. relayed = Some r \<longrightarrow> cn_address co r \<noteq> None"
  shows "\<exists>out. logged co (BuildOffer co ip port cs relayed) = Some out \<and>
    BuildOffer co ip port cs relayed = Some out \<and> length out \<le> cn_max co \<and> (\<forall>r. relayed = Some r \<longrightarrow> last out = r)"
proof -
  obtain direct where d: "addressed co direct" "BuildOffer co ip port cs relayed =
      Some (take (cn_max co - 1) direct @ (case relayed of None \<Rightarrow> [] | Some r \<Rightarrow> [r]))"
    using BuildOffer_Some [OF assms(1,2)] by blast
  have "length (take (cn_max co - 1) direct @ (case relayed of None \<Rightarrow> [] | Some r \<Rightarrow> [r])) \<le> cn_max co"
    by (rule offer_length) (use assms(1) in \<open>simp add: cand_ops_ok_def\<close>)
  with d assms(3) show ?thesis
    by (auto simp: logged_def addressed_def list_all_iff dest: in_set_takeD split: option.splits)
qed

text \<open>A punch request pairs the two sides once: when the room, public address or private address asked for
  is listed and its host is still connected, exactly two packets are sent, first to the host an offer
  of the client's candidates marked as the host's, then to the client an offer of the host's
  candidates, both within the limit of a packet and both ending with the same relayed candidate if
  there is one; otherwise nothing is sent. No null address is touched as long as the candidates
  have theirs.\<close>

theorem punch_pairs:
  assumes "cand_ops_ok (bw_cand w)" "addressed (bw_cand w) (mp_candidates p)"
    "list_all (\<lambda>x. addressed (bw_cand w) (si_candidates x)) (br_serverList s)"
    "\<forall>r. relay_offer w = Some r \<longrightarrow> cn_address (bw_cand w) r \<noteq> None"
  shows "(case Option.bind (punch_target (mp_targetIdentifier p) (br_serverList s)) (live_host w) of
      None \<Rightarrow> on_punch_request w session p s = Some []
    | Some h \<Rightarrow> \<exists>forHost forClient.
        on_punch_request w session p s = Some
          [(h, MPunchExec \<lparr>mx_candidates = forHost, mx_isHost = True\<rparr>),
           (session, MPunchExec \<lparr>mx_candidates = forClient, mx_isHost = False\<rparr>)] \<and>
        BuildOffer (bw_cand w) (before_colon (bw_remote w session)) (mp_clientGamePort p) (mp_candidates p)
          (relay_offer w) = Some forHost \<and>
        length forHost \<le> cn_max (bw_cand w) \<and> length forClient \<le> cn_max (bw_cand w) \<and>
        (\<forall>r. relay_offer w = Some r \<longrightarrow> last forHost = r \<and> last forClient = r))"
proof (cases "Option.bind (punch_target (mp_targetIdentifier p) (br_serverList s)) (live_host w)")
  case None
  then show ?thesis by (auto simp: on_punch_request_def bind_eq_None_conv split: option.splits)
next
  case (Some h)
  then obtain x where x: "punch_target (mp_targetIdentifier p) (br_serverList s) = Some x" "live_host w x = Some h"
    by (auto simp: bind_eq_Some_conv)
  have cands: "addressed (bw_cand w) (si_candidates x)"
    using find_SomeD x(1) assms(3) unfolding punch_target_def by (force simp: list_all_iff)
  note offer = offer_logged [OF assms(1) _ assms(4)]
  obtain host port where sp: "snd (SplitHostPort (si_ip x) ([], 0)) = (host, port)" by fastforce
  show ?thesis
    using offer [OF assms(2), of "before_colon (bw_remote w session)" "mp_clientGamePort p"] offer [OF cands, of host port]
    by (auto simp: Some on_punch_request_def x Let_def split_beta sp)
qed

definition text_broker :: "(cand_type \<times> string) broker_env" where
  "text_broker = \<lparr>bw_cand = text_candidates, bw_remote = (\<lambda>n. ''1.2.3.'' @ to_string n @ '':5''),
     bw_withPort = (\<lambda>n port. ''1.2.3.'' @ to_string n @ '':'' @ to_string (unat port)),
     bw_alive = (\<lambda>n. True), bw_roll = (\<lambda>g. (g mod 36, g + 1)), bw_relay = Some (25011, Some 7),
     bw_relayHost = []\<rparr>"

definition game_server :: "(cand_type \<times> string) MasterRegister" where
  "game_server = \<lparr>mi_ip = ''0.0.0.0:777'', mi_name = ''s'', mi_currentPlayers = 0, mi_maxPlayers = 4, mi_matchState = 0,
     mi_isPrivate = False, mi_hasPassword = False, mi_isDedicated = False, mi_useP2P = True,
     mi_candidates = [(HostCandidate, ''10.0.0.1:777'')]\<rparr>"

definition no_servers :: "(rat, cand_type \<times> string) BrokerState" where
  "no_servers = \<lparr>br_serverList = [], br_gen = 0\<rparr>"

definition one_server :: "(rat, cand_type \<times> string) BrokerState" where
  "one_server = no_servers\<lparr>br_serverList :=
     [new_entry rat_fops game_server [''1.2.3.1:777'', ''10.0.0.1:777''] 1 ''1.2.3.1:777'' ''ABCDEF'']\<rparr>"

definition ask_private :: "(cand_type \<times> string) MasterPunchReq" where
  "ask_private = \<lparr>mp_targetIdentifier = ''10.0.0.1:777'', mp_candidates = [], mp_clientGamePort = 5\<rparr>"

lemma ask_private_found:
  "Option.bind (punch_target (mp_targetIdentifier ask_private) (br_serverList one_server)) (live_host text_broker) = Some 1"
  "bw_cand text_broker = text_candidates"
  by (simp_all add: punch_target_def ask_private_def one_server_def new_entry_def live_host_def text_broker_def)

theorem punch_pairs_witness:
  "\<exists>forHost forClient. on_punch_request text_broker 2 ask_private one_server = Some
      [(1, MPunchExec \<lparr>mx_candidates = forHost, mx_isHost = True\<rparr>),
       (2, MPunchExec \<lparr>mx_candidates = forClient, mx_isHost = False\<rparr>)] \<and> length forHost \<le> 4"
proof -
  have "cn_address text_candidates r \<noteq> None" for r by (simp add: text_candidates_def)
  then show ?thesis
    using punch_pairs [of text_broker ask_private one_server 2] text_candidates_ok ask_private_found
    by (auto simp: list_all_iff text_candidates_def)
qed

subsection \<open>The list over time\<close>

definition registry_ok :: "('f, 'c) BrokerState \<Rightarrow> bool" where
  "registry_ok s \<longleftrightarrow> distinct (map si_ip (br_serverList s))"

definition entry_at :: "string \<Rightarrow> ('f, 'c) server_entry list \<Rightarrow> ('f, 'c) server_entry option" where
  "entry_at a xs = List.find (\<lambda>x. si_ip x = a) xs"

lemma entry_at_Nil [simp]: "entry_at a [] = None"
  by (simp add: entry_at_def)

lemma entry_at_Cons [simp]: "entry_at a (x # xs) = (if si_ip x = a then Some x else entry_at a xs)"
  by (simp add: entry_at_def)

lemma entry_at_append: "entry_at a (xs @ ys) = (case entry_at a xs of None \<Rightarrow> entry_at a ys | Some x \<Rightarrow> Some x)"
  by (induction xs) auto

lemma entry_at_update:
  "(\<And>x. si_ip (f x) = si_ip x) \<Longrightarrow>
    entry_at a (update_first (\<lambda>x. si_ip x = b) f xs) = (if a = b then map_option f (entry_at a xs) else entry_at a xs)"
  by (induction xs) auto

lemma entry_at_None: "entry_at a xs = None \<longleftrightarrow> a \<notin> si_ip ` set xs"
  by (induction xs) auto

definition aged :: "'f fops \<Rightarrow> 'c broker_env \<Rightarrow> 'f \<Rightarrow> ('f, 'c) server_entry \<Rightarrow> ('f, 'c) server_entry option" where
  "aged fl w dt x =
     (let x = x\<lparr>si_lastHeartbeat := fadd fl (si_lastHeartbeat x) dt\<rparr>
      in if live_host w x = None \<or> flt fl (flit fl 30) (si_lastHeartbeat x) then None else Some x)"

lemma age_servers_Cons:
  "age_servers fl w dt (x # xs) =
     (case aged fl w dt x of None \<Rightarrow> age_servers fl w dt xs | Some y \<Rightarrow> y # age_servers fl w dt xs)"
  by (simp add: aged_def Let_def)

declare age_servers.simps(2) [simp del] age_servers_Cons [simp]

lemma aged_ip: "aged fl w dt x = Some y \<Longrightarrow> si_ip y = si_ip x"
  by (auto simp: aged_def Let_def split: if_splits)

lemma age_servers_ips: "set (map si_ip (age_servers fl w dt xs)) \<subseteq> set (map si_ip xs)"
  by (induction xs) (auto simp: aged_ip split: option.splits)

lemma entry_at_age:
  "distinct (map si_ip xs) \<Longrightarrow> entry_at a (age_servers fl w dt xs) = Option.bind (entry_at a xs) (aged fl w dt)"
proof (induction xs)
  case (Cons x xs)
  have "entry_at a (age_servers fl w dt xs) = None" if "si_ip x = a"
    using Cons.prems age_servers_ips [of fl w dt xs] that by (auto simp: entry_at_None)
  with Cons show ?case
    by (auto dest: aged_ip split: option.splits)
qed simp

lemma age_servers_distinct: "distinct (map si_ip xs) \<Longrightarrow> distinct (map si_ip (age_servers fl w dt xs))"
proof (induction xs)
  case (Cons x xs)
  have "si_ip x \<notin> set (map si_ip (age_servers fl w dt xs))"
    using Cons.prems age_servers_ips [of fl w dt xs] by auto
  with Cons show ?case by (auto simp: aged_ip split: option.split)
qed simp

datatype ('f, 'c) broker_op = Register nat "'c MasterRegister" | Heartbeat nat MasterHeartbeat | Frame 'f

fun broker_step ::
  "'f fops \<Rightarrow> 'c broker_env \<Rightarrow> ('f, 'c) broker_op \<Rightarrow> ('f, 'c) BrokerState \<Rightarrow> ('f, 'c) BrokerState" where
  "broker_step fl w (Register session p) s = snd (on_register fl w session p s)"
| "broker_step fl w (Heartbeat session p) s = on_heartbeat fl w session p s"
| "broker_step fl w (Frame dt) s = broker_update fl w dt s"

lemma refresh_entry_ip [simp]: "si_ip (refresh_entry fl p cs session x) = si_ip x"
  by (simp add: refresh_entry_def)

lemma on_register_list:
  "br_serverList (snd (on_register fl w session p s)) =
     (let a = advertised_ip w session (mi_ip p); cs = PeerAddresses (bw_cand w) a (mi_candidates p)
      in if entry_at a (br_serverList s) = None
         then br_serverList s @ [new_entry fl p cs session a (fst (GenerateUniqueRoomCode (bw_roll w) (br_serverList s) (br_gen s)))]
         else update_first (\<lambda>x. si_ip x = a) (refresh_entry fl p cs session) (br_serverList s))"
  by (auto simp: on_register_def Let_def split_beta entry_at_def split: option.split)

lemma broker_step_ok: "registry_ok s \<Longrightarrow> registry_ok (broker_step fl w op s)"
proof (cases op)
  case (Register session p)
  then show "registry_ok s \<Longrightarrow> ?thesis"
    by (auto simp: registry_ok_def on_register_list Let_def map_update_first new_entry_def entry_at_None)
qed (auto simp: registry_ok_def on_heartbeat_def broker_update_def map_update_first age_servers_distinct)

fun concerns :: "'c broker_env \<Rightarrow> string \<Rightarrow> ('f, 'c) broker_op \<Rightarrow> bool" where
  "concerns w a (Register session p) = (advertised_ip w session (mi_ip p) = a)"
| "concerns w a (Heartbeat session p) = (advertised_ip w session (mh_ip p) = a)"
| "concerns w a (Frame dt) = False"

fun frame_time :: "(rat, 'c) broker_op \<Rightarrow> rat" where
  "frame_time (Frame dt) = dt"
| "frame_time _ = 0"

fun is_frame :: "('f, 'c) broker_op \<Rightarrow> bool" where
  "is_frame (Frame dt) = True"
| "is_frame _ = False"

definition broker_run ::
  "'f fops \<Rightarrow> ('c broker_env \<times> ('f, 'c) broker_op) list \<Rightarrow> ('f, 'c) BrokerState \<Rightarrow> ('f, 'c) BrokerState" where
  "broker_run fl ops s = fold (\<lambda>(w, op). broker_step fl w op) ops s"

lemma broker_run_Cons [simp]: "broker_run fl ((w, op) # ops) s = broker_run fl ops (broker_step fl w op s)"
  by (simp add: broker_run_def)

lemma broker_run_Nil [simp]: "broker_run fl [] s = s"
  by (simp add: broker_run_def)

lemma entry_at_step:
  assumes "registry_ok s" "\<not> concerns w a op"
  shows "entry_at a (br_serverList (broker_step fl w op s)) =
    (case op of Frame dt \<Rightarrow> Option.bind (entry_at a (br_serverList s)) (aged fl w dt)
     | _ \<Rightarrow> entry_at a (br_serverList s))"
proof (cases op)
  case (Register session p)
  then show ?thesis
    using assms(2) by (auto simp: on_register_list Let_def entry_at_append entry_at_update new_entry_def split: option.split)
next
  case (Heartbeat session p)
  then show ?thesis using assms(2) by (auto simp: on_heartbeat_def entry_at_update)
next
  case (Frame dt)
  then show ?thesis using assms(1) by (simp add: broker_update_def registry_ok_def entry_at_age)
qed

lemma gone_stays:
  "registry_ok s \<Longrightarrow> entry_at a (br_serverList s) = None \<Longrightarrow> \<forall>(w, op) \<in> set ops. \<not> concerns w a op \<Longrightarrow>
    entry_at a (br_serverList (broker_run fl ops s)) = None"
proof (induction ops arbitrary: s)
  case (Cons q ops)
  obtain w op where q: "q = (w, op)" by (cases q)
  have "entry_at a (br_serverList (broker_step fl w op s)) = None"
    using entry_at_step [OF Cons.prems(1), of w a op fl] Cons.prems(2,3) by (auto simp: q split: broker_op.split)
  from Cons.IH [OF broker_step_ok [OF Cons.prems(1)] this] Cons.prems(3) show ?case by (auto simp: q)
qed simp

text \<open>C29. A host that goes silent leaves the list, exactly when it should: from any reachable list, and
  whatever other hosts do meanwhile, an entry whose host neither registers nor sends a heartbeat
  again is still there, aged by the time that passed, as long as its session was alive in every
  frame and no more than thirty seconds have passed since it was last heard of, and gone for good
  otherwise.\<close>

theorem silent_host_leaves:
  assumes "registry_ok s" "entry_at a (br_serverList s) = Some x"
    "0 \<le> si_lastHeartbeat x" "si_lastHeartbeat x \<le> 30"
    "\<forall>(w, op) \<in> set ops. \<not> concerns w a op \<and> 0 \<le> frame_time op"
  shows "entry_at a (br_serverList (broker_run rat_fops ops s)) =
    (let age = si_lastHeartbeat x + sum_list (map (frame_time \<circ> snd) ops)
     in if (\<forall>(w, op) \<in> set ops. is_frame op \<longrightarrow> live_host w x \<noteq> None) \<and> age \<le> 30
        then Some (x\<lparr>si_lastHeartbeat := age\<rparr>) else None)"
  using assms
proof (induction ops arbitrary: s x)
  case (Cons q ops)
  obtain w op where q: "q = (w, op)" by (cases q)
  let ?s = "broker_step rat_fops w op s"
  have s: "registry_ok ?s" using Cons.prems(1) by (rule broker_step_ok)
  have rest: "\<forall>(w, op) \<in> set ops. \<not> concerns w a op \<and> 0 \<le> frame_time op" "\<not> concerns w a op" "0 \<le> frame_time op"
    using Cons.prems(5) by (auto simp: q)
  have later: "0 \<le> sum_list (map (frame_time \<circ> snd) ops)"
    by (rule sum_list_nonneg) (use rest(1) in auto)
  show ?case
  proof (cases "\<exists>dt. op = Frame dt")
    case False
    then have "entry_at a (br_serverList ?s) = Some x" "frame_time op = 0" "\<not> is_frame op"
      using entry_at_step [OF Cons.prems(1) rest(2), of rat_fops] Cons.prems(2) by (cases op; simp)+
    from Cons.IH [OF s this(1) Cons.prems(3,4) rest(1)] this(2,3) show ?thesis
      by (simp add: q Let_def)
  next
    case True
    then obtain dt where op: "op = Frame dt" by blast
    then have e: "entry_at a (br_serverList ?s) = aged rat_fops w dt x"
      using entry_at_step [OF Cons.prems(1) rest(2), of rat_fops] Cons.prems(2) by simp
    show ?thesis
    proof (cases "aged rat_fops w dt x")
      case None
      then have "live_host w x = None \<or> 30 < si_lastHeartbeat x + dt"
        by (auto simp: aged_def live_host_def Let_def split: if_splits)
      moreover have "entry_at a (br_serverList (broker_run rat_fops ops ?s)) = None"
        using gone_stays [OF s, of a ops rat_fops] e None rest(1) by auto
      moreover have "0 \<le> (\<Sum>a\<leftarrow>ops. frame_time (snd a))" using later by (simp add: comp_def)
      ultimately show ?thesis by (auto simp: q op Let_def)
    next
      case (Some y)
      have y: "y = x\<lparr>si_lastHeartbeat := si_lastHeartbeat x + dt\<rparr>" "live_host w x \<noteq> None" "si_lastHeartbeat x + dt \<le> 30"
        using Some by (auto simp: aged_def live_host_def Let_def split: if_splits)
      have alive: "live_host w y = live_host w x" for w by (simp add: y live_host_def)
      have "0 \<le> si_lastHeartbeat y" "si_lastHeartbeat y \<le> 30" using y Cons.prems(3) rest(3) by (simp_all add: op)
      from Cons.IH [OF s _ this rest(1)] e Some y(2) show ?thesis
        by (simp add: q op alive Let_def) (simp add: y add.assoc)
    qed
  qed
qed (simp add: Let_def)

theorem silent_host_leaves_witness:
  "entry_at ''1.2.3.1:777'' (br_serverList (broker_run rat_fops
     [(text_broker, Frame 20), (text_broker, Heartbeat 2 \<lparr>mh_ip = ''0.0.0.0:777''\<rparr>), (text_broker, Frame 11)] one_server)) = None"
proof -
  have "registry_ok one_server" "\<exists>x. entry_at ''1.2.3.1:777'' (br_serverList one_server) = Some x \<and> si_lastHeartbeat x = 0"
    by (simp_all add: registry_ok_def one_server_def new_entry_def)
  moreover have "advertised_ip text_broker 2 ''0.0.0.0:777'' \<noteq> ''1.2.3.1:777''" by code_simp
  ultimately show ?thesis
    using silent_host_leaves [of one_server "''1.2.3.1:777''" _ "[(text_broker, Frame 20),
        (text_broker, Heartbeat 2 \<lparr>mh_ip = ''0.0.0.0:777''\<rparr>), (text_broker, Frame 11)]"]
    by (auto simp: Let_def)
qed

text \<open>A registration puts exactly one entry under the address it came from: with the packet's data, the
  session it came over and age zero; the entry keeps its room code if it was listed already and gets
  the code the search found otherwise; no other entry changes; and the answer carries the code of
  that entry, so the room can be asked for by it.\<close>

theorem register_lists_server:
  assumes "registry_ok s" "on_register fl w session p s = (out, s')" "a = advertised_ip w session (mi_ip p)"
  shows "\<exists>x. entry_at a (br_serverList s') = Some x \<and> out = [(session, MRegisterRes \<lparr>ms_roomCode = si_roomCode x\<rparr>)] \<and>
    refresh_entry fl p (PeerAddresses (bw_cand w) a (mi_candidates p)) session x = x \<and>
    si_roomCode x = (case entry_at a (br_serverList s) of Some y \<Rightarrow> si_roomCode y
       | None \<Rightarrow> fst (GenerateUniqueRoomCode (bw_roll w) (br_serverList s) (br_gen s))) \<and>
    registry_ok s' \<and> (\<forall>b. b \<noteq> a \<longrightarrow> entry_at b (br_serverList s') = entry_at b (br_serverList s))"
proof -
  have s': "s' = broker_step fl w (Register session p) s" using assms(2) by simp
  have "registry_ok s'" using broker_step_ok assms(1) s' by blast
  moreover have "entry_at b (br_serverList s') = entry_at b (br_serverList s)" if "b \<noteq> a" for b
    using entry_at_step [OF assms(1), of w b "Register session p" fl] that assms(3) s' by simp
  moreover have "\<exists>x. entry_at a (br_serverList s') = Some x \<and> out = [(session, MRegisterRes \<lparr>ms_roomCode = si_roomCode x\<rparr>)] \<and>
      refresh_entry fl p (PeerAddresses (bw_cand w) a (mi_candidates p)) session x = x \<and>
      si_roomCode x = (case entry_at a (br_serverList s) of Some y \<Rightarrow> si_roomCode y
       | None \<Rightarrow> fst (GenerateUniqueRoomCode (bw_roll w) (br_serverList s) (br_gen s)))"
    using assms(2) unfolding assms(3) on_register_def Let_def
    by (auto simp: split_beta entry_at_def [symmetric] entry_at_append entry_at_update refresh_entry_def new_entry_def
        split: option.splits)
  ultimately show ?thesis by blast
qed

theorem register_lists_server_witness:
  "\<exists>x. entry_at (advertised_ip text_broker 1 (mi_ip game_server))
     (br_serverList (snd (on_register rat_fops text_broker 1 game_server no_servers))) = Some x"
  using register_lists_server [OF _ prod.collapse [symmetric] refl, where s = no_servers and fl = rat_fops and w = text_broker and session = 1 and p = game_server]
  by (auto simp: registry_ok_def no_servers_def)

end
