(* ===== verification/P2PClient.thy ===== *)
theory P2PClient
  imports GameBackendLocal MasterRegistry
begin

section \<open>Introductions\<close>

text \<open>
  \<open>gipP2PClient.cpp\<close>, the half of \<open>GameBackendLocal.cpp\<close> that punches, and \<open>gServerBrowser.cpp\<close>: how a client
  and a host meet by way of the master. The punching agent, addresses and the connection to the
  broker are parameters: what arrives while \<open>joinSession\<close> waits is a list of completions with their
  times in milliseconds, and what it does is a list of effects.
\<close>

definition GATHER_TIMEOUT :: nat where "GATHER_TIMEOUT = 2000"
definition BROKER_TIMEOUT :: nat where "BROKER_TIMEOUT = 15000"
definition PUNCH_TIMEOUT :: nat where "PUNCH_TIMEOUT = 10000"

record ('c, 'a) punch_ops =
  po_address :: "'c \<Rightarrow> 'a option"
  po_with :: "'c \<Rightarrow> 'a option \<Rightarrow> 'c"
  po_unspecified :: "'a \<Rightarrow> bool"
  po_valid :: "'a \<Rightarrow> bool"
  po_port :: "'a \<Rightarrow> u16"
  po_withPort :: "'a \<Rightarrow> u16 \<Rightarrow> 'a"
  po_from :: "string \<Rightarrow> u16 \<Rightarrow> 'a option"

record 'c punch_offer =
  of_candidates :: "'c list"
  of_initiator :: bool
  of_timeout :: nat

datatype ('c, 'a) punch_effect =
  StartAgent u16 | Gather "'a list" nat | AskBroker "'c MasterPunchReq" | Punch "'c punch_offer"

text \<open>The addresses that reflect a socket: the relay of the master and the second reflector.\<close>

definition reflectors :: "('c, 'a) punch_ops \<Rightarrow> string \<Rightarrow> u16 \<Rightarrow> 'a option \<Rightarrow> 'a list" where
  "reflectors po masterIp relayPort extra =
     (let usable = (\<lambda>a. case a of None \<Rightarrow> [] | Some x \<Rightarrow> if po_valid po x then [x] else [])
      in usable (po_from po masterIp relayPort) @ usable extra)"

subsection \<open>A step that is waited for\<close>

record 'v gStep =
  st_done :: bool
  st_value :: 'v

datatype 'v completion = Finished 'v | FinishedEmpty

fun complete :: "'v completion \<Rightarrow> 'v gStep \<Rightarrow> 'v gStep" where
  "complete (Finished v) st = st\<lparr>st_value := v, st_done := True\<rparr>"
| "complete FinishedEmpty st = st\<lparr>st_done := True\<rparr>"

text \<open>What completes up to the deadline and until the value is taken is \<open>arrivals\<close>, in order: whether the wait
  was over in time, how long it took, and the step.\<close>

definition step_wait :: "nat \<Rightarrow> (nat \<times> 'v completion) list \<Rightarrow> 'v gStep \<Rightarrow> bool \<times> nat \<times> 'v gStep" where
  "step_wait timeout arrivals st =
     (let after = fold (\<lambda>(t, c). complete c) arrivals st
      in case arrivals of [] \<Rightarrow> (st_done st, if st_done st then 0 else timeout, st)
         | (t, c) # _ \<Rightarrow> if st_done st then (True, 0, after) else if t \<le> timeout then (True, t, after) else (False, timeout, after))"

definition new_step :: "'v \<Rightarrow> 'v gStep" where
  "new_step v = \<lparr>st_done = False, st_value = v\<rparr>"

subsection \<open>The joining client\<close>

record 'c gBrokerReply =
  bk_hasCandidates :: bool
  bk_isHost :: bool
  bk_candidates :: "'c list"

definition no_reply :: "'c gBrokerReply" where
  "no_reply = \<lparr>bk_hasCandidates = False, bk_isHost = False, bk_candidates = []\<rparr>"

text \<open>The broker's answer records and wakes; a lost connection only wakes.\<close>

datatype 'c broker_event = BrokerSent "'c MasterPunchExec" | BrokerLost

fun on_broker :: "'c broker_event \<Rightarrow> 'c gBrokerReply completion" where
  "on_broker (BrokerSent p) = Finished \<lparr>bk_hasCandidates = True, bk_isHost = mx_isHost p, bk_candidates = mx_candidates p\<rparr>"
| "on_broker BrokerLost = FinishedEmpty"

definition client_address :: "('c, 'a) punch_ops \<Rightarrow> 'a option \<Rightarrow> 'c \<Rightarrow> 'c option" where
  "client_address po masterAddress c = (case po_address po c of None \<Rightarrow> None
     | Some a \<Rightarrow> (case masterAddress of
         Some m \<Rightarrow> Some (if po_unspecified po a then po_with po c (Some (po_withPort po m (po_port po a))) else c)
       | None \<Rightarrow> Some c))"

definition client_offer :: "('c, 'a) punch_ops \<Rightarrow> 'a option \<Rightarrow> 'c gBrokerReply \<Rightarrow> 'c punch_offer" where
  "client_offer po masterAddress r =
     \<lparr>of_candidates = List.map_filter (client_address po masterAddress) (bk_candidates r),
      of_initiator = \<not> bk_isHost r, of_timeout = PUNCH_TIMEOUT\<rparr>"

datatype p2p_failure = NoSocket | NoGather | NoCandidates | NoUsable | NoPunch | PunchFailed

record ('c, 'a, 's) join_env =
  je_starts :: "u16 \<Rightarrow> bool"
  je_gathered :: "(nat \<times> 'c list completion) list"
  je_connected :: bool
  je_reply :: "(nat \<times> 'c broker_event) list"
  je_server :: "'a option"
  je_punched :: "(nat \<times> (bool \<times> 's option) completion) list"

definition punch_result :: "bool \<times> 's option \<Rightarrow> p2p_failure + 's" where
  "punch_result r = (case r of (True, Some sess) \<Rightarrow> Inr sess | _ \<Rightarrow> Inl PunchFailed)"

text \<open>From the answer of the broker on: the outcome, what is done and the time it takes.\<close>

definition punch_reply ::
  "('c, 'a) punch_ops \<Rightarrow> ('c, 'a, 's) join_env \<Rightarrow> 'c gBrokerReply \<Rightarrow> (p2p_failure + 's) \<times> ('c, 'a) punch_effect list \<times> nat" where
  "punch_reply po env r =
     (if \<not> bk_hasCandidates r then (Inl NoCandidates, [], 0)
      else let offer = client_offer po (je_server env) r in
        if of_candidates offer = [] then (Inl NoUsable, [], 0)
        else (case step_wait (PUNCH_TIMEOUT * 2 + 1000) (je_punched env) (new_step (False, None)) of
           (resolved, t, st) \<Rightarrow> (if resolved then punch_result (st_value st) else Inl NoPunch, [Punch offer], t)))"

definition joinSession ::
  "('c, 'a) punch_ops \<Rightarrow> ('c, 'a, 's) join_env \<Rightarrow> string \<Rightarrow> u16 \<Rightarrow> 'a option \<Rightarrow> string \<Rightarrow> u16 \<Rightarrow>
    (p2p_failure + 's) \<times> ('c, 'a) punch_effect list \<times> nat" where
  "joinSession po env masterIp masterRelayPort extraReflector targetIdentifier localGamePort =
     (if \<not> je_starts env localGamePort then (Inl NoSocket, [], 0)
      else let start = [StartAgent localGamePort, Gather (reflectors po masterIp masterRelayPort extraReflector) GATHER_TIMEOUT] in
        (case step_wait (GATHER_TIMEOUT + 1000) (je_gathered env) (new_step []) of
           (False, t, gathered) \<Rightarrow> (Inl NoGather, start, t)
         | (True, t, gathered) \<Rightarrow>
             (let ask = (if je_connected env then [AskBroker \<lparr>mp_targetIdentifier = targetIdentifier,
                    mp_candidates = st_value gathered, mp_clientGamePort = localGamePort\<rparr>] else []);
                  (_, t2, reply) = step_wait BROKER_TIMEOUT (map (\<lambda>(t, ev). (t, on_broker ev)) (je_reply env)) (new_step no_reply);
                  (outcome, punched, t3) = punch_reply po env (st_value reply)
              in (outcome, start @ ask @ punched, t + t2 + t3))))"

subsection \<open>The host\<close>

text \<open>The socket the host punches on is opened once; \<open>starts\<close> says whether it can be.\<close>

definition ensurePunchHost :: "(u16 \<Rightarrow> bool) \<Rightarrow> ('f, 'c) LocalState \<Rightarrow> bool \<Rightarrow> ('c, 'a) punch_effect list \<times> bool" where
  "ensurePunchHost starts s punchHost =
     (if punchHost then ([], True)
      else if \<not> starts (advertisedPort s) then ([], False) else ([StartAgent (advertisedPort s)], True))"

definition gatherCandidates ::
  "('c, 'a) punch_ops \<Rightarrow> (u16 \<Rightarrow> bool) \<Rightarrow> string \<Rightarrow> u16 \<Rightarrow> 'a option \<Rightarrow> ('f, 'c) LocalState \<Rightarrow> bool \<Rightarrow> ('c, 'a) punch_effect list \<times> bool" where
  "gatherCandidates po starts targetMasterIp targetMasterRelayPort targetExtraReflector s punchHost =
     (case ensurePunchHost starts s punchHost of (opened, ok) \<Rightarrow>
       (opened @ (if ok then [Gather (reflectors po targetMasterIp targetMasterRelayPort targetExtraReflector) 2000] else []), ok))"

definition host_offer :: "('c, 'a) punch_ops \<Rightarrow> string \<Rightarrow> 'c MasterPunchExec \<Rightarrow> 'c punch_offer" where
  "host_offer po targetMasterIp p =
     \<lparr>of_candidates = punch_candidates (po_address po) (po_with po) (po_unspecified po)
        (\<lambda>a. po_from po targetMasterIp (po_port po a)) (po_valid po) (mx_candidates p),
      of_initiator = \<not> mx_isHost p, of_timeout = 10000\<rparr>"

definition on_punch_execute ::
  "('c, 'a) punch_ops \<Rightarrow> (u16 \<Rightarrow> bool) \<Rightarrow> string \<Rightarrow> 'c MasterPunchExec \<Rightarrow> ('f, 'c) LocalState \<Rightarrow> bool \<Rightarrow>
    ('c, 'a) punch_effect list \<times> bool" where
  "on_punch_execute po starts targetMasterIp p s punchHost =
     (case ensurePunchHost starts s punchHost of (opened, ok) \<Rightarrow>
       (opened @ (if \<not> ok \<or> of_candidates (host_offer po targetMasterIp p) = [] then []
          else [Punch (host_offer po targetMasterIp p)]), ok))"

subsection \<open>The server browser\<close>

text \<open>A refresh replaces the client; the callback is the one set when the connection is made.\<close>

record BrowserState =
  sb_masterQueryClient :: "nat option"
  sb_onServersReceived :: bool

datatype ('f, 'c, 's) browser_effect = AskList nat string u16 MasterGetList | ServersReceived "('f, 'c, 's) gServerInfo list"

definition setOnServersReceived :: "bool \<Rightarrow> BrowserState \<Rightarrow> BrowserState" where
  "setOnServersReceived callback s = s\<lparr>sb_onServersReceived := callback\<rparr>"

definition refreshServers :: "nat \<Rightarrow> string \<Rightarrow> u16 \<Rightarrow> u32 \<Rightarrow> BrowserState \<Rightarrow> ('f, 'c, 's) browser_effect list \<times> BrowserState" where
  "refreshServers client masterIp masterPort matchStateFilter s =
     ([AskList client masterIp masterPort \<lparr>mg_matchStateFilter = matchStateFilter\<rparr>], s\<lparr>sb_masterQueryClient := Some client\<rparr>)"

definition on_servers :: "bool \<Rightarrow> ('f, 'c, 's) gServerInfo list \<Rightarrow> ('f, 'c, 's) browser_effect list" where
  "on_servers callback servers = (if callback then [ServersReceived servers] else [])"

subsection \<open>How a join ends\<close>

lemma wait_bound: "step_wait timeout arrivals st = (ok, t, st') \<Longrightarrow> t \<le> timeout"
  by (auto simp: step_wait_def Let_def split: list.splits if_splits)

lemma wait_first: "step_wait timeout [(t, Finished v)] (new_step d) = (t \<le> timeout, if t \<le> timeout then t else timeout, \<lparr>st_done = True, st_value = v\<rparr>)"
  by (simp add: step_wait_def new_step_def)

text \<open>The value of a step is the last one it was finished with: finishing it without a value keeps it.\<close>

lemma complete_value: "st_value (complete c st) = (case c of Finished v \<Rightarrow> v | FinishedEmpty \<Rightarrow> st_value st)"
  by (cases c) simp_all

lemma loss_keeps_answer:
  "snd (snd (step_wait timeout [(t, on_broker (BrokerSent p)), (t', on_broker BrokerLost)] (new_step no_reply))) =
     \<lparr>st_done = True, st_value = \<lparr>bk_hasCandidates = True, bk_isHost = mx_isHost p, bk_candidates = mx_candidates p\<rparr>\<rparr>"
  by (simp add: step_wait_def new_step_def Let_def)

fun punches :: "('c, 'a) punch_effect list \<Rightarrow> 'c punch_offer list" where
  "punches [] = []"
| "punches (Punch offer # es) = offer # punches es"
| "punches (_ # es) = punches es"

lemma punches_append [simp]: "punches (es @ fs) = punches es @ punches fs"
  by (induction es rule: punches.induct) simp_all

lemma reply_settles:
  assumes "punch_reply po env r = (outcome, effects, t)"
  shows "t \<le> 21000 \<and> (punches effects = [] \<or> punches effects = [client_offer po (je_server env) r] \<and>
      bk_hasCandidates r \<and> of_candidates (client_offer po (je_server env) r) \<noteq> []) \<and>
    (\<forall>sess. outcome = Inr sess \<longrightarrow> punches effects \<noteq> [] \<and>
      st_value (snd (snd (step_wait 21000 (je_punched env) (new_step (False, None))))) = (True, Some sess))"
proof -
  obtain ok t' st where w: "step_wait 21000 (je_punched env) (new_step (False, None)) = (ok, t', st)" by (metis prod.exhaust)
  have "t' \<le> 21000" using wait_bound [OF w] .
  moreover have "punch_result v = Inr sess \<longleftrightarrow> v = (True, Some sess)" for v :: "bool \<times> 'c option" and sess
    by (auto simp: punch_result_def split: prod.splits bool.splits option.splits)
  ultimately show ?thesis using assms w
    by (auto simp: punch_reply_def PUNCH_TIMEOUT_def Let_def punch_result_def split: if_splits prod.splits bool.splits option.splits)
qed

lemma folded_value:
  "st_value (fold (\<lambda>(t, c). complete c) arrivals st) = st_value st \<or>
     (\<exists>t. (t, Finished (st_value (fold (\<lambda>(t, c). complete c) arrivals st))) \<in> set arrivals)"
proof (induction arrivals arbitrary: st)
  case (Cons x arrivals)
  obtain t c where "x = (t, c)" by fastforce
  then show ?case using Cons [of "complete c st"] by (cases c) auto
qed simp

lemma waited_value:
  "st_value (snd (snd (step_wait timeout arrivals (new_step d)))) = d \<or>
     (\<exists>t. (t, Finished (st_value (snd (snd (step_wait timeout arrivals (new_step d)))))) \<in> set arrivals)"
  using folded_value [of arrivals "new_step d"]
  by (auto simp: step_wait_def new_step_def Let_def split: list.split)

text \<open>A join is over after at most 39 seconds of waiting. It punches at most once, at the candidates of an answer
  of the broker, and a session it returns is the one that punch brought.\<close>

lemma join_settles:
  assumes "joinSession po env masterIp relayPort extra target port = (outcome, effects, t)"
  shows "t \<le> 39000 \<and> length (punches effects) \<le> 1 \<and>
    (\<forall>offer\<in>set (punches effects). of_candidates offer \<noteq> [] \<and> (\<exists>t p. (t, BrokerSent p) \<in> set (je_reply env) \<and>
       offer = client_offer po (je_server env) \<lparr>bk_hasCandidates = True, bk_isHost = mx_isHost p, bk_candidates = mx_candidates p\<rparr>)) \<and>
    (\<forall>sess. outcome = Inr sess \<longrightarrow> punches effects \<noteq> [] \<and> (\<exists>t. (t, Finished (True, Some sess)) \<in> set (je_punched env)))"
proof (cases "je_starts env port")
  case True
  obtain ok t1 g where g: "step_wait 3000 (je_gathered env) (new_step []) = (ok, t1, g)" by (metis prod.exhaust)
  let ?replies = "map (\<lambda>(t, ev). (t, on_broker ev)) (je_reply env)"
  obtain ok2 t2 r where r: "step_wait 15000 ?replies (new_step no_reply) = (ok2, t2, r)" by (metis prod.exhaust)
  obtain o3 e3 t3 where p: "punch_reply po env (st_value r) = (o3, e3, t3)" by (metis prod.exhaust)
  note bounds = wait_bound [OF g] wait_bound [OF r]
  note settled = reply_settles [OF p]
  have answer: "\<exists>t q. (t, BrokerSent q) \<in> set (je_reply env) \<and>
      st_value r = \<lparr>bk_hasCandidates = True, bk_isHost = mx_isHost q, bk_candidates = mx_candidates q\<rparr>"
    if "bk_hasCandidates (st_value r)"
  proof -
    have "st_value r \<noteq> no_reply" using that by (auto simp: no_reply_def)
    then obtain t ev where ev: "(t, ev) \<in> set (je_reply env)" "on_broker ev = Finished (st_value r)"
      using waited_value [of 15000 ?replies no_reply] r by auto
    then show ?thesis by (cases ev) (simp_all, metis)
  qed
  have brought: "\<exists>t. (t, Finished (True, Some sess)) \<in> set (je_punched env)" if "o3 = Inr sess" for sess
  proof -
    have "st_value (snd (snd (step_wait 21000 (je_punched env) (new_step (False, None))))) = (True, Some sess)"
      using settled that by blast
    then show ?thesis using waited_value [of 21000 "je_punched env" "(False, None)"] by force
  qed
  show ?thesis
  proof (cases ok)
    case True
    then have "outcome = o3" "punches effects = punches e3" "t = t1 + t2 + t3"
      using assms \<open>je_starts env port\<close> g r p
      by (auto simp: joinSession_def GATHER_TIMEOUT_def BROKER_TIMEOUT_def Let_def split: if_splits)
    moreover have "\<forall>offer\<in>set (punches e3). of_candidates offer \<noteq> [] \<and> (\<exists>t p. (t, BrokerSent p) \<in> set (je_reply env) \<and>
       offer = client_offer po (je_server env) \<lparr>bk_hasCandidates = True, bk_isHost = mx_isHost p, bk_candidates = mx_candidates p\<rparr>)"
    proof
      fix offer assume "offer \<in> set (punches e3)"
      then have "bk_hasCandidates (st_value r)" "offer = client_offer po (je_server env) (st_value r)" "of_candidates offer \<noteq> []"
        using settled by auto
      with answer show "of_candidates offer \<noteq> [] \<and> (\<exists>t p. (t, BrokerSent p) \<in> set (je_reply env) \<and>
          offer = client_offer po (je_server env) \<lparr>bk_hasCandidates = True, bk_isHost = mx_isHost p, bk_candidates = mx_candidates p\<rparr>)"
        by metis
    qed
    moreover have "length (punches e3) \<le> 1" using settled by auto
    ultimately show ?thesis using settled brought bounds by auto
  next
    case False
    then show ?thesis using assms \<open>je_starts env port\<close> g bounds
      by (auto simp: joinSession_def GATHER_TIMEOUT_def Let_def)
  qed
next
  case False
  then show ?thesis using assms by (auto simp: joinSession_def)
qed

subsection \<open>Both sides meet\<close>

lemma asked_and_punched:
  assumes "je_starts env port" "je_gathered env = [(t1, Finished gathered)]" "t1 \<le> 3000" "je_connected env"
    "je_reply env = [(t2, BrokerSent q)]" "of_candidates (client_offer po (je_server env)
       \<lparr>bk_hasCandidates = True, bk_isHost = mx_isHost q, bk_candidates = mx_candidates q\<rparr>) \<noteq> []"
  shows "\<exists>outcome effects t. joinSession po env masterIp relayPort extra target port = (outcome, effects, t) \<and>
     AskBroker \<lparr>mp_targetIdentifier = target, mp_candidates = gathered, mp_clientGamePort = port\<rparr> \<in> set effects \<and>
     punches effects = [client_offer po (je_server env)
       \<lparr>bk_hasCandidates = True, bk_isHost = mx_isHost q, bk_candidates = mx_candidates q\<rparr>]"
  using assms
  by (auto simp: joinSession_def wait_first GATHER_TIMEOUT_def punch_reply_def Let_def split: prod.split)

lemma relay_offered: "BuildOffer co ip port cs (Some r) = Some out \<Longrightarrow> r \<in> set out"
  by (auto simp: BuildOffer_def Let_def split: option.splits)

lemma introduced:
  assumes "on_punch_request w session req s = Some [(h, MPunchExec forHost), (session, MPunchExec forClient)]"
    "relay_offer w = Some r"
  shows "mx_isHost forHost \<and> \<not> mx_isHost forClient \<and> r \<in> set (mx_candidates forHost) \<and> r \<in> set (mx_candidates forClient)"
  using assms relay_offered
  by (auto simp: on_punch_request_def logged_def Let_def split: option.splits prod.splits if_splits)

lemma host_punches:
  assumes "punchHost \<or> starts (advertisedPort g)" "r \<in> set (mx_candidates q)" "po_address po r = Some a" "po_unspecified po a"
    "po_from po masterIp (po_port po a) = Some a1" "po_valid po a1" "po_address po (po_with po r (Some a1)) = Some a1"
  shows "punches (fst (on_punch_execute po starts masterIp q g punchHost)) = [host_offer po masterIp q] \<and>
    po_with po r (Some a1) \<in> set (of_candidates (host_offer po masterIp q))"
proof -
  have "po_with po r (Some a1) \<in> set (of_candidates (host_offer po masterIp q))"
    using assms(2-7) by (force simp: host_offer_def punch_candidates_def Let_def)
  then show ?thesis using assms(1) by (auto simp: on_punch_execute_def ensurePunchHost_def)
qed

lemma client_punches:
  assumes "r \<in> set (bk_candidates q)" "po_address po r = Some a" "po_unspecified po a"
  shows "po_with po r (Some (po_withPort po m (po_port po a))) \<in> set (of_candidates (client_offer po (Some m) q))"
proof -
  have "client_address po (Some m) r = Some (po_with po r (Some (po_withPort po m (po_port po a))))"
    using assms by (simp add: client_address_def)
  then show ?thesis using assms(1) by (force simp: client_offer_def List.map_filter_def)
qed

text \<open>C31. An introduction meets: when the room asked for is listed, its host connected and the master's relay up,
  the request of a joining client makes the master send one packet to the host and one to the
  client, on which the host punches as the one that accepts and the client as the one that
  initiates, and both have the same relayed candidate among theirs, each at the address it knows
  the master by.\<close>

theorem introduction_meets:
  assumes "cand_ops_ok (bw_cand w)" "addressed (bw_cand w) gathered"
    "list_all (\<lambda>x. addressed (bw_cand w) (si_candidates x)) (br_serverList s)"
    "Option.bind (punch_target target (br_serverList s)) (live_host w) = Some h"
    "relay_offer w = Some r" "cn_address (bw_cand w) r \<noteq> None"
    "po_address po r = Some a" "po_unspecified po a"
    "po_from po masterIp (po_port po a) = Some a1" "po_valid po a1" "po_address po (po_with po r (Some a1)) = Some a1"
    "punchHost \<or> starts (advertisedPort g)"
    "je_starts env port" "je_gathered env = [(t1, Finished gathered)]" "t1 \<le> 3000" "je_connected env" "je_server env = Some m"
    "req = \<lparr>mp_targetIdentifier = target, mp_candidates = gathered, mp_clientGamePort = port\<rparr>"
  shows "\<exists>forHost forClient accepted outcome effects t initiated.
    on_punch_request w session req s = Some [(h, MPunchExec forHost), (session, MPunchExec forClient)] \<and>
    punches (fst (on_punch_execute po starts masterIp forHost g punchHost)) = [accepted] \<and> \<not> of_initiator accepted \<and>
    po_with po r (Some a1) \<in> set (of_candidates accepted) \<and>
    joinSession po (env\<lparr>je_reply := [(t2, BrokerSent forClient)]\<rparr>) masterIp relayPort extra target port = (outcome, effects, t) \<and>
    AskBroker req \<in> set effects \<and> punches effects = [initiated] \<and> of_initiator initiated \<and>
    po_with po r (Some (po_withPort po m (po_port po a))) \<in> set (of_candidates initiated)"
proof -
  have bind: "Option.bind (punch_target (mp_targetIdentifier req) (br_serverList s)) (live_host w) = Some h"
    and cs: "addressed (bw_cand w) (mp_candidates req)" using assms by simp_all
  obtain hcs ccs where sent: "on_punch_request w session req s =
      Some [(h, MPunchExec \<lparr>mx_candidates = hcs, mx_isHost = True\<rparr>), (session, MPunchExec \<lparr>mx_candidates = ccs, mx_isHost = False\<rparr>)]"
    using punch_pairs [OF assms(1) cs assms(3), of session] bind assms(5,6) by auto
  let ?h = "\<lparr>mx_candidates = hcs, mx_isHost = True\<rparr>" and ?c = "\<lparr>mx_candidates = ccs, mx_isHost = False\<rparr>"
  let ?q = "\<lparr>bk_hasCandidates = True, bk_isHost = False, bk_candidates = ccs\<rparr>"
  have r: "r \<in> set hcs" "r \<in> set ccs" using introduced [OF sent assms(5)] by simp_all
  note accepted = host_punches [where punchHost = punchHost and starts = starts and g = g and q = ?h, OF assms(12) _ assms(7-11)]
  have initiated: "po_with po r (Some (po_withPort po m (po_port po a))) \<in> set (of_candidates (client_offer po (Some m) ?q))"
    by (rule client_punches) (use r assms in simp_all)
  then have "of_candidates (client_offer po (Some m) ?q) \<noteq> []" by auto
  with asked_and_punched [of "env\<lparr>je_reply := [(t2, BrokerSent ?c)]\<rparr>" port t1 gathered t2 ?c po masterIp relayPort extra target] assms(13-18)
  obtain outcome effects t where "joinSession po (env\<lparr>je_reply := [(t2, BrokerSent ?c)]\<rparr>) masterIp relayPort extra target port = (outcome, effects, t)"
    "AskBroker req \<in> set effects" "punches effects = [client_offer po (Some m) ?q]" by auto
  moreover have "of_initiator (client_offer po (Some m) ?q)" "\<not> of_initiator (host_offer po masterIp ?h)"
    by (simp_all add: client_offer_def host_offer_def)
  ultimately show ?thesis using sent accepted r initiated by fastforce
qed

text \<open>Addresses as a host and a port.\<close>

type_synonym pair_candidate = "cand_type \<times> string \<times> u16"

definition pair_punch :: "(pair_candidate, string \<times> u16) punch_ops" where
  "pair_punch = \<lparr>po_address = (\<lambda>c. Some (snd c)), po_with = (\<lambda>c a. (fst c, case a of None \<Rightarrow> ([], 0) | Some x \<Rightarrow> x)),
     po_unspecified = (\<lambda>a. fst a = ''0.0.0.0''), po_valid = (\<lambda>a. fst a \<noteq> []), po_port = snd,
     po_withPort = (\<lambda>a port. (fst a, port)), po_from = (\<lambda>ip port. Some (ip, port))\<rparr>"

definition pair_candidates :: "pair_candidate cand_ops" where
  "pair_candidates = \<lparr>cn_type = fst, cn_address = (\<lambda>c. Some (fst (snd c) @ '':'' @ to_string (unat (snd (snd c))))),
     cn_reflexive = (\<lambda>ip port. Some (ReflexiveCandidate, ip, port)),
     cn_relayed = (\<lambda>host port token. (RelayedCandidate, host, port)), cn_max = 4\<rparr>"

lemma pair_candidates_ok: "cand_ops_ok pair_candidates" "addressed pair_candidates cs"
  by (auto simp: cand_ops_ok_def pair_candidates_def addressed_def list_all_iff)

definition pair_broker :: "pair_candidate broker_env" where
  "pair_broker = \<lparr>bw_cand = pair_candidates, bw_remote = (\<lambda>n. ''1.2.3.4:5''), bw_withPort = (\<lambda>n port. ''1.2.3.4:6''),
     bw_alive = (\<lambda>n. True), bw_roll = (\<lambda>g. (g mod 36, g + 1)), bw_relay = Some (25011, Some 7), bw_relayHost = []\<rparr>"

definition pair_server :: "pair_candidate MasterRegister" where
  "pair_server = \<lparr>mi_ip = ''0.0.0.0:777'', mi_name = ''s'', mi_currentPlayers = 0, mi_maxPlayers = 4, mi_matchState = 0,
     mi_isPrivate = False, mi_hasPassword = False, mi_isDedicated = False, mi_useP2P = True,
     mi_candidates = [(HostCandidate, ''10.0.0.1'', 777)]\<rparr>"

definition pair_list :: "(rat, pair_candidate) BrokerState" where
  "pair_list = \<lparr>br_serverList = [new_entry rat_fops pair_server [''1.2.3.1:777''] 1 ''1.2.3.1:777'' ''ABCDEF''], br_gen = 0\<rparr>"

definition pair_join :: "(pair_candidate, string \<times> u16, nat) join_env" where
  "pair_join = \<lparr>je_starts = (\<lambda>_. True), je_gathered = [(40, Finished [(HostCandidate, ''10.0.0.2'', 9)])], je_connected = True,
     je_reply = [], je_server = Some (''9.9.9.9'', 25010), je_punched = []\<rparr>"

theorem introduction_meets_witness:
  "\<exists>accepted initiated effects.
     (\<exists>forHost. punches (fst (on_punch_execute pair_punch (\<lambda>_. True) ''master'' forHost (local_state rat_fops 1 25000 :: (rat, pair_candidate) LocalState) False)) = [accepted]) \<and>
     (RelayedCandidate, ''master'', 25011) \<in> set (of_candidates accepted) \<and>
     punches (effects :: (pair_candidate, string \<times> u16) punch_effect list) = [initiated] \<and> (RelayedCandidate, ''9.9.9.9'', 25011) \<in> set (of_candidates initiated)"
proof -
  have found: "Option.bind (punch_target ''ABCDEF'' (br_serverList pair_list)) (live_host pair_broker) = Some 1"
    by (simp add: punch_target_def pair_list_def new_entry_def live_host_def pair_broker_def)
  have relay: "relay_offer pair_broker = Some (RelayedCandidate, ''0.0.0.0'', 25011)"
    by (simp add: relay_offer_def pair_broker_def pair_candidates_def)
  have ok: "cand_ops_ok (bw_cand pair_broker)" "\<And>cs. addressed (bw_cand pair_broker) cs"
    using pair_candidates_ok by (simp_all add: pair_broker_def)
  let ?r = "(RelayedCandidate, ''0.0.0.0'', 25011) :: pair_candidate"
  have facts: "cn_address (bw_cand pair_broker) ?r \<noteq> None" "po_address pair_punch ?r = Some (''0.0.0.0'', 25011)"
    "po_unspecified pair_punch (''0.0.0.0'', 25011)"
    "po_from pair_punch ''master'' (po_port pair_punch (''0.0.0.0'', 25011)) = Some (''master'', 25011)"
    "po_valid pair_punch (''master'', 25011)"
    "po_address pair_punch (po_with pair_punch ?r (Some (''master'', 25011))) = Some (''master'', 25011)"
    by (simp_all add: pair_broker_def pair_candidates_def pair_punch_def)
  have join: "je_starts pair_join 777" "je_gathered pair_join = [(40, Finished [(HostCandidate, ''10.0.0.2'', 9)])]"
    "(40 :: nat) \<le> 3000" "je_connected pair_join" "je_server pair_join = Some (''9.9.9.9'', 25010)"
    by (simp_all add: pair_join_def)
  have listed: "list_all (\<lambda>x. addressed (bw_cand pair_broker) (si_candidates x)) (br_serverList pair_list)"
    using ok(2) by (simp add: list_all_iff)
  let ?g = "local_state rat_fops 1 25000 :: (rat, pair_candidate) LocalState"
  have starts: "False \<or> (\<lambda>_ :: u16. True) (advertisedPort ?g)" by simp
  have put: "po_with pair_punch ?r (Some (''master'', 25011)) = (RelayedCandidate, ''master'', 25011)"
    "po_with pair_punch ?r (Some (po_withPort pair_punch (''9.9.9.9'', 25010) (po_port pair_punch (''0.0.0.0'', 25011)))) =
       (RelayedCandidate, ''9.9.9.9'', 25011)"
    by (simp_all add: pair_punch_def)
  note meets = introduction_meets [where punchHost = False and starts = "\<lambda>_. True" and g = ?g and session = 2 and relayPort = 25011
      and extra = None and ?t2.0 = 90, OF ok(1) ok(2) listed found relay facts starts join refl, unfolded put]
  from meets obtain forHost accepted effects initiated where
    "punches (fst (on_punch_execute pair_punch (\<lambda>_. True) ''master'' forHost ?g False)) = [accepted]"
    "(RelayedCandidate, ''master'', 25011) \<in> set (of_candidates accepted)"
    "punches (effects :: (pair_candidate, string \<times> u16) punch_effect list) = [initiated]" "(RelayedCandidate, ''9.9.9.9'', 25011) \<in> set (of_candidates initiated)"
    by (elim exE conjE) (rule that; assumption)
  then show ?thesis by (intro exI conjI)
qed

end
