(* ===== verification/GameBackendRemote.thy ===== *)
theory GameBackendRemote
  imports GameBackend TeamVoice "HOL-Library.Multiset"
begin

section \<open>The client's backend\<close>

text \<open>
  \<open>GameBackendRemote.h\<close> and \<open>.cpp\<close>: the backend of a client. It adds a session, the backlog of
  packets sent before there is one, and a voice client to the shared backend. A session is a number;
  what znet answers about it is in \<open>remote_env\<close>, asked anew at each operation. A section under
  \<open>sessionmutex\<close> is one step, so the loop of \<open>adoptSession\<close> that empties the backlog on the network
  thread is a step per packet: \<open>rm_flushing\<close> is its local vector, with the session it sends on.
\<close>

datatype drop_reason = StaleKeepAlive | BacklogFull | NoSession

text \<open>A packet the code lets go is \<open>Discard\<close>; what the game sees is \<open>Game\<close>.\<close>

datatype 'f remote_effect =
  ToSession nat "'f game_packet"
| Discard drop_reason "'f game_packet"
| VoiceTo nat gTeamVoiceUplinkPacket
| Wire nat
| Dial string u16
| CloseSession nat
| StopPunchHost
| DisconnectClient
| Game "'f backend_effect"

record ('f, 'd) RemoteState =
  rm_base :: "'f BackendState"
  rm_serverip :: string
  rm_port :: u16
  rm_session :: "nat option"
  rm_sessionadopted :: bool
  rm_pendingPackets :: "'f game_packet list"
  rm_flushing :: "(nat \<times> 'f game_packet list) option"
  rm_voice :: "('f, 'd) TeamVoiceState"
  rm_punched :: bool
  rm_client :: bool

record ('f, 'd) remote_env =
  re_base :: "'f backend_env"
  re_device :: "'d device_env"
  re_alive :: "nat \<Rightarrow> bool"
  re_ready :: "nat \<Rightarrow> bool"
  re_zdt :: "nat \<Rightarrow> bool"
  re_takes :: "nat \<Rightarrow> gTeamVoiceUplinkPacket \<Rightarrow> bool"

definition MAX_PENDING_PACKETS :: nat where "MAX_PENDING_PACKETS = 256"

definition remote_dialed :: "'f fops \<Rightarrow> ('f, 'd) TeamVoiceState \<Rightarrow> string \<Rightarrow> u16 \<Rightarrow> ('f, 'd) RemoteState" where
  "remote_dialed fl voice serverIp port = \<lparr>rm_base = backend_state fl, rm_serverip = serverIp, rm_port = port,
     rm_session = None, rm_sessionadopted = False, rm_pendingPackets = [], rm_flushing = None,
     rm_voice = voice, rm_punched = False, rm_client = False\<rparr>"

text \<open>The port of a punched connection is not initialised; nothing reads it.\<close>

definition remote_punched ::
  "'f fops \<Rightarrow> ('f, 'd) TeamVoiceState \<Rightarrow> u16 \<Rightarrow> nat option \<Rightarrow> bool \<Rightarrow> ('f, 'd) RemoteState" where
  "remote_punched fl voice port session host =
     (remote_dialed fl voice [] port)\<lparr>rm_session := session, rm_punched := host\<rparr>"

type_synonym ('f, 'd) remote_act = "'f remote_effect list \<times> ('f, 'd) RemoteState"

subsection \<open>Sending\<close>

definition live_session :: "(nat \<Rightarrow> bool) \<Rightarrow> ('f, 'd) RemoteState \<Rightarrow> nat option" where
  "live_session ok s = (case rm_session s of Some h \<Rightarrow> if ok h then Some h else None | None \<Rightarrow> None)"

definition remote_sendPacket ::
  "('f, 'd) remote_env \<Rightarrow> 'f game_packet \<Rightarrow> ('f, 'd) RemoteState \<Rightarrow> ('f, 'd) remote_act" where
  "remote_sendPacket env packet s = (case live_session (re_ready env) s of
     Some h \<Rightarrow> ([ToSession h packet], s)
   | None \<Rightarrow>
       if packet_id packet = packet_id (KeepAlive :: 'f game_packet) then ([Discard StaleKeepAlive packet], s)
       else if length (rm_pendingPackets s) \<ge> MAX_PENDING_PACKETS then ([Discard BacklogFull packet], s)
       else ([], s\<lparr>rm_pendingPackets := rm_pendingPackets s @ [packet]\<rparr>))"

text \<open>The broadcasts of states and events go on the session, ready or not, and are lost without one.\<close>

definition on_session :: "'f game_packet \<Rightarrow> ('f, 'd) RemoteState \<Rightarrow> ('f, 'd) remote_act" where
  "on_session packet s = (case rm_session s of
     None \<Rightarrow> ([Discard NoSession packet], s) | Some h \<Rightarrow> ([ToSession h packet], s))"

definition remote_broadcastState ::
  "u32 \<Rightarrow> 'f \<times> 'f \<times> 'f \<Rightarrow> 'f \<Rightarrow> u8 \<Rightarrow> u8 \<Rightarrow> ('f, 'd) RemoteState \<Rightarrow> ('f, 'd) remote_act" where
  "remote_broadcastState netid pos yaw team animState s = (case pos of (x, y, z) \<Rightarrow>
     on_session (NodeState \<lparr>ns_netid = netid, ns_x = x, ns_y = y, ns_z = z, ns_yaw = yaw, ns_team = team,
       ns_animState = animState\<rparr>) s)"

definition remote_broadcastFireEvent :: "'f PlayerFirePacket \<Rightarrow> ('f, 'd) RemoteState \<Rightarrow> ('f, 'd) remote_act" where
  "remote_broadcastFireEvent p s = on_session (PlayerFire p) s"

definition remote_broadcastHitEvent :: "u32 \<Rightarrow> u32 \<Rightarrow> 'f \<Rightarrow> ('f, 'd) RemoteState \<Rightarrow> ('f, 'd) remote_act" where
  "remote_broadcastHitEvent attackerId victimId damage s =
     on_session (PlayerHit \<lparr>ph_attackerId = attackerId, ph_victimId = victimId, ph_damage = damage\<rparr>) s"

definition remote_broadcastKillEvent :: "u32 \<Rightarrow> u32 \<Rightarrow> ('f, 'd) RemoteState \<Rightarrow> ('f, 'd) remote_act" where
  "remote_broadcastKillEvent killerId victimId s =
     on_session (PlayerKilled \<lparr>pk_killerId = killerId, pk_victimId = victimId\<rparr>) s"

text \<open>The client's side of the virtual operations: it broadcasts no lobby and relays no chat.\<close>

fun remote_perform ::
  "('f, 'd) remote_env \<Rightarrow> 'f backend_effect \<Rightarrow> ('f, 'd) RemoteState \<Rightarrow> ('f, 'd) remote_act" where
  "remote_perform env (SendPacket packet) s = remote_sendPacket env packet s"
| "remote_perform env (BroadcastEvent packet) s = on_session packet s"
| "remote_perform env (BroadcastLobby players inProgress) s = ([], s)"
| "remote_perform env (RelayChat p) s = ([], s)"
| "remote_perform env (BroadcastState netid pos yaw team animState) s =
     remote_broadcastState netid pos yaw team animState s"
| "remote_perform env e s = ([Game e], s)"

fun remote_perform_all ::
  "('f, 'd) remote_env \<Rightarrow> 'f backend_effect list \<Rightarrow> ('f, 'd) RemoteState \<Rightarrow> ('f, 'd) remote_act" where
  "remote_perform_all env [] s = ([], s)"
| "remote_perform_all env (e # es) s = (case remote_perform env e s of (first, s) \<Rightarrow>
     (case remote_perform_all env es s of (others, s) \<Rightarrow> (first @ others, s)))"

subsection \<open>The session\<close>

definition initializeVoice ::
  "'d opus \<Rightarrow> ('f, 'd) remote_env \<Rightarrow> ('f, 'd) RemoteState \<Rightarrow> bool \<times> ('f, 'd) RemoteState" where
  "initializeVoice op env s = (let (ok, voice) = voice_initialize op (re_device env) (rm_voice s)
     in (ok, s\<lparr>rm_voice := voice\<rparr>))"

text \<open>\<open>adoptSession\<close> up to its loop, one turn of the loop, and what follows it.\<close>

definition adopt_swap ::
  "'d opus \<Rightarrow> ('f, 'd) remote_env \<Rightarrow> nat \<Rightarrow> ('f, 'd) RemoteState \<Rightarrow> ('f, 'd) remote_act" where
  "adopt_swap op env h s =
     (let s = snd (initializeVoice op env s)
      in ([Wire h], s\<lparr>rm_session := Some h, rm_sessionadopted := True,
            rm_flushing := Some (h, rm_pendingPackets s), rm_pendingPackets := []\<rparr>))"

definition flush_turn :: "('f, 'd) RemoteState \<Rightarrow> ('f, 'd) remote_act" where
  "flush_turn s = (case rm_flushing s of
     None \<Rightarrow> ([], s)
   | Some (h, []) \<Rightarrow> ([], s\<lparr>rm_flushing := None, rm_base := notifyConnected (rm_base s)\<rparr>)
   | Some (h, p # ps) \<Rightarrow> ([ToSession h p], s\<lparr>rm_flushing := Some (h, ps)\<rparr>))"

fun flush_turns :: "nat \<Rightarrow> ('f, 'd) RemoteState \<Rightarrow> ('f, 'd) remote_act" where
  "flush_turns 0 s = ([], s)"
| "flush_turns (Suc n) s = (case flush_turn s of (first, s) \<Rightarrow>
     (case flush_turns n s of (others, s) \<Rightarrow> (first @ others, s)))"

text \<open>The whole of \<open>adoptSession\<close>, when nothing comes between: one turn per packet and one more.\<close>

definition adoptSession_whole ::
  "'d opus \<Rightarrow> ('f, 'd) remote_env \<Rightarrow> nat \<Rightarrow> ('f, 'd) RemoteState \<Rightarrow> ('f, 'd) remote_act" where
  "adoptSession_whole op env h s =
     (let queued = length (rm_pendingPackets s);
          (wired, s) = adopt_swap op env h s;
          (sent, s) = flush_turns (queued + 1) s
      in (wired @ sent, s))"

definition onDisconnected :: "('f, 'd) RemoteState \<Rightarrow> ('f, 'd) RemoteState" where
  "onDisconnected s =
     (let s = s\<lparr>rm_session := None\<rparr> in s\<lparr>rm_base := notifyDisconnected (rm_base s)\<rparr>)"

text \<open>\<open>start\<close>: a punched session is adopted, otherwise a client dials; its events come later.\<close>

definition remote_start ::
  "'d opus \<Rightarrow> ('f, 'd) remote_env \<Rightarrow> ('f, 'd) RemoteState \<Rightarrow> ('f, 'd) remote_act" where
  "remote_start op env s =
     (let s = snd (initializeVoice op env s) in
      case rm_session s of Some h \<Rightarrow> adopt_swap op env h s
      | None \<Rightarrow> ([Dial (rm_serverip s) (rm_port s)], s\<lparr>rm_client := True\<rparr>))"

definition remote_destroy :: "('f, 'd) RemoteState \<Rightarrow> ('f, 'd) remote_act" where
  "remote_destroy s =
     ((case rm_session s of None \<Rightarrow> [] | Some h \<Rightarrow> [CloseSession h]) @
      (if rm_punched s then [StopPunchHost] else []) @ (if rm_client s then [DisconnectClient] else []),
      s\<lparr>rm_session := None, rm_pendingPackets := []\<rparr>)"

subsection \<open>Packets from the server\<close>

datatype 'f client_packet =
  GamePacket "'f game_packet" | VoiceSessionPacket gTeamVoiceSessionPacket | VoicePacket gTeamVoiceDownlinkPacket
| UnknownPacket

definition to_queue :: "'f game_packet \<Rightarrow> ('f, 'd) RemoteState \<Rightarrow> ('f, 'd) remote_act" where
  "to_queue packet s = ([], s\<lparr>rm_base := enqueuePacket packet (rm_base s)\<rparr>)"

text \<open>\<open>ClientPacketHandler\<close>: \<open>now_ms\<close> is the clock a pong is read at.\<close>

fun on_game_packet ::
  "('f, 'd) remote_env \<Rightarrow> u64 \<Rightarrow> 'f game_packet \<Rightarrow> ('f, 'd) RemoteState \<Rightarrow> ('f, 'd) remote_act" where
  "on_game_packet env now_ms (Ping p) s = remote_sendPacket env (Pong \<lparr>po_timestamp = pi_timestamp p\<rparr>) s"
| "on_game_packet env now_ms (Pong p) s = ([], s\<lparr>rm_base := onPongReceived now_ms (po_timestamp p) (rm_base s)\<rparr>)"
| "on_game_packet env now_ms ServerQueryReq s = ([], s)"
| "on_game_packet env now_ms (ServerQueryRes p) s = ([], s)"
| "on_game_packet env now_ms (LobbyJoin p) s = ([], s)"
| "on_game_packet env now_ms (ToggleReady p) s = ([], s)"
| "on_game_packet env now_ms (SwitchTeam p) s = ([], s)"
| "on_game_packet env now_ms packet s = to_queue packet s"

fun on_client_packet ::
  "('f, 'd) remote_env \<Rightarrow> u64 \<Rightarrow> 'f client_packet \<Rightarrow> ('f, 'd) RemoteState \<Rightarrow> ('f, 'd) remote_act" where
  "on_client_packet env now_ms (GamePacket p) s = on_game_packet env now_ms p s"
| "on_client_packet env now_ms (VoiceSessionPacket p) s =
     ([], s\<lparr>rm_voice := voice_handleSessionPacket p (rm_voice s)\<rparr>)"
| "on_client_packet env now_ms (VoicePacket p) s = ([], s\<lparr>rm_voice := voice_handleVoicePacket p (rm_voice s)\<rparr>)"
| "on_client_packet env now_ms UnknownPacket s = ([], s)"

subsection \<open>The frame\<close>

text \<open>A client is never the server (\<open>isServer\<close> is not overridden). The effects of the shared frame touch
  no part of its state, so they are performed after it, in their order.\<close>

definition remote_base_update ::
  "'f fops \<Rightarrow> ('f, 'd) remote_env \<Rightarrow> (nat \<Rightarrow> 'f) \<Rightarrow> u64 \<Rightarrow> 'f \<Rightarrow> ('f, 'd) RemoteState \<Rightarrow> ('f, 'd) remote_act" where
  "remote_base_update fl env clock now_ms deltaTime s =
     (case backend_update fl ((re_base env)\<lparr>be_isServer := False\<rparr>) clock now_ms deltaTime (rm_base s) of
        (effects, base) \<Rightarrow> remote_perform_all env effects (s\<lparr>rm_base := base\<rparr>))"

definition watch_session :: "('f, 'd) remote_env \<Rightarrow> ('f, 'd) RemoteState \<Rightarrow> ('f, 'd) remote_act" where
  "watch_session env s = (case live_session (re_alive env) s of
     Some h \<Rightarrow>
       (case voice_updateNetwork (re_alive env h) (re_zdt env h) (re_takes env) (rm_voice s) of
          (sent, voice) \<Rightarrow> (map (\<lambda>(packet, ok). VoiceTo h packet) sent, s\<lparr>rm_voice := voice\<rparr>))
   | None \<Rightarrow> if rm_sessionadopted s \<and> \<not> gb_disconnectNotified (rm_base s)
             then ([], s\<lparr>rm_base := notifyDisconnected (rm_base s)\<rparr>) else ([], s))"

definition remote_update ::
  "'f fops \<Rightarrow> ('f, 'd) remote_env \<Rightarrow> (nat \<Rightarrow> 'f) \<Rightarrow> u64 \<Rightarrow> 'f \<Rightarrow> ('f, 'd) RemoteState \<Rightarrow> ('f, 'd) remote_act" where
  "remote_update fl env clock now_ms deltaTime s =
     (case remote_base_update fl env clock now_ms deltaTime s of (first, s) \<Rightarrow>
       (case watch_session env s of (others, s) \<Rightarrow> (first @ others, s)))"

subsection \<open>Voice\<close>

definition on_voice :: "(('f, 'd) TeamVoiceState \<Rightarrow> ('f, 'd) TeamVoiceState) \<Rightarrow> ('f, 'd) RemoteState \<Rightarrow> ('f, 'd) RemoteState" where
  "on_voice f s = s\<lparr>rm_voice := f (rm_voice s)\<rparr>"

definition shutdownVoice :: "('f, 'd) RemoteState \<Rightarrow> ('f, 'd) RemoteState" where
  "shutdownVoice s = on_voice voice_shutdown s"

definition startVoiceTransmission :: "'d opus \<Rightarrow> ('f, 'd) remote_env \<Rightarrow> ('f, 'd) RemoteState \<Rightarrow> ('f, 'd) RemoteState" where
  "startVoiceTransmission op env s =
     (let s = (if \<not> tv_initialized (rm_voice s) then snd (initializeVoice op env s) else s)
      in on_voice startTransmitting s)"

definition stopVoiceTransmission :: "('f, 'd) RemoteState \<Rightarrow> ('f, 'd) RemoteState" where
  "stopVoiceTransmission s = on_voice stopTransmitting s"

definition isVoiceTransmitting :: "('f, 'd) RemoteState \<Rightarrow> bool" where
  "isVoiceTransmitting s = voice_isTransmitting (rm_voice s)"

definition isPlayerTalking :: "u32 \<Rightarrow> ('f, 'd) RemoteState \<Rightarrow> bool" where
  "isPlayerTalking playerId s =
     list_ex (\<lambda>sp. sst_speakerid sp = ucast playerId \<and> sst_jitterdepth sp > 0)
       (a_speakersnapshot (as_state (tv_audio (rm_voice s))))"

definition remote_setSpeakerMuted :: "'f fops \<Rightarrow> u32 \<Rightarrow> bool \<Rightarrow> ('f, 'd) RemoteState \<Rightarrow> ('f, 'd) RemoteState" where
  "remote_setSpeakerMuted fl playerId muted s = on_voice (\<lambda>v. snd (voice_setSpeakerMuted fl (ucast playerId) muted v)) s"

definition remote_setSpeakerVolume :: "'f fops \<Rightarrow> u32 \<Rightarrow> 'f \<Rightarrow> ('f, 'd) RemoteState \<Rightarrow> ('f, 'd) RemoteState" where
  "remote_setSpeakerVolume fl playerId volume s =
     on_voice (\<lambda>v. snd (voice_setSpeakerVolume fl (ucast playerId) volume v)) s"

definition setVoiceEnabled :: "bool \<Rightarrow> ('f, 'd) RemoteState \<Rightarrow> ('f, 'd) RemoteState" where
  "setVoiceEnabled enabled s = on_voice (voice_setEnabled enabled) s"

definition isVoiceEnabled :: "('f, 'd) RemoteState \<Rightarrow> bool" where
  "isVoiceEnabled s = tv_enabled (rm_voice s)"

definition remote_setHearEnemiesVoice :: "bool \<Rightarrow> ('f, 'd) RemoteState \<Rightarrow> ('f, 'd) RemoteState" where
  "remote_setHearEnemiesVoice hear s = s"

definition remote_canHearEnemiesVoice :: "('f, 'd) RemoteState \<Rightarrow> bool" where
  "remote_canHearEnemiesVoice s = False"

definition remote_setMicrophoneVolume :: "'f fops \<Rightarrow> int \<Rightarrow> ('f, 'd) RemoteState \<Rightarrow> ('f, 'd) RemoteState" where
  "remote_setMicrophoneVolume fl volume s = on_voice (setMicrophoneVolume fl volume) s"

definition remote_setVoicePlaybackVolume :: "'f fops \<Rightarrow> int \<Rightarrow> ('f, 'd) RemoteState \<Rightarrow> ('f, 'd) RemoteState" where
  "remote_setVoicePlaybackVolume fl volume s = on_voice (setPlaybackVolume fl volume) s"

definition remote_getCaptureDeviceNames ::
  "('f, 'd) remote_env \<Rightarrow> ('f, 'd) RemoteState \<Rightarrow> string list \<times> ('f, 'd) RemoteState" where
  "remote_getCaptureDeviceNames env s = (let (names, voice) = getCaptureDeviceNames (re_device env) (rm_voice s)
     in (names, s\<lparr>rm_voice := voice\<rparr>))"

definition remote_setCaptureDeviceIndex ::
  "'d opus \<Rightarrow> ('f, 'd) remote_env \<Rightarrow> int \<Rightarrow> ('f, 'd) RemoteState \<Rightarrow> ('f, 'd) RemoteState" where
  "remote_setCaptureDeviceIndex op env index s = on_voice (setCaptureDeviceIndex op (re_device env) index) s"

definition remote_getPlaybackDeviceNames ::
  "('f, 'd) remote_env \<Rightarrow> ('f, 'd) RemoteState \<Rightarrow> string list \<times> ('f, 'd) RemoteState" where
  "remote_getPlaybackDeviceNames env s = (let (names, voice) = getPlaybackDeviceNames (re_device env) (rm_voice s)
     in (names, s\<lparr>rm_voice := voice\<rparr>))"

definition remote_setPlaybackDeviceIndex ::
  "'d opus \<Rightarrow> ('f, 'd) remote_env \<Rightarrow> int \<Rightarrow> ('f, 'd) RemoteState \<Rightarrow> ('f, 'd) RemoteState" where
  "remote_setPlaybackDeviceIndex op env index s = on_voice (setPlaybackDeviceIndex op (re_device env) index) s"

subsection \<open>The client as a system\<close>

text \<open>A step is labelled with the packets it was given to send and with its effects. One adoption runs
  at a time: the network thread raises its events one by one, and a punched session has no client.
  The voice client moves by steps of its own (\<open>TeamVoice\<close>).\<close>

fun offers :: "'f backend_effect \<Rightarrow> 'f game_packet list" where
  "offers (SendPacket p) = [p]"
| "offers (BroadcastEvent p) = [p]"
| "offers (BroadcastState netid (x, y, z) yaw team animState) =
     [NodeState \<lparr>ns_netid = netid, ns_x = x, ns_y = y, ns_z = z, ns_yaw = yaw, ns_team = team, ns_animState = animState\<rparr>]"
| "offers _ = []"

definition frame_offers ::
  "'f fops \<Rightarrow> ('f, 'd) remote_env \<Rightarrow> (nat \<Rightarrow> 'f) \<Rightarrow> u64 \<Rightarrow> 'f \<Rightarrow> ('f, 'd) RemoteState \<Rightarrow> 'f game_packet list" where
  "frame_offers fl env clock now_ms deltaTime s = concat (map offers
     (fst (backend_update fl ((re_base env)\<lparr>be_isServer := False\<rparr>) clock now_ms deltaTime (rm_base s))))"

fun answers :: "'f client_packet \<Rightarrow> 'f game_packet list" where
  "answers (GamePacket (Ping p)) = [Pong \<lparr>po_timestamp = pi_timestamp p\<rparr>]"
| "answers _ = []"

inductive remote_step ::
  "'f fops \<Rightarrow> 'd opus \<Rightarrow> ('f, 'd) RemoteState \<Rightarrow> 'f game_packet list \<Rightarrow> 'f remote_effect list
     \<Rightarrow> ('f, 'd) RemoteState \<Rightarrow> bool" for fl op where
  rs_send: "remote_sendPacket env p s = (e, s') \<Longrightarrow> remote_step fl op s [p] e s'"
| rs_event: "on_session p s = (e, s') \<Longrightarrow> remote_step fl op s [p] e s'"
| rs_start: "rm_flushing s = None \<Longrightarrow> remote_start op env s = (e, s') \<Longrightarrow> remote_step fl op s [] e s'"
| rs_connected: "rm_flushing s = None \<Longrightarrow> adopt_swap op env h s = (e, s') \<Longrightarrow> remote_step fl op s [] e s'"
| rs_flush: "flush_turn s = (e, s') \<Longrightarrow> remote_step fl op s [] e s'"
| rs_lost: "remote_step fl op s [] [] (onDisconnected s)"
| rs_packet: "on_client_packet env now_ms q s = (e, s') \<Longrightarrow> remote_step fl op s (answers q) e s'"
| rs_task: "remote_step fl op s [] [] (s\<lparr>rm_base := enqueuePacket p (rm_base s)\<rparr>)"
| rs_node: "remote_step fl op s [] [] (s\<lparr>rm_base := (rm_base s)\<lparr>gb_nodes := nodes, gb_localTeam := team\<rparr>\<rparr>)"
| rs_frame: "remote_update fl env clock now_ms dt s = (e, s') \<Longrightarrow>
    remote_step fl op s (frame_offers fl env clock now_ms dt s) e s'"
| rs_voice: "team_voice_step fl op (rm_voice s) v \<Longrightarrow> remote_step fl op s [] [] (s\<lparr>rm_voice := v\<rparr>)"

inductive remote_steps ::
  "'f fops \<Rightarrow> 'd opus \<Rightarrow> ('f, 'd) RemoteState \<Rightarrow> 'f game_packet list \<Rightarrow> 'f remote_effect list
     \<Rightarrow> ('f, 'd) RemoteState \<Rightarrow> bool" for fl op s where
  steps_none: "remote_steps fl op s [] [] s"
| steps_more: "remote_steps fl op s offered seen s1 \<Longrightarrow> remote_step fl op s1 o1 e1 s2 \<Longrightarrow>
    remote_steps fl op s (offered @ o1) (seen @ e1) s2"

definition remote_init :: "'f fops \<Rightarrow> ('f, 'd) RemoteState \<Rightarrow> bool" where
  "remote_init fl s \<longleftrightarrow> (\<exists>voice port. voice_init fl voice \<and>
     ((\<exists>ip. s = remote_dialed fl voice ip port) \<or> (\<exists>h host. s = remote_punched fl voice port h host)))"

subsection \<open>Every packet is accounted for\<close>

fun sent_packet :: "'f remote_effect \<Rightarrow> 'f game_packet list" where
  "sent_packet (ToSession h p) = [p]" | "sent_packet _ = []"

fun dropped_packet :: "'f remote_effect \<Rightarrow> 'f game_packet list" where
  "dropped_packet (Discard r p) = [p]" | "dropped_packet _ = []"

definition sent :: "'f remote_effect list \<Rightarrow> 'f game_packet list" where
  "sent effects = concat (map sent_packet effects)"

definition dropped :: "'f remote_effect list \<Rightarrow> 'f game_packet list" where
  "dropped effects = concat (map dropped_packet effects)"

definition held :: "('f, 'd) RemoteState \<Rightarrow> 'f game_packet list" where
  "held s = (case rm_flushing s of None \<Rightarrow> [] | Some (h, ps) \<Rightarrow> ps) @ rm_pendingPackets s"

fun discard_ok :: "'f remote_effect \<Rightarrow> bool" where
  "discard_ok (Discard StaleKeepAlive p) = (p = KeepAlive)"
| "discard_ok (Discard BacklogFull p) = (p \<noteq> KeepAlive)"
| "discard_ok _ = True"

definition overflows :: "'f remote_effect list \<Rightarrow> bool" where
  "overflows effects = list_ex (\<lambda>e. case e of Discard BacklogFull p \<Rightarrow> True | _ \<Rightarrow> False) effects"

lemma flow_simps [simp]:
  "sent [] = []" "sent (e # es) = sent_packet e @ sent es" "sent (xs @ ys) = sent xs @ sent ys"
  "dropped [] = []" "dropped (e # es) = dropped_packet e @ dropped es" "dropped (xs @ ys) = dropped xs @ dropped ys"
  "\<not> overflows []" "overflows (xs @ ys) \<longleftrightarrow> overflows xs \<or> overflows ys"
  by (simp_all add: sent_def dropped_def overflows_def)

lemma overflows_one [simp]:
  "overflows (e # es) \<longleftrightarrow> (\<exists>p. e = Discard BacklogFull p) \<or> overflows es"
  by (cases e) (auto simp: overflows_def split: drop_reason.splits)

definition conserves :: "('f, 'd) RemoteState \<Rightarrow> 'f game_packet list \<Rightarrow> ('f, 'd) remote_act \<Rightarrow> bool" where
  "conserves s offered r \<longleftrightarrow>
     mset offered + mset (held s) = mset (sent (fst r)) + mset (dropped (fst r)) + mset (held (snd r)) \<and>
     list_all discard_ok (fst r) \<and>
     (overflows (fst r) \<longrightarrow> MAX_PENDING_PACKETS < length offered + length (held s))"

lemma conserves_size: "conserves s offered (e, s') \<Longrightarrow> length (held s') \<le> length offered + length (held s)"
  by (drule conjunct1 [OF iffD1 [OF conserves_def]], drule arg_cong [where f = size]) simp

lemma conserves_same: "held s' = held s \<Longrightarrow> conserves s [] ([], s')"
  by (simp add: conserves_def)

lemma conserves_append:
  assumes "conserves s o1 (e1, s1)" "conserves s1 o2 (e2, s2)"
  shows "conserves s (o1 @ o2) (e1 @ e2, s2)"
proof -
  have "mset (o1 @ o2) + mset (held s) = mset o2 + (mset o1 + mset (held s))" by (simp add: ac_simps)
  also have "\<dots> = mset (sent e1) + mset (dropped e1) + (mset o2 + mset (held s1))"
    using assms(1) by (simp add: conserves_def ac_simps)
  also have "\<dots> = mset (sent (e1 @ e2)) + mset (dropped (e1 @ e2)) + mset (held s2)"
    using assms(2) by (simp add: conserves_def ac_simps)
  finally show ?thesis using assms conserves_size [OF assms(1)] by (auto simp: conserves_def)
qed

lemma conserves_bind:
  assumes "conserves s o1 r" "\<And>s1. conserves s1 o2 (g s1)"
  shows "conserves s (o1 @ o2) (case r of (e, s1) \<Rightarrow> (case g s1 of (f, s2) \<Rightarrow> (e @ f, s2)))"
proof -
  obtain e s1 where r: "r = (e, s1)" by fastforce
  obtain f s2 where g: "g s1 = (f, s2)" by fastforce
  show ?thesis using conserves_append [of s o1 e s1 o2 f s2] assms(1) assms(2) [of s1] r g by simp
qed

lemma is_KeepAlive: "packet_id p = packet_id (KeepAlive :: 'f game_packet) \<longleftrightarrow> p = (KeepAlive :: 'f game_packet)"
  by (cases p) auto

lemma send_conserves: "conserves s [p] (remote_sendPacket env p s)"
  by (auto simp: remote_sendPacket_def conserves_def held_def MAX_PENDING_PACKETS_def is_KeepAlive
      simp del: packet_id.simps split: option.split)

lemma event_conserves: "conserves s [p] (on_session p s)"
  by (auto simp: on_session_def conserves_def split: option.split)

lemma perform_conserves: "conserves s (offers e) (remote_perform env e s)"
proof (cases e)
  case (BroadcastState netid pos yaw team animState)
  then show ?thesis by (cases pos) (simp add: remote_broadcastState_def event_conserves)
qed (simp_all add: send_conserves event_conserves, simp_all add: conserves_def)

lemma perform_all_conserves: "conserves s (concat (map offers es)) (remote_perform_all env es s)"
  by (induction es arbitrary: s) (simp_all add: conserves_same conserves_bind perform_conserves)

lemma held_base [simp]:
  "held (s\<lparr>rm_base := b\<rparr>) = held s" "held (s\<lparr>rm_voice := v\<rparr>) = held s" "held (s\<lparr>rm_session := h\<rparr>) = held s"
  "held (s\<lparr>rm_client := c\<rparr>) = held s"
  by (simp_all add: held_def)

lemma base_frame_conserves:
  "conserves s (frame_offers fl env clock ms dt s) (remote_base_update fl env clock ms dt s)"
proof -
  obtain effects base where b: "backend_update fl ((re_base env)\<lparr>be_isServer := False\<rparr>) clock ms dt (rm_base s) = (effects, base)"
    by fastforce
  show ?thesis
    using perform_all_conserves [of "s\<lparr>rm_base := base\<rparr>" effects env] b
    by (simp add: remote_base_update_def frame_offers_def conserves_def)
qed

lemma watch_conserves: "conserves s [] (watch_session env s)"
  by (auto simp: watch_session_def conserves_def sent_def dropped_def overflows_def list_all_iff list_ex_iff
      split: option.split prod.split)

lemma frame_conserves: "conserves s (frame_offers fl env clock ms dt s) (remote_update fl env clock ms dt s)"
  using conserves_bind [OF base_frame_conserves watch_conserves] by (simp add: remote_update_def)

lemma packet_conserves: "conserves s (answers q) (on_client_packet env ms q s)"
proof (cases q)
  case (GamePacket p)
  then show ?thesis
    by (cases p) (simp_all add: send_conserves to_queue_def conserves_same)
qed (simp_all add: conserves_same)

lemma adopt_conserves: "rm_flushing s = None \<Longrightarrow> conserves s [] (adopt_swap op env h s)"
  by (simp add: adopt_swap_def initializeVoice_def conserves_def held_def Let_def split_beta)

lemma start_conserves: "rm_flushing s = None \<Longrightarrow> conserves s [] (remote_start op env s)"
  using adopt_conserves [of "s\<lparr>rm_voice := v\<rparr>" op env for v]
  by (auto simp: remote_start_def initializeVoice_def conserves_def Let_def split_beta split: option.split)

lemma flush_conserves: "conserves s [] (flush_turn s)"
  by (auto simp: flush_turn_def conserves_def held_def split: option.split list.split)

lemma remote_step_conserves: "remote_step fl op s offered e s' \<Longrightarrow> conserves s offered (e, s')"
proof (induction rule: remote_step.induct)
  case rs_lost show ?case by (simp add: onDisconnected_def conserves_same)
qed (metis send_conserves event_conserves start_conserves adopt_conserves flush_conserves packet_conserves
     frame_conserves conserves_same held_base)+

lemma remote_steps_conserve: "remote_steps fl op s offered e s' \<Longrightarrow> conserves s offered (e, s')"
  by (induction rule: remote_steps.induct) (auto intro: conserves_same conserves_append remote_step_conserves)

definition backlog_ok :: "('f, 'd) RemoteState \<Rightarrow> bool" where
  "backlog_ok s \<longleftrightarrow> length (rm_pendingPackets s) \<le> MAX_PENDING_PACKETS \<and> KeepAlive \<notin> set (held s) \<and>
     (rm_flushing s \<noteq> None \<longrightarrow> rm_sessionadopted s)"

text \<open>What one operation does besides sending: it keeps the backlog within its bound, and notifies the
  game exactly when it sets the flag.\<close>

fun is_notice :: "'f remote_effect \<Rightarrow> bool" where
  "is_notice (Game e) = is_OnDisconnected e" | "is_notice _ = False"

definition remote_notices :: "'f remote_effect list \<Rightarrow> nat" where
  "remote_notices effects = length (filter is_notice effects)"

definition notified :: "('f, 'd) RemoteState \<Rightarrow> bool" where
  "notified s = gb_disconnectNotified (rm_base s)"

definition disconnect_due :: "('f, 'd) RemoteState \<Rightarrow> bool" where
  "disconnect_due s \<longleftrightarrow> notified s \<or> TaskDisconnected \<in> set (gb_tasks (rm_base s))"

lemma remote_notices_simps [simp]:
  "remote_notices [] = 0" "remote_notices (e # es) = of_bool (is_notice e) + remote_notices es"
  "remote_notices (xs @ ys) = remote_notices xs + remote_notices ys"
  by (simp_all add: remote_notices_def)

lemma send_fields:
  "rm_base (snd (remote_sendPacket env p s)) = rm_base s" "rm_session (snd (remote_sendPacket env p s)) = rm_session s"
  "rm_sessionadopted (snd (remote_sendPacket env p s)) = rm_sessionadopted s"
  "rm_flushing (snd (remote_sendPacket env p s)) = rm_flushing s" "rm_voice (snd (remote_sendPacket env p s)) = rm_voice s"
  "remote_notices (fst (remote_sendPacket env p s)) = 0"
  "backlog_ok s \<Longrightarrow> backlog_ok (snd (remote_sendPacket env p s))"
  by (auto simp: remote_sendPacket_def backlog_ok_def held_def is_KeepAlive simp del: packet_id.simps split: option.split)

lemma event_fields: "snd (on_session p s) = s" "remote_notices (fst (on_session p s)) = 0"
  by (auto simp: on_session_def split: option.split)

lemma perform_fields:
  "rm_base (snd (remote_perform env e s)) = rm_base s" "rm_session (snd (remote_perform env e s)) = rm_session s"
  "rm_sessionadopted (snd (remote_perform env e s)) = rm_sessionadopted s"
  "rm_flushing (snd (remote_perform env e s)) = rm_flushing s" "rm_voice (snd (remote_perform env e s)) = rm_voice s"
  "remote_notices (fst (remote_perform env e s)) = of_bool (is_OnDisconnected e)"
  "backlog_ok s \<Longrightarrow> backlog_ok (snd (remote_perform env e s))"
  by (cases e; auto simp: send_fields event_fields remote_broadcastState_def split: prod.split)+

lemma perform_all_fields:
  "rm_base (snd (remote_perform_all env es s)) = rm_base s \<and> rm_session (snd (remote_perform_all env es s)) = rm_session s \<and>
   rm_sessionadopted (snd (remote_perform_all env es s)) = rm_sessionadopted s \<and>
   rm_flushing (snd (remote_perform_all env es s)) = rm_flushing s \<and>
   rm_voice (snd (remote_perform_all env es s)) = rm_voice s \<and>
   remote_notices (fst (remote_perform_all env es s)) = notices es \<and>
   (backlog_ok s \<longrightarrow> backlog_ok (snd (remote_perform_all env es s)))"
  by (induction es arbitrary: s) (auto simp: split_beta perform_fields)

lemma backlog_ok_upd [simp]:
  "backlog_ok (s\<lparr>rm_base := b\<rparr>) = backlog_ok s" "backlog_ok (s\<lparr>rm_voice := v\<rparr>) = backlog_ok s"
  "backlog_ok (s\<lparr>rm_session := h\<rparr>) = backlog_ok s" "backlog_ok (s\<lparr>rm_client := c\<rparr>) = backlog_ok s"
  by (simp_all add: backlog_ok_def)

lemma base_frame_fields:
  assumes "remote_base_update fl env clock ms dt s = (e, s')"
  shows "rm_session s' = rm_session s \<and> rm_sessionadopted s' = rm_sessionadopted s \<and> rm_flushing s' = rm_flushing s \<and>
    rm_voice s' = rm_voice s \<and> (backlog_ok s \<longrightarrow> backlog_ok s') \<and>
    rm_base s' = snd (backend_update fl ((re_base env)\<lparr>be_isServer := False\<rparr>) clock ms dt (rm_base s)) \<and>
    of_bool (notified s) + remote_notices e = of_bool (notified s')"
proof -
  obtain effects base where b: "backend_update fl ((re_base env)\<lparr>be_isServer := False\<rparr>) clock ms dt (rm_base s) = (effects, base)"
    by fastforce
  have "of_bool (gb_disconnectNotified (rm_base s)) + notices effects = of_bool (gb_disconnectNotified base)"
    using backend_update_notify [of "rm_base s" fl "(re_base env)\<lparr>be_isServer := False\<rparr>" clock ms dt] b
    by (simp add: notices_are_flag_def)
  then show ?thesis
    using perform_all_fields [of env effects "s\<lparr>rm_base := base\<rparr>"] assms b
    by (simp add: remote_base_update_def notified_def)
qed

lemma run_tasks_notified:
  "TaskDisconnected \<in> set tasks \<or> gb_disconnectNotified s \<Longrightarrow> gb_disconnectNotified (snd (run_tasks tasks s))"
proof (induction tasks arbitrary: s)
  case (Cons t tasks)
  have "TaskDisconnected \<in> set tasks \<or> gb_disconnectNotified (snd (run_task t s))"
    using Cons.prems by (cases t) (auto simp: Let_def)
  then show ?case using Cons.IH by (auto simp: split_beta)
qed simp

lemma notified_monotone: "notices_are_flag s r \<Longrightarrow> gb_disconnectNotified s \<Longrightarrow> gb_disconnectNotified (snd r)"
  by (cases "gb_disconnectNotified (snd r)") (auto simp: notices_are_flag_def)

lemma backend_update_notifies:
  assumes "TaskDisconnected \<in> set (gb_tasks s) \<or> gb_disconnectNotified s"
  shows "gb_disconnectNotified (snd (backend_update fl env clock ms dt s))"
proof -
  obtain r s1 where r: "receive_all fl env (zip (gb_packetQueue s) (map clock [0..<length (gb_packetQueue s)]))
      (s\<lparr>gb_packetQueue := [], gb_tasks := []\<rparr>) = (r, s1)" by fastforce
  have "gb_disconnectNotified s \<Longrightarrow> gb_disconnectNotified s1"
    using notified_monotone [OF receive_all_notify [of "s\<lparr>gb_packetQueue := [], gb_tasks := []\<rparr>" fl env
        "zip (gb_packetQueue s) (map clock [0..<length (gb_packetQueue s)])"]] r by simp
  then have "gb_disconnectNotified (snd (run_tasks (gb_tasks s) s1))" using assms by (auto intro: run_tasks_notified)
  then have d: "gb_disconnectNotified (snd (drain_queues fl env clock s))"
    using r by (simp add: drain_queues_def Let_def split_beta)
  show ?thesis using notified_monotone [OF frame_tail_notify d]
    by (simp add: backend_update_def split_beta)
qed

lemma watch_fields:
  assumes "watch_session env s = (e, s')"
  shows "notified s' = notified s \<and> remote_notices e = 0 \<and> (backlog_ok s \<longrightarrow> backlog_ok s') \<and>
    (disconnect_due s \<longrightarrow> disconnect_due s') \<and>
    (live_session (re_alive env) s = None \<and> rm_sessionadopted s \<longrightarrow> disconnect_due s') \<and>
    (rm_voice s' = rm_voice s \<or> team_voice_step fl op (rm_voice s) (rm_voice s'))"
proof (cases "live_session (re_alive env) s")
  case None
  then show ?thesis using assms
    by (auto simp: watch_session_def notified_def disconnect_due_def notifyDisconnected_def runOnMainThread_def
        split: if_splits)
next
  case (Some h)
  obtain sent v where v: "voice_updateNetwork (re_alive env h) (re_zdt env h) (re_takes env) (rm_voice s) = (sent, v)"
    by fastforce
  have "remote_notices (map (\<lambda>(packet, ok). VoiceTo h packet) sent) = 0"
    by (auto simp: remote_notices_def filter_empty_conv)
  moreover have "team_voice_step fl op (rm_voice s) v" using tv_network [of fl op "rm_voice s"] v by (metis snd_conv)
  ultimately show ?thesis using assms Some v
    by (auto simp: watch_session_def notified_def disconnect_due_def)
qed

lemma frame_fields:
  assumes "remote_update fl env clock ms dt s = (e, s')"
  shows "of_bool (notified s) + remote_notices e = of_bool (notified s') \<and> (backlog_ok s \<longrightarrow> backlog_ok s') \<and>
    (disconnect_due s \<longrightarrow> notified s') \<and>
    (live_session (re_alive env) s = None \<and> rm_sessionadopted s \<longrightarrow> disconnect_due s') \<and>
    (rm_voice s' = rm_voice s \<or> team_voice_step fl op (rm_voice s) (rm_voice s'))"
proof -
  obtain e1 s1 where b: "remote_base_update fl env clock ms dt s = (e1, s1)" by fastforce
  obtain e2 where w: "watch_session env s1 = (e2, s')" "e = e1 @ e2"
    using assms b by (auto simp: remote_update_def split: prod.splits)
  note base = base_frame_fields [OF b]
  have "disconnect_due s \<longrightarrow> notified s1"
    using base backend_update_notifies [of "rm_base s" fl "(re_base env)\<lparr>be_isServer := False\<rparr>" clock ms dt]
    by (auto simp: disconnect_due_def notified_def)
  moreover have "live_session (re_alive env) s1 = live_session (re_alive env) s" using base by (simp add: live_session_def)
  ultimately show ?thesis using base watch_fields [OF w(1), of fl op] w(2) by auto
qed

definition remote_inv :: "'f fops \<Rightarrow> 'd opus \<Rightarrow> ('f, 'd) RemoteState \<Rightarrow> bool" where
  "remote_inv fl op s \<longleftrightarrow> backlog_ok s \<and> reachable (voice_init fl) (team_voice_step fl op) (rm_voice s)"

text \<open>What every step does to the notices, to a disconnect that is due, and to the invariant.\<close>

definition orderly :: "'f fops \<Rightarrow> 'd opus \<Rightarrow> ('f, 'd) RemoteState \<Rightarrow> ('f, 'd) remote_act \<Rightarrow> bool" where
  "orderly fl op s r \<longleftrightarrow> of_bool (notified s) + remote_notices (fst r) = of_bool (notified (snd r)) \<and>
     (disconnect_due s \<longrightarrow> disconnect_due (snd r)) \<and> (remote_inv fl op s \<longrightarrow> remote_inv fl op (snd r))"

lemma orderly_same_base:
  assumes "rm_base s' = rm_base s" "remote_notices e = 0" "backlog_ok s \<Longrightarrow> backlog_ok s'"
    "rm_voice s' = rm_voice s \<or> team_voice_step fl op (rm_voice s) (rm_voice s')"
  shows "orderly fl op s (e, s')"
  using assms by (auto simp: orderly_def notified_def disconnect_due_def remote_inv_def intro: reach_step)

lemma orderly_send: "orderly fl op s (remote_sendPacket env p s)"
  using orderly_same_base [of "snd (remote_sendPacket env p s)" s "fst (remote_sendPacket env p s)"] send_fields
  by (metis prod.collapse)

lemma orderly_event: "orderly fl op s (on_session p s)"
  using orderly_same_base [of "snd (on_session p s)" s "fst (on_session p s)"] event_fields
  by (metis prod.collapse)

lemma orderly_adopt: "rm_flushing s = None \<Longrightarrow> orderly fl op s (adopt_swap op env h s)"
  using tv_init [of fl op "rm_voice s" "re_device env"]
  by (auto simp: adopt_swap_def initializeVoice_def Let_def split_beta backlog_ok_def held_def MAX_PENDING_PACKETS_def
      intro!: orderly_same_base)

lemma orderly_trans:
  "orderly fl op s (e1, s1) \<Longrightarrow> orderly fl op s1 (e2, s2) \<Longrightarrow> orderly fl op s (e1 @ e2, s2)"
  by (auto simp: orderly_def)

lemma orderly_start: "rm_flushing s = None \<Longrightarrow> orderly fl op s (remote_start op env s)"
proof -
  assume f: "rm_flushing s = None"
  define s1 where "s1 = s\<lparr>rm_voice := snd (voice_initialize op (re_device env) (rm_voice s))\<rparr>"
  have s1: "snd (initializeVoice op env s) = s1" by (simp add: s1_def initializeVoice_def split_beta Let_def)
  have one: "orderly fl op s ([], s1)" unfolding s1_def
    by (rule orderly_same_base) (auto intro: tv_init)
  have "orderly fl op s1 (adopt_swap op env h s1)" for h by (rule orderly_adopt) (simp add: s1_def f)
  with orderly_trans [OF one, of "fst (adopt_swap op env h s1)" "snd (adopt_swap op env h s1)" for h]
  have a: "orderly fl op s (adopt_swap op env h s1)" for h by simp
  have d: "orderly fl op s ([Dial (rm_serverip s1) (rm_port s1)], s1\<lparr>rm_client := True\<rparr>)"
    unfolding s1_def by (rule orderly_same_base) (auto intro: tv_init)
  show ?thesis using a d by (simp add: remote_start_def s1 Let_def split: option.split)
qed

lemma orderly_base:
  assumes "gb_disconnectNotified b = notified s" "set (gb_tasks (rm_base s)) \<subseteq> set (gb_tasks b)"
  shows "orderly fl op s ([], s\<lparr>rm_base := b\<rparr>)"
  using assms by (auto simp: orderly_def notified_def disconnect_due_def remote_inv_def)

lemma orderly_flush: "orderly fl op s (flush_turn s)"
proof (cases "rm_flushing s")
  case None
  then show ?thesis using orderly_same_base [of s s "[]" fl op] by (simp add: flush_turn_def)
next
  case (Some hp)
  obtain h ps where hp: "hp = (h, ps)" by (cases hp)
  show ?thesis
  proof (cases ps)
    case Nil
    then show ?thesis using Some hp
      by (auto simp: flush_turn_def orderly_def notified_def disconnect_due_def remote_inv_def notifyConnected_def
          runOnMainThread_def backlog_ok_def held_def)
  next
    case (Cons p ps')
    then show ?thesis using Some hp by (auto simp: flush_turn_def backlog_ok_def held_def intro!: orderly_same_base)
  qed
qed

lemma orderly_packet: "orderly fl op s (on_client_packet env ms q s)"
proof (cases q)
  case (GamePacket p)
  have "orderly fl op s (to_queue p s)" for p
    unfolding to_queue_def by (rule orderly_base) (simp_all add: enqueuePacket_def notified_def)
  moreover have "orderly fl op s ([], s\<lparr>rm_base := onPongReceived ms t (rm_base s)\<rparr>)" for t
    by (rule orderly_base) (simp_all add: onPongReceived_def notified_def Let_def)
  moreover have "orderly fl op s ([], s)" by (rule orderly_same_base) simp_all
  ultimately show ?thesis using GamePacket by (cases p) (simp_all add: orderly_send)
next
  case (VoiceSessionPacket p)
  then show ?thesis using tv_session [of fl op "rm_voice s" p] by (auto intro!: orderly_same_base)
next
  case (VoicePacket p)
  then show ?thesis using tv_voice [of fl op "rm_voice s" p] by (auto intro!: orderly_same_base)
next
  case UnknownPacket
  then show ?thesis by (auto intro: orderly_same_base)
qed

lemma orderly_frame: "orderly fl op s (remote_update fl env clock ms dt s)"
proof -
  obtain e s' where u: "remote_update fl env clock ms dt s = (e, s')" by fastforce
  note f = frame_fields [OF u, of op]
  then have "remote_inv fl op s \<longrightarrow> remote_inv fl op s'"
    by (auto simp: remote_inv_def intro: reach_step)
  then show ?thesis using f u by (simp add: orderly_def) (simp add: disconnect_due_def)
qed

lemma remote_step_orderly: "remote_step fl op s offered e s' \<Longrightarrow> orderly fl op s (e, s')"
proof (induction rule: remote_step.induct)
  case (rs_lost s)
  have "orderly fl op s ([], s\<lparr>rm_session := None\<rparr>)" by (rule orderly_same_base) simp_all
  moreover have "orderly fl op (s\<lparr>rm_session := None\<rparr>) ([], onDisconnected s)"
    unfolding onDisconnected_def Let_def
    by (rule orderly_base) (simp_all add: notified_def notifyDisconnected_def runOnMainThread_def, blast)
  ultimately show ?case using orderly_trans by fastforce
next
  case (rs_task s p)
  show ?case by (rule orderly_base) (simp_all add: enqueuePacket_def notified_def)
next
  case (rs_node s nodes team)
  show ?case by (rule orderly_base) (simp_all add: notified_def)
next
  case (rs_voice s v)
  then show ?case by (auto intro: orderly_same_base)
qed (metis orderly_send orderly_event orderly_start orderly_adopt orderly_flush orderly_packet orderly_frame)+

lemma remote_steps_orderly: "remote_steps fl op s offered e s' \<Longrightarrow> orderly fl op s (e, s')"
  by (induction rule: remote_steps.induct)
    (auto intro: orderly_same_base orderly_trans remote_step_orderly)

lemma remote_init_inv:
  assumes "remote_init fl s" shows "remote_inv fl op s \<and> held s = [] \<and> \<not> notified s"
proof -
  obtain voice port where v: "voice_init fl voice"
      "(\<exists>ip. s = remote_dialed fl voice ip port) \<or> (\<exists>h host. s = remote_punched fl voice port h host)"
    using assms unfolding remote_init_def by blast
  have "reachable (voice_init fl) (team_voice_step fl op) voice" by (rule reach_init) (rule v(1))
  with v(2) show ?thesis
    by (auto simp: remote_inv_def backlog_ok_def held_def remote_punched_def remote_dialed_def notified_def backend_state_def)
qed

text \<open>C33. Whatever the threads of a client do and in whichever order, every packet it was given to send has, exactly
  once, gone to a session, been dropped, or is still held. The backlog never exceeds 256 packets and
  never holds a keepalive; the only packets dropped are keepalives that found no ready session,
  events and states that found no session, and packets that found the backlog full, which takes more
  than 256 of them.\<close>

theorem remote_packets_once:
  assumes "remote_init fl s0" "remote_steps fl op s0 offered seen s"
  shows "mset offered = mset (sent seen) + mset (dropped seen) + mset (held s) \<and>
    length (rm_pendingPackets s) \<le> MAX_PENDING_PACKETS \<and> KeepAlive \<notin> set (held s) \<and> list_all discard_ok seen \<and>
    (overflows seen \<longrightarrow> MAX_PENDING_PACKETS < length offered)"
proof -
  have "remote_inv fl op s"
    using remote_steps_orderly [OF assms(2)] remote_init_inv [OF assms(1)] by (simp add: orderly_def)
  then show ?thesis
    using remote_steps_conserve [OF assms(2)] remote_init_inv [OF assms(1)]
    by (simp add: conserves_def remote_inv_def backlog_ok_def)
qed

text \<open>C34. When the session a client has adopted is gone or dead at a frame, the game has heard of the lost
  connection exactly once after any later frame, whatever the threads did before and between.\<close>

theorem remote_loss_reported:
  assumes "remote_init fl s0" "remote_steps fl op s0 offered before s" "rm_sessionadopted s"
    "live_session (re_alive env) s = None" "remote_update fl env clock ms dt s = (first, s1)"
    "remote_steps fl op s1 offered' between s2" "remote_update fl env' clock' ms' dt' s2 = (second, s3)"
  shows "remote_notices (before @ first @ between @ second) = 1"
proof -
  have "of_bool (notified s0) + remote_notices before = of_bool (notified s)"
      "of_bool (notified s1) + remote_notices between = of_bool (notified s2)"
      "disconnect_due s1 \<Longrightarrow> disconnect_due s2"
    using remote_steps_orderly [OF assms(2)] remote_steps_orderly [OF assms(6)] by (simp_all add: orderly_def)
  moreover have "disconnect_due s1" "of_bool (notified s) + remote_notices first = of_bool (notified s1)"
    using frame_fields [OF assms(5)] assms(3,4) by simp_all
  moreover have "of_bool (notified s2) + remote_notices second = of_bool (notified s3)"
      "disconnect_due s2 \<Longrightarrow> notified s3"
    using frame_fields [OF assms(7)] by simp_all
  ultimately show ?thesis using remote_init_inv [OF assms(1)] by (simp add: ac_simps)
qed

subsection \<open>Adoption\<close>

text \<open>Left alone, an adoption sends the backlog whole and in order before it reports the connection.\<close>

lemma flush_turns_all:
  "rm_flushing s = Some (h, ps) \<Longrightarrow> flush_turns (length ps + 1) s =
     (map (ToSession h) ps, s\<lparr>rm_flushing := None, rm_base := notifyConnected (rm_base s)\<rparr>)"
proof (induction ps arbitrary: s)
  case (Cons p ps)
  let ?s = "s\<lparr>rm_flushing := Some (h, ps)\<rparr>"
  have "flush_turn s = ([ToSession h p], ?s)" using Cons.prems by (simp add: flush_turn_def)
  then show ?case using Cons.IH [of ?s] by simp
qed (simp add: flush_turn_def)

lemma adoption_sends_backlog:
  "fst (adoptSession_whole op env h s) = Wire h # map (ToSession h) (rm_pendingPackets s) \<and>
   gb_tasks (rm_base (snd (adoptSession_whole op env h s))) = gb_tasks (rm_base s) @ [TaskConnected]"
proof -
  obtain e s1 where a: "adopt_swap op env h s = (e, s1)" by fastforce
  then have "e = [Wire h]" "rm_flushing s1 = Some (h, rm_pendingPackets s)" "rm_base s1 = rm_base s"
    by (auto simp: adopt_swap_def initializeVoice_def Let_def split_beta)
  then show ?thesis using flush_turns_all [of s1] a
    by (simp add: adoptSession_whole_def notifyConnected_def runOnMainThread_def)
qed

text \<open>The session is in place before the backlog is sent: a packet the main thread sends meanwhile
  overtakes the queued ones.\<close>

definition plain_device :: "nat device_env" where
  "plain_device = \<lparr>de_list = None, de_context = False, de_init = (\<lambda>_ _ _. None), de_start = None, de_codec = None\<rparr>"

definition example_client_state :: "(rat, nat) RemoteState" where
  "example_client_state = remote_dialed rat_fops (team_voice rat_fops plain_device example_audio_config) ''h'' 25000"

definition example_remote_env :: "bool \<Rightarrow> (rat, nat) remote_env" where
  "example_remote_env alive = \<lparr>re_base = \<lparr>be_isServer = False, be_localNodeId = 1, be_lobbyTeamSize = 2, be_onjoin = (\<lambda>_ m. m)\<rparr>,
     re_device = plain_device, re_alive = (\<lambda>_. alive), re_ready = (\<lambda>_. alive), re_zdt = (\<lambda>_. True), re_takes = (\<lambda>_ _. True)\<rparr>"

definition example_toggle :: "rat game_packet" where
  "example_toggle = ToggleReady \<lparr>tr_senderId = 1\<rparr>"

lemma example_client_init: "remote_init rat_fops example_client_state"
  unfolding remote_init_def example_client_state_def voice_init_def by blast

lemma backlog_overtaken:
  "\<exists>s. remote_steps rat_fops example_opus example_client_state [StartMatch, example_toggle]
     [Wire 7, ToSession 7 example_toggle, ToSession 7 StartMatch] s \<and> rm_session s = Some 7 \<and>
     rm_sessionadopted s \<and> held s = []"
proof -
  let ?env = "example_remote_env True"
  define s1 where "s1 = snd (remote_sendPacket ?env StartMatch example_client_state)"
  define s2 where "s2 = snd (adopt_swap example_opus ?env 7 s1)"
  define s3 where "s3 = snd (flush_turn s2)"
  have 1: "remote_sendPacket ?env StartMatch example_client_state = ([], s1)"
    by (simp add: s1_def remote_sendPacket_def live_session_def example_client_state_def remote_dialed_def MAX_PENDING_PACKETS_def)
  then have s1: "rm_pendingPackets s1 = [StartMatch]" "rm_flushing s1 = None"
    by (auto simp: remote_sendPacket_def live_session_def example_client_state_def remote_dialed_def MAX_PENDING_PACKETS_def)
  have 2: "adopt_swap example_opus ?env 7 s1 = ([Wire 7], s2)"
    by (simp add: s2_def adopt_swap_def Let_def)
  then have s2: "rm_flushing s2 = Some (7, [StartMatch])" "rm_session s2 = Some 7" "rm_sessionadopted s2"
      "rm_pendingPackets s2 = []"
    using s1 by (auto simp: adopt_swap_def initializeVoice_def Let_def split_beta)
  have 3: "remote_sendPacket ?env example_toggle s2 = ([ToSession 7 example_toggle], s2)"
    using s2 by (simp add: remote_sendPacket_def live_session_def example_remote_env_def)
  have 4: "flush_turn s2 = ([ToSession 7 StartMatch], s3)" using s2 by (simp add: s3_def flush_turn_def)
  have "remote_steps rat_fops example_opus example_client_state ([] @ [StartMatch]) ([] @ []) s1"
    by (rule steps_more [OF steps_none rs_send [OF 1]])
  from steps_more [OF this rs_connected [OF s1(2) 2]]
  have "remote_steps rat_fops example_opus example_client_state [StartMatch] [Wire 7] s2" by simp
  from steps_more [OF steps_more [OF this rs_send [OF 3]] rs_flush [OF 4]]
  have "remote_steps rat_fops example_opus example_client_state [StartMatch, example_toggle]
     [Wire 7, ToSession 7 example_toggle, ToSession 7 StartMatch] s3" by simp
  moreover have "rm_session s3 = Some 7 \<and> rm_sessionadopted s3 \<and> held s3 = []"
    using s2 by (simp add: s3_def flush_turn_def held_def)
  ultimately show ?thesis by blast
qed

theorem remote_packets_once_witness:
  "\<exists>s :: (rat, nat) RemoteState. mset [StartMatch, example_toggle] = mset [example_toggle, StartMatch] + mset (held s) \<and>
     length (rm_pendingPackets s) \<le> MAX_PENDING_PACKETS"
proof -
  obtain s where "remote_steps rat_fops example_opus example_client_state [StartMatch, example_toggle]
      [Wire 7, ToSession 7 example_toggle, ToSession 7 StartMatch] s"
    using backlog_overtaken by blast
  from remote_packets_once [OF example_client_init this] show ?thesis by (intro exI [of _ s]) simp
qed

theorem remote_loss_reported_witness:
  "\<exists>first second (s :: (rat, nat) RemoteState) s1 s3. rm_session s = Some 7 \<and>
     remote_update rat_fops (example_remote_env False) (\<lambda>_. 0) 0 0 s = (first, s1) \<and>
     remote_update rat_fops (example_remote_env True) (\<lambda>_. 0) 0 0 s1 = (second, s3) \<and>
     remote_notices (first @ second) = 1"
proof -
  obtain s where s: "remote_steps rat_fops example_opus example_client_state [StartMatch, example_toggle]
      [Wire 7, ToSession 7 example_toggle, ToSession 7 StartMatch] s" "rm_session s = Some 7" "rm_sessionadopted s"
    using backlog_overtaken by blast
  have dead: "live_session (re_alive (example_remote_env False)) s = None"
    using s(2) by (simp add: live_session_def example_remote_env_def)
  obtain first s1 where 1: "remote_update rat_fops (example_remote_env False) (\<lambda>_. 0) 0 0 s = (first, s1)" by fastforce
  obtain second s3 where 2: "remote_update rat_fops (example_remote_env True) (\<lambda>_. 0) 0 0 s1 = (second, s3)" by fastforce
  from remote_loss_reported [OF example_client_init s(1,3) dead 1 steps_none 2]
  have "remote_notices (first @ second) = 1" by simp
  with 1 2 s(2) show ?thesis by blast
qed

end
