(* ===== verification/MasterServer.thy ===== *)
theory MasterServer
  imports MasterRegistry
begin

section \<open>The master server\<close>

text \<open>
  \<open>gMasterPacketHandler\<close> and \<open>gMasterServerApp\<close> of \<open>master/MasterMain.cpp\<close> put together: which
  handler takes which packet, and the server as a system of steps, each a packet of some session or
  a frame. The handlers of the list hold one mutex and those of the limiter another; a step is a
  whole handler.
\<close>

record ('f, 'c) MasterState =
  ma_accounts :: AccountState
  ma_broker :: "('f, 'c) BrokerState"

record 'c master_env =
  mn_broker :: "'c broker_env"
  mn_sql :: sql_env
  mn_now :: int

text \<open>\<open>None\<close> is a null address dereferenced in the handler of a punch request. Packets without a handler
  go to \<open>OnUnknown\<close>.\<close>

fun on_master_packet ::
  "'f fops \<Rightarrow> crypto \<Rightarrow> 'c master_env \<Rightarrow> nat \<Rightarrow> ('f, 'c, nat) master_packet \<Rightarrow> ('f, 'c) MasterState
     \<Rightarrow> (('f, 'c) broker_sends \<times> ('f, 'c) MasterState) option" where
  "on_master_packet fl cr env session (MRegister p) s =
     (let (out, br) = on_register fl (mn_broker env) session p (ma_broker s) in Some (out, s\<lparr>ma_broker := br\<rparr>))"
| "on_master_packet fl cr env session (MHeartbeat p) s =
     Some ([], s\<lparr>ma_broker := on_heartbeat fl (mn_broker env) session p (ma_broker s)\<rparr>)"
| "on_master_packet fl cr env session (MGetList p) s =
     Some (on_get_list (mn_broker env) session p (ma_broker s), s)"
| "on_master_packet fl cr env session (MPunchReq p) s =
     map_option (\<lambda>out. (out, s)) (on_punch_request (mn_broker env) session p (ma_broker s))"
| "on_master_packet fl cr env session (MQueryRoom p) s = Some (on_query_room session p (ma_broker s), s)"
| "on_master_packet fl cr env session (MUserRegister p) s =
     (let (r, ac) = on_user_register cr (mn_sql env) p (ma_accounts s)
      in Some ([(session, MUserRegisterRes r)], s\<lparr>ma_accounts := ac\<rparr>))"
| "on_master_packet fl cr env session (MUserLogin p) s =
     (let clientIp = before_colon (bw_remote (mn_broker env) session);
          (r, ac) = on_user_login cr (mn_sql env) (mn_now env) clientIp p (ma_accounts s)
      in Some ([(session, MUserLoginRes r)], s\<lparr>ma_accounts := ac\<rparr>))"
| "on_master_packet fl cr env session (MTokenLogin p) s =
     (let (r, ac) = on_token_login cr (mn_sql env) p (ma_accounts s)
      in Some ([(session, MUserLoginRes r)], s\<lparr>ma_accounts := ac\<rparr>))"
| "on_master_packet fl cr env session (MLogout p) s =
     Some ([], s\<lparr>ma_accounts := on_user_logout cr (mn_sql env) p (ma_accounts s)\<rparr>)"
| "on_master_packet fl cr env session _ s = Some ([], s)"

definition master_update ::
  "'f fops \<Rightarrow> 'c master_env \<Rightarrow> 'f \<Rightarrow> ('f, 'c) MasterState \<Rightarrow> ('f, 'c) MasterState" where
  "master_update fl env deltaTime s = s\<lparr>ma_broker := broker_update fl (mn_broker env) deltaTime (ma_broker s)\<rparr>"

definition master_start :: "sql_env \<Rightarrow> Database option option \<Rightarrow> nat \<Rightarrow> nat \<Rightarrow> ('f, 'c) MasterState" where
  "master_start env opened rand gen =
     \<lparr>ma_accounts = \<lparr>ac_db = open_database env opened, ac_tracker = [], ac_rand = rand\<rparr>,
      ma_broker = \<lparr>br_serverList = [], br_gen = gen\<rparr>\<rparr>"

subsection \<open>The invariant of the server\<close>

definition broker_ok :: "'c cand_ops \<Rightarrow> ('f, 'c) BrokerState \<Rightarrow> bool" where
  "broker_ok co s \<longleftrightarrow> registry_ok s \<and>
     list_all (\<lambda>x. addressed co (si_candidates x) \<and> si_hostSession x \<noteq> None) (br_serverList s)"

definition master_ok :: "'c cand_ops \<Rightarrow> ('f, 'c) MasterState \<Rightarrow> bool" where
  "master_ok co s \<longleftrightarrow> broker_ok co (ma_broker s) \<and> db_ok (ma_accounts s)"

text \<open>The environment of a step, and a packet as znet's reader of candidates hands it over.\<close>

definition env_ok :: "'c cand_ops \<Rightarrow> 'c master_env \<Rightarrow> bool" where
  "env_ok co env \<longleftrightarrow> bw_cand (mn_broker env) = co \<and>
     (\<forall>r. relay_offer (mn_broker env) = Some r \<longrightarrow> cn_address co r \<noteq> None)"

fun packet_ok :: "'c cand_ops \<Rightarrow> ('f, 'c, 's) master_packet \<Rightarrow> bool" where
  "packet_ok co (MRegister p) = addressed co (mi_candidates p)"
| "packet_ok co (MPunchReq p) = addressed co (mp_candidates p)"
| "packet_ok co _ = True"

inductive master_step ::
  "'f fops \<Rightarrow> crypto \<Rightarrow> 'c cand_ops \<Rightarrow> ('f, 'c) MasterState \<Rightarrow> ('f, 'c) MasterState \<Rightarrow> bool"
  for fl :: "'f fops" and cr :: crypto and co :: "'c cand_ops" where
  packet: "env_ok co env \<Longrightarrow> packet_ok co packet \<Longrightarrow> on_master_packet fl cr env session packet s = Some (out, s') \<Longrightarrow>
    master_step fl cr co s s'"
| frame: "env_ok co env \<Longrightarrow> master_step fl cr co s (master_update fl env dt s)"

inductive_cases master_stepE: "master_step fl cr co s s'"

definition master_init :: "('f, 'c) MasterState \<Rightarrow> bool" where
  "master_init s \<longleftrightarrow> (\<exists>env opened rand gen. s = master_start env opened rand gen \<and>
     (\<forall>db. opened = Some (Some db) \<longrightarrow> accounts_wf db))"

lemma list_all_update_first:
  "list_all P xs \<Longrightarrow> (\<And>x. P x \<Longrightarrow> P (f x)) \<Longrightarrow> list_all P (update_first Q f xs)"
  by (induction xs) auto

lemma list_all_age:
  "list_all P xs \<Longrightarrow> (\<And>x h. P x \<Longrightarrow> P (x\<lparr>si_lastHeartbeat := h\<rparr>)) \<Longrightarrow> list_all P (age_servers fl w dt xs)"
  by (induction xs) (auto simp: aged_def Let_def split: option.split)

lemma register_broker_ok:
  "broker_ok co s \<Longrightarrow> addressed co (mi_candidates p) \<Longrightarrow> broker_ok co (snd (on_register fl w session p s))"
  using broker_step_ok [of s fl w "Register session p"] unfolding broker_ok_def
  by (auto simp: on_register_list Let_def new_entry_def refresh_entry_def intro!: list_all_update_first)

lemma heartbeat_broker_ok: "broker_ok co s \<Longrightarrow> broker_ok co (on_heartbeat fl w session p s)"
  using broker_step_ok [of s fl w "Heartbeat session p"] unfolding broker_ok_def
  by (auto simp: on_heartbeat_def intro!: list_all_update_first)

lemma update_broker_ok: "broker_ok co s \<Longrightarrow> broker_ok co (broker_update fl w dt s)"
  using broker_step_ok [of s fl w "Frame dt"] unfolding broker_ok_def
  by (auto simp: broker_update_def intro!: list_all_age)

lemmas broker_oks = register_broker_ok heartbeat_broker_ok update_broker_ok
lemmas account_oks = login_ok register_ok token_login_ok logout_ok

lemma master_packet_ok:
  assumes "master_ok co s" "packet_ok co packet" "on_master_packet fl cr env session packet s = Some (out, s')"
  shows "master_ok co s'"
  using assms
  by (cases packet) (auto simp: master_ok_def split_beta Let_def broker_oks account_oks)

lemma master_init_ok: "master_init s \<Longrightarrow> master_ok co s"
  using prune_ok accounts_wf_fresh
  by (fastforce simp: master_init_def master_start_def master_ok_def broker_ok_def registry_ok_def db_ok_def
      open_database_def split: option.split)

interpretation master: step_system master_init "master_step fl cr co" "master_ok co"
proof unfold_locales
  fix s s' assume "master_ok co s" "master_step fl cr co s s'"
  then show "master_ok co s'"
    by (auto elim!: master_stepE intro: master_packet_ok simp: master_update_def)
      (simp add: master_ok_def update_broker_ok)
qed (rule master_init_ok)

lemma punch_no_crash:
  assumes "cand_ops_ok co" "env_ok co env" "addressed co (mp_candidates p)" "broker_ok co s"
  shows "\<exists>out. on_punch_request (mn_broker env) session p s = Some out \<and>
    (out = [] \<or> map (master_id \<circ> snd) out = [306, 306]) \<and>
    (\<forall>q \<in> set out. master_wf (\<lambda>cs. length cs \<le> cn_max co) (snd q)) \<and>
    fst ` set out \<subseteq> {session} \<union> {h. \<exists>x \<in> set (br_serverList s). live_host (mn_broker env) x = Some h}"
proof -
  have co: "bw_cand (mn_broker env) = co" and relay: "\<forall>r. relay_offer (mn_broker env) = Some r \<longrightarrow> cn_address co r \<noteq> None"
    using assms(2) by (auto simp: env_ok_def)
  note offer = offer_logged [OF assms(1) _ relay]
  show ?thesis
  proof (cases "punch_target (mp_targetIdentifier p) (br_serverList s)")
    case (Some x)
    then have x: "x \<in> set (br_serverList s)" using find_SomeD by (fastforce simp: punch_target_def)
    then have "addressed co (si_candidates x)" using assms(4) by (auto simp: broker_ok_def list_all_iff)
    moreover obtain host port where "snd (SplitHostPort (si_ip x) ([], 0)) = (host, port)" by fastforce
    ultimately show ?thesis
      using offer [OF assms(3), of "before_colon (bw_remote (mn_broker env) session)" "mp_clientGamePort p"]
        offer [of "si_candidates x" host port] x
      by (auto simp: on_punch_request_def Some co Let_def split_beta split: option.split)
  qed (simp add: on_punch_request_def)
qed

text \<open>The kinds of packet a packet is answered with.\<close>

definition reply_ids :: "u64 \<Rightarrow> u64 list set" where
  "reply_ids pid =
     (if pid = 300 then {[304]} else if pid = 302 then {[303]} else if pid = 305 then {[], [306, 306]}
      else if pid = 307 then {[308]} else if pid = 309 \<or> pid = 313 then {[310]} else if pid = 311 then {[312]}
      else {[]})"


lemma on_register_out: "\<exists>r. fst (on_register fl w session p s) = [(session, MRegisterRes r)]"
  by (simp add: on_register_def Let_def split_beta)


text \<open>C23. Whatever packets arrive, in any order and from any sessions, and whatever frames pass between
  them: no two listed servers share an address and each has the session it registered over; user
  ids, names and addresses are unique; each session of the database belongs to an existing user;
  and on a database of this version the stored token digests are unique and the stored addresses
  are in lower case.\<close>

theorem master_invariant:
  assumes "reachable master_init (master_step fl cr co) s"
  shows "distinct (map si_ip (br_serverList (ma_broker s))) \<and>
    (\<forall>x \<in> set (br_serverList (ma_broker s)). si_hostSession x \<noteq> None) \<and>
    (\<forall>db. ac_db (ma_accounts s) = Some db \<longrightarrow> accounts_wf db)"
  using master.inv_reachable [OF assms]
  by (auto simp: master_ok_def broker_ok_def registry_ok_def db_ok_def list_all_iff)

definition text_master :: "(cand_type \<times> string) master_env" where
  "text_master = \<lparr>mn_broker = text_broker, mn_sql = quiet_sql, mn_now = 0\<rparr>"

definition started :: "(rat, cand_type \<times> string) MasterState" where
  "started = master_start quiet_sql (Some None) 0 0"

definition with_server :: "(rat, cand_type \<times> string) MasterState" where
  "with_server = snd (the (on_master_packet rat_fops plain_crypto text_master 1 (MRegister game_server) started))"

lemma text_master_ok: "env_ok text_candidates text_master"
  by (simp add: env_ok_def text_master_def text_broker_def text_candidates_def)

lemma with_server_reachable: "reachable master_init (master_step rat_fops plain_crypto text_candidates) with_server"
proof (rule reach_step)
  have "master_init started" unfolding master_init_def started_def by blast
  then show "reachable master_init (master_step rat_fops plain_crypto text_candidates) started" by (rule reach_init)
  show "master_step rat_fops plain_crypto text_candidates started with_server"
    by (rule master_step.packet [OF text_master_ok, where packet = "MRegister game_server" and session = 1
          and out = "fst (the (on_master_packet rat_fops plain_crypto text_master 1 (MRegister game_server) started))"])
      (simp_all add: text_candidates_ok with_server_def split_beta Let_def)
qed


theorem master_invariant_witness:
  "distinct (map si_ip (br_serverList (ma_broker with_server))) \<and>
     list_all (\<lambda>x. si_hostSession x \<noteq> None) (br_serverList (ma_broker with_server))"
  using master_invariant [OF with_server_reachable] by (simp add: list_all_iff)

end
