(* ===== verification/ClientAccounts.thy ===== *)
theory ClientAccounts
  imports MasterServer
begin

section \<open>The client's account\<close>

text \<open>
  The account half of \<open>NetworkManager.cpp\<close>: the saved session with its encryption, the status the
  login screen polls, the requests to the master with the threads that wait for their replies, and
  the handler of the replies. AES-256-CBC is a parameter (\<open>cipher\<close>; \<open>None\<close> is a failed decryption), as are the digests
  and random bytes (\<open>crypto\<close>), the user and machine the key is made from, and whether the file can be
  opened. A section under \<open>authMutex\<close> with the store that follows it is one step.
\<close>

subsection \<open>The saved session\<close>

record cipher =
  aes_encrypt :: "bytes \<Rightarrow> bytes \<Rightarrow> string \<Rightarrow> bytes"
  aes_decrypt :: "bytes \<Rightarrow> bytes \<Rightarrow> bytes \<Rightarrow> string option"

text \<open>\<open>mc_passwd\<close> is the user's entry in the password file: name and home directory, each possibly null.\<close>

record machine =
  mc_windows :: bool
  mc_getenv :: "string \<Rightarrow> string option"
  mc_passwd :: "(string option \<times> string option) option"
  mc_hostname :: "string option"

record client_env =
  cx_crypto :: crypto
  cx_cipher :: cipher
  cx_machine :: machine
  cx_writable :: bool
  cx_readable :: bool

definition hashPassword :: "crypto \<Rightarrow> string \<Rightarrow> string" where
  "hashPassword cr pwd = to_hex (SHA256 cr pwd)"

definition getEnvOr :: "machine \<Rightarrow> string \<Rightarrow> string \<Rightarrow> string" where
  "getEnvOr mc name fallback = (case mc_getenv mc name of None \<Rightarrow> fallback | Some v \<Rightarrow> v)"

definition passwd_field :: "((string option \<times> string option) \<Rightarrow> string option) \<Rightarrow> machine \<Rightarrow> string" where
  "passwd_field field mc =
     (case mc_passwd mc of None \<Rightarrow> [] | Some pw \<Rightarrow> (case field pw of None \<Rightarrow> [] | Some v \<Rightarrow> v))"

definition getMachineKeyMaterial :: "machine \<Rightarrow> string" where
  "getMachineKeyMaterial mc =
     (let material = ''gipMultiplayer_GameMartyr_SecToken_2026_'' in
      if mc_windows mc
      then material @ getEnvOr mc ''USERNAME'' [] @ getEnvOr mc ''COMPUTERNAME'' [] @ getEnvOr mc ''USERPROFILE'' []
      else material @ getEnvOr mc ''USER'' (passwd_field fst mc) @
             (case mc_hostname mc of None \<Rightarrow> [] | Some host \<Rightarrow> host) @ getEnvOr mc ''HOME'' (passwd_field snd mc))"

text \<open>The output is the initialisation vector and the ciphertext; the second component is the next state
  of the random generator.\<close>

definition encryptData :: "client_env \<Rightarrow> string \<Rightarrow> nat \<Rightarrow> bytes \<times> nat" where
  "encryptData env plaintext g =
     (let (iv, g) = RAND_bytes (cx_crypto env) 16 g;
          key = SHA256 (cx_crypto env) (getMachineKeyMaterial (cx_machine env))
      in (iv @ aes_encrypt (cx_cipher env) key iv plaintext, g))"

definition decryptData :: "client_env \<Rightarrow> bytes \<Rightarrow> string" where
  "decryptData env encrypted =
     (if length encrypted \<le> 16 then []
      else (let key = SHA256 (cx_crypto env) (getMachineKeyMaterial (cx_machine env)) in
        case aes_decrypt (cx_cipher env) key (take 16 encrypted) (drop 16 encrypted) of
          None \<Rightarrow> [] | Some plaintext \<Rightarrow> plaintext))"

definition newline :: char where "newline = char_of (10 :: nat)"

text \<open>The file \<open>saved_auth.dat\<close> is its contents, if it exists.\<close>

definition saveSession :: "client_env \<Rightarrow> string \<Rightarrow> string \<Rightarrow> bytes option \<times> nat \<Rightarrow> bytes option \<times> nat" where
  "saveSession env email sessionToken fg =
     (let (encrypted, g) = encryptData env (email @ [newline] @ sessionToken) (snd fg)
      in (if cx_writable env then Some encrypted else fst fg, g))"

text \<open>The outputs keep what the caller put in them unless the payload has a line break.\<close>

definition loadSession :: "client_env \<Rightarrow> bytes option \<Rightarrow> string \<times> string \<Rightarrow> bool \<times> string \<times> string" where
  "loadSession env file outputs = (case file of None \<Rightarrow> (False, outputs)
   | Some buffer \<Rightarrow>
       if length buffer \<le> 16 \<or> \<not> cx_readable env then (False, outputs)
       else (let decrypted = decryptData env buffer in
         if decrypted = [] then (False, outputs)
         else (case find_from newline decrypted 0 of None \<Rightarrow> (False, outputs)
           | Some n \<Rightarrow> (let email = take n decrypted; token = drop (n + 1) decrypted
               in (email \<noteq> [] \<and> token \<noteq> [], email, token)))))"

definition hasSavedSession :: "bytes option \<Rightarrow> bool" where
  "hasSavedSession file = (file \<noteq> None)"

subsection \<open>Status and requests\<close>

datatype AuthStatus = AUTH_NONE | AUTH_PENDING | AUTH_SUCCESS | AUTH_FAIL

record ClientAuth =
  ca_status :: AuthStatus
  ca_message :: string
  ca_username :: string
  ca_email :: string
  ca_token :: string
  ca_file :: "bytes option"
  ca_rand :: nat

definition client_auth :: "bytes option \<Rightarrow> nat \<Rightarrow> ClientAuth" where
  "client_auth file g = \<lparr>ca_status = AUTH_NONE, ca_message = [], ca_username = [], ca_email = [], ca_token = [],
     ca_file = file, ca_rand = g\<rparr>"

definition setAuthResult :: "AuthStatus \<Rightarrow> string \<Rightarrow> string \<Rightarrow> ClientAuth \<Rightarrow> ClientAuth" where
  "setAuthResult status message username s =
     (let s = s\<lparr>ca_message := message\<rparr>;
          s = (if username \<noteq> [] then s\<lparr>ca_username := username\<rparr> else s)
      in s\<lparr>ca_status := status\<rparr>)"

definition clearAuthStatus :: "ClientAuth \<Rightarrow> ClientAuth" where
  "clearAuthStatus s = setAuthResult AUTH_NONE [] [] s"

definition clearSavedSession :: "ClientAuth \<Rightarrow> ClientAuth" where
  "clearSavedSession s = s\<lparr>ca_file := None\<rparr>"

definition onAuthSuccess :: "client_env \<Rightarrow> string \<Rightarrow> string \<Rightarrow> ClientAuth \<Rightarrow> ClientAuth" where
  "onAuthSuccess env username token s =
     (let s = (if username \<noteq> [] then s\<lparr>ca_username := username\<rparr> else s) in
      if token = [] then s
      else let s = s\<lparr>ca_token := token\<rparr> in
        if ca_email s = [] then s
        else (let (file, g) = saveSession env (ca_email s) (ca_token s) (ca_file s, ca_rand s)
              in s\<lparr>ca_file := file, ca_rand := g\<rparr>))"

definition on_login_res :: "client_env \<Rightarrow> MasterUserLoginRes \<Rightarrow> ClientAuth \<Rightarrow> ClientAuth" where
  "on_login_res env p s =
     (if mr_success p
      then setAuthResult AUTH_SUCCESS (mr_message p) (mr_username p) (onAuthSuccess env (mr_username p) (mr_token p) s)
      else setAuthResult AUTH_FAIL (mr_message p) [] s)"

definition on_register_res :: "client_env \<Rightarrow> MasterUserRegisterRes \<Rightarrow> ClientAuth \<Rightarrow> ClientAuth" where
  "on_register_res env p s =
     (if mf_success p
      then (let s = (if mf_token p \<noteq> [] then onAuthSuccess env [] (mf_token p) s else s)
            in setAuthResult AUTH_SUCCESS (mf_message p) [] s)
      else setAuthResult AUTH_FAIL (mf_message p) [] s)"

definition on_connection_failed :: "ClientAuth \<Rightarrow> ClientAuth" where
  "on_connection_failed s = setAuthResult AUTH_FAIL ''Failed to connect to Master Server.'' [] s"

text \<open>A request is the packet its thread sends once connected.\<close>

type_synonym ('f, 'c, 's) auth_act = "('f, 'c, 's) master_packet list \<times> ClientAuth"

definition runAuthRequest ::
  "string \<Rightarrow> ('f, 'c, 's) master_packet \<Rightarrow> ClientAuth \<Rightarrow> ('f, 'c, 's) auth_act" where
  "runAuthRequest pendingMessage request s = ([request], setAuthResult AUTH_PENDING pendingMessage [] s)"

definition loginUser :: "string \<Rightarrow> string \<Rightarrow> ClientAuth \<Rightarrow> ('f, 'c, 's) auth_act" where
  "loginUser email password s =
     (let s = s\<lparr>ca_email := email\<rparr>
      in runAuthRequest ''Logging in...'' (MUserLogin \<lparr>ml_email = email, ml_password = password\<rparr>) s)"

definition loginWithToken :: "string \<Rightarrow> string \<Rightarrow> ClientAuth \<Rightarrow> ('f, 'c, 's) auth_act" where
  "loginWithToken email token s =
     (let s = s\<lparr>ca_email := email, ca_token := token\<rparr>
      in runAuthRequest ''Logging in...'' (MTokenLogin \<lparr>mt_email = email, mt_token = token\<rparr>) s)"

definition registerUser :: "string \<Rightarrow> string \<Rightarrow> string \<Rightarrow> ClientAuth \<Rightarrow> ('f, 'c, 's) auth_act" where
  "registerUser username email password s =
     (let s = s\<lparr>ca_email := email, ca_username := username\<rparr>
      in runAuthRequest ''Registering...''
           (MUserRegister \<lparr>me_username = username, me_email = email, me_password = password\<rparr>) s)"

definition logoutUser :: "ClientAuth \<Rightarrow> ('f, 'c, 's) auth_act" where
  "logoutUser s =
     (let email = ca_email s; token = ca_token s;
          s = s\<lparr>ca_username := [], ca_email := [], ca_token := []\<rparr>;
          s = clearAuthStatus (clearSavedSession s)
      in (if token \<noteq> [] then [MLogout \<lparr>mo_email = email, mo_token = token\<rparr>] else [], s))"

definition autoLogin :: "client_env \<Rightarrow> ClientAuth \<Rightarrow> ('f, 'c, 's) auth_act" where
  "autoLogin env s = (case loadSession env (ca_file s) ([], []) of
     (True, email, token) \<Rightarrow> loginWithToken email token s | _ \<Rightarrow> ([], s))"

subsection \<open>The waiting thread\<close>

text \<open>
  The thread of a request polls the status until it settles or the deadline passes, looks at it once
  more, and reports a timeout if it is still pending. Each of these is a step of its own, since
  replies arrive on another thread.
\<close>

definition AUTH_TIMEOUT :: int where "AUTH_TIMEOUT = 15 * 1000000000"

datatype auth_phase = Polling int | LastLook | TimingOut

definition auth_thread :: "int \<Rightarrow> auth_phase" where
  "auth_thread now = Polling (now + AUTH_TIMEOUT)"

fun thread_turn :: "int \<Rightarrow> auth_phase \<Rightarrow> ClientAuth \<Rightarrow> auth_phase option \<times> ClientAuth" where
  "thread_turn now (Polling deadline) s =
     (if ca_status s = AUTH_PENDING \<and> now < deadline then (Some (Polling deadline), s) else (Some LastLook, s))"
| "thread_turn now LastLook s = (if ca_status s = AUTH_PENDING then (Some TimingOut, s) else (None, s))"
| "thread_turn now TimingOut s = (None, setAuthResult AUTH_FAIL ''Master Server did not respond.'' [] s)"

subsection \<open>A saved session is restored\<close>

definition cipher_ok :: "cipher \<Rightarrow> bool" where
  "cipher_ok ci \<longleftrightarrow> (\<forall>key iv p. aes_decrypt ci key iv (aes_encrypt ci key iv p) = Some p \<and> aes_encrypt ci key iv p \<noteq> [])"

definition random_ok :: "crypto \<Rightarrow> bool" where
  "random_ok cr \<longleftrightarrow> (\<forall>g. length (fst (RAND_bytes cr 16 g)) = 16)"

lemma decrypt_encrypt:
  assumes "cipher_ok (cx_cipher env)" "random_ok (cx_crypto env)"
  shows "decryptData env (fst (encryptData env txt g)) = txt \<and> 16 < length (fst (encryptData env txt g))"
proof -
  obtain iv g' where r: "RAND_bytes (cx_crypto env) 16 g = (iv, g')" by fastforce
  then have "length iv = 16" using assms(2) by (metis random_ok_def fst_conv)
  moreover have "aes_encrypt (cx_cipher env) key iv txt \<noteq> []" for key using assms(1) by (simp add: cipher_ok_def)
  ultimately show ?thesis using assms(1) r
    by (simp add: decryptData_def encryptData_def Let_def cipher_ok_def)
qed

lemma find_first: "c \<notin> set xs \<Longrightarrow> find_from c (xs @ c # ys) 0 = Some (length xs)"
proof -
  assume "c \<notin> set xs"
  then have "takeWhile (\<lambda>d. d \<noteq> c) (xs @ c # ys) = xs"
    by (induction xs) auto
  then show ?thesis by (simp add: find_from_def index_of_def)
qed

lemma load_saved:
  assumes "cipher_ok (cx_cipher env)" "random_ok (cx_crypto env)" "cx_writable env" "cx_readable env"
    "email \<noteq> []" "newline \<notin> set email" "token \<noteq> []"
  shows "loadSession env (fst (saveSession env email token fg)) outputs = (True, email, token)"
  using decrypt_encrypt [OF assms(1,2), of "email @ newline # token" "snd fg"] assms(3-7)
    find_first [OF assms(6), of token]
  by (simp add: loadSession_def saveSession_def split_beta Let_def)

text \<open>C35. A login is remembered: when the master accepts it with a token, a client that starts later on the
  same machine, with the file the first one left, asks the master for exactly that address and
  token, and is pending; once the user logs out, a later start asks for nothing.\<close>

theorem login_remembered:
  assumes "cipher_ok (cx_cipher env)" "random_ok (cx_crypto env)" "cx_writable env" "cx_readable env"
    "email \<noteq> []" "newline \<notin> set email" "mr_success r" "mr_token r \<noteq> []"
    "s1 = on_login_res env r (snd (loginUser email password s :: ('f, 'c, 's) auth_act))" "ca_file later = ca_file s1"
  shows "(\<exists>s2. (autoLogin env later :: ('f, 'c, 's) auth_act) = ([MTokenLogin \<lparr>mt_email = email, mt_token = mr_token r\<rparr>], s2) \<and>
      ca_status s2 = AUTH_PENDING \<and> ca_email s2 = email \<and> ca_token s2 = mr_token r) \<and>
    autoLogin env (client_auth (ca_file (snd (logoutUser s1 :: ('f, 'c, 's) auth_act))) g) = ([], client_auth None g)"
proof -
  have "ca_file s1 = fst (saveSession env email (mr_token r) (ca_file s, ca_rand s))"
    using assms(5,7-9) by (simp add: on_login_res_def loginUser_def runAuthRequest_def onAuthSuccess_def setAuthResult_def
        Let_def split_beta)
  then have "loadSession env (ca_file later) ([], []) = (True, email, mr_token r)"
    using load_saved [OF assms(1-6,8)] assms(10) by simp
  then have "\<exists>s2. (autoLogin env later :: ('f, 'c, 's) auth_act) = ([MTokenLogin \<lparr>mt_email = email, mt_token = mr_token r\<rparr>], s2) \<and>
      ca_status s2 = AUTH_PENDING \<and> ca_email s2 = email \<and> ca_token s2 = mr_token r"
    by (simp add: autoLogin_def loginWithToken_def runAuthRequest_def setAuthResult_def Let_def)
  moreover have "autoLogin env (client_auth (ca_file (snd (logoutUser s1 :: ('f, 'c, 's) auth_act))) g) = ([], client_auth None g)"
    by (simp add: autoLogin_def loadSession_def client_auth_def logoutUser_def clearSavedSession_def clearAuthStatus_def
        setAuthResult_def Let_def)
  ultimately show ?thesis by blast
qed

definition plain_cipher :: cipher where
  "plain_cipher = \<lparr>aes_encrypt = (\<lambda>key iv txt. 0 # map char_byte txt), aes_decrypt = (\<lambda>key iv bs. Some (map byte_char (tl bs)))\<rparr>"

definition example_machine :: client_env where
  "example_machine = \<lparr>cx_crypto = \<lparr>SHA256 = (\<lambda>_. []), PBKDF2_HMAC_SHA256 = (\<lambda>_ _ _. []), RAND_bytes = (\<lambda>n g. (replicate n 7, g + 1))\<rparr>,
     cx_cipher = plain_cipher, cx_machine = \<lparr>mc_windows = False, mc_getenv = (\<lambda>_. None), mc_passwd = None, mc_hostname = None\<rparr>,
     cx_writable = True, cx_readable = True\<rparr>"

lemma example_machine_ok:
  "cipher_ok (cx_cipher example_machine)" "random_ok (cx_crypto example_machine)" "cx_writable example_machine"
  "cx_readable example_machine"
  by (simp_all add: example_machine_def plain_cipher_def cipher_ok_def random_ok_def comp_def)

text \<open>The packets' candidates play no part here, so their types are fixed.\<close>

type_synonym plain_act = "(unit, unit, unit) auth_act"

definition example_login :: "string \<Rightarrow> ClientAuth" where
  "example_login email = on_login_res example_machine (login_res True ''Login successful!'' ''al'' ''t0k'')
     (snd (loginUser email ''pw'' (client_auth None 0) :: plain_act))"

theorem login_remembered_witness:
  "\<exists>s2. (autoLogin example_machine (client_auth (ca_file (example_login ''a@b.c'')) 5) :: plain_act) =
     ([MTokenLogin \<lparr>mt_email = ''a@b.c'', mt_token = ''t0k''\<rparr>], s2) \<and> ca_status s2 = AUTH_PENDING"
proof -
  have "newline \<notin> set ''a@b.c''" by code_simp
  from login_remembered [OF example_machine_ok _ this _ _ example_login_def, of "client_auth (ca_file (example_login ''a@b.c'')) 5" 0]
  show ?thesis by (auto simp: login_res_def client_auth_def)
qed

text \<open>An address with a line break passes the master's check; its login is remembered as another one.\<close>

lemma newline_address_misremembered:
  "let email = ''a'' @ [newline] @ ''b@c.d'' in
     IsValidEmail email \<and> fst (autoLogin example_machine (example_login email) :: plain_act) =
       [MTokenLogin \<lparr>mt_email = ''a'', mt_token = ''b@c.d'' @ [newline] @ ''t0k''\<rparr>]"
  by code_simp

subsection \<open>Every request settles\<close>

record auth_system =
  ay_client :: ClientAuth
  ay_threads :: "auth_phase list"

definition drop_nth :: "nat \<Rightarrow> 'a list \<Rightarrow> 'a list" where
  "drop_nth i xs = take i xs @ drop (Suc i) xs"

text \<open>A turn of thread \<open>i\<close>, if there is one.\<close>

definition system_turn :: "int \<Rightarrow> nat \<Rightarrow> auth_system \<Rightarrow> auth_system" where
  "system_turn now i y =
     (if i < length (ay_threads y)
      then (case thread_turn now (ay_threads y ! i) (ay_client y) of
              (Some phase, c) \<Rightarrow> y\<lparr>ay_client := c, ay_threads := (ay_threads y)[i := phase]\<rparr>
            | (None, c) \<Rightarrow> y\<lparr>ay_client := c, ay_threads := drop_nth i (ay_threads y)\<rparr>)
      else y)"

definition request_made :: "int \<Rightarrow> ClientAuth \<Rightarrow> auth_system \<Rightarrow> auth_system" where
  "request_made now client y = y\<lparr>ay_client := client, ay_threads := ay_threads y @ [auth_thread now]\<rparr>"

inductive auth_step :: "client_env \<Rightarrow> auth_system \<Rightarrow> auth_system \<Rightarrow> bool" for env where
  as_login: "auth_step env y (request_made now (snd (loginUser e p (ay_client y) :: plain_act)) y)"
| as_token: "auth_step env y (request_made now (snd (loginWithToken e t (ay_client y) :: plain_act)) y)"
| as_register: "auth_step env y (request_made now (snd (registerUser u e p (ay_client y) :: plain_act)) y)"
| as_login_res: "auth_step env y (y\<lparr>ay_client := on_login_res env r (ay_client y)\<rparr>)"
| as_register_res: "auth_step env y (y\<lparr>ay_client := on_register_res env q (ay_client y)\<rparr>)"
| as_failed: "auth_step env y (y\<lparr>ay_client := on_connection_failed (ay_client y)\<rparr>)"
| as_clear: "auth_step env y (y\<lparr>ay_client := clearAuthStatus (ay_client y)\<rparr>)"
| as_logout: "auth_step env y (y\<lparr>ay_client := snd (logoutUser (ay_client y) :: plain_act)\<rparr>)"
| as_forget: "auth_step env y (y\<lparr>ay_client := clearSavedSession (ay_client y)\<rparr>)"
| as_turn: "auth_step env y (system_turn now i y)"

definition auth_init :: "auth_system \<Rightarrow> bool" where
  "auth_init y \<longleftrightarrow> (\<exists>file g. y = \<lparr>ay_client = client_auth file g, ay_threads = []\<rparr>)"

definition someone_waits :: "auth_system \<Rightarrow> bool" where
  "someone_waits y \<longleftrightarrow> (ca_status (ay_client y) = AUTH_PENDING \<longrightarrow> ay_threads y \<noteq> [])"

lemma status_simps [simp]:
  "ca_status (setAuthResult st msg u s) = st" "ca_status (clearAuthStatus s) = AUTH_NONE"
  "ca_status (clearSavedSession s) = ca_status s" "ca_status (on_connection_failed s) = AUTH_FAIL"
  "ca_status (snd (logoutUser s)) = AUTH_NONE"
  by (simp_all add: setAuthResult_def clearAuthStatus_def clearSavedSession_def on_connection_failed_def logoutUser_def Let_def)

lemma status_replies:
  "ca_status (on_login_res env r s) \<noteq> AUTH_PENDING" "ca_status (on_register_res env q s) \<noteq> AUTH_PENDING"
  by (simp_all add: on_login_res_def on_register_res_def Let_def)

lemma thread_turn_cases:
  "(\<exists>phase. thread_turn now p s = (Some phase, s)) \<or>
   (\<exists>s'. thread_turn now p s = (None, s') \<and> ca_status s' \<noteq> AUTH_PENDING)"
  by (cases p) auto

interpretation auth: step_system auth_init "auth_step env" someone_waits
  for env :: client_env
proof unfold_locales
  fix y assume "auth_init y"
  then show "someone_waits y" by (auto simp: auth_init_def someone_waits_def client_auth_def)
next
  fix y y' assume inv: "someone_waits y" and st: "auth_step env y y'"
  show "someone_waits y'"
    using st
  proof cases
    case (as_turn now i)
    then show ?thesis using inv thread_turn_cases [of now "ay_threads y ! i" "ay_client y"]
      by (auto simp: system_turn_def someone_waits_def)
  qed (use inv in \<open>auto simp: someone_waits_def request_made_def status_replies\<close>)
qed

fun turns :: "int list \<Rightarrow> nat \<Rightarrow> auth_system \<Rightarrow> auth_system" where
  "turns [] i y = y"
| "turns (now # clocks) i y =
     (let y' = system_turn now i y in if length (ay_threads y') < length (ay_threads y) then y' else turns clocks i y')"

definition overdue :: "int \<Rightarrow> auth_phase \<Rightarrow> bool" where
  "overdue now p = (case p of Polling deadline \<Rightarrow> deadline \<le> now | _ \<Rightarrow> True)"

lemma turn_last: "i < length xs \<Longrightarrow> length (drop_nth i xs) < length xs"
  by (auto simp: drop_nth_def)

text \<open>C36. The login screen never waits for ever: in every state the threads of the client reach, a pending status
  has a request's thread at work, and any thread past its deadline ends within three of its turns and
  leaves the status settled.\<close>

theorem auth_settles:
  assumes "reachable auth_init (auth_step env) y"
  shows "(ca_status (ay_client y) = AUTH_PENDING \<longrightarrow> ay_threads y \<noteq> []) \<and>
    (\<forall>i < length (ay_threads y). overdue now (ay_threads y ! i) \<longrightarrow>
       (let y' = turns [now, now, now] i y in ca_status (ay_client y') \<noteq> AUTH_PENDING \<and>
          ay_threads y' = drop_nth i (ay_threads y)))"
proof (intro conjI allI impI)
  fix i assume i: "i < length (ay_threads y)" "overdue now (ay_threads y ! i)"
  have again: "drop_nth i ((ay_threads y)[i := p]) = drop_nth i (ay_threads y)" for p
    using i(1) by (simp add: drop_nth_def)
  show "let y' = turns [now, now, now] i y in ca_status (ay_client y') \<noteq> AUTH_PENDING \<and>
      ay_threads y' = drop_nth i (ay_threads y)"
    using i again turn_last [OF i(1)]
    by (cases "ay_threads y ! i") (auto simp: overdue_def system_turn_def Let_def)
next
  assume "ca_status (ay_client y) = AUTH_PENDING"
  then show "ay_threads y \<noteq> []" using auth.inv_reachable [OF assms] by (simp add: someone_waits_def)
qed

definition example_waiting :: auth_system where
  "example_waiting = request_made 0 (snd (loginUser ''a@b.c'' ''pw'' (client_auth None 0) :: plain_act))
     \<lparr>ay_client = client_auth None 0, ay_threads = []\<rparr>"

lemma example_waiting_reachable: "reachable auth_init (auth_step example_machine) example_waiting"
proof -
  define y0 where "y0 = \<lparr>ay_client = client_auth None 0, ay_threads = []\<rparr>"
  have i: "auth_init y0" unfolding auth_init_def y0_def by blast
  have r: "reachable auth_init (auth_step example_machine) y0"
    by (rule reach_init, rule i)
  have st: "auth_step example_machine y0 (request_made 0 (snd (loginUser ''a@b.c'' ''pw'' (ay_client y0) :: plain_act)) y0)"
    by (rule as_login)
  have e: "example_waiting = request_made 0 (snd (loginUser ''a@b.c'' ''pw'' (ay_client y0) :: plain_act)) y0"
    by (simp only: example_waiting_def y0_def auth_system.select_convs)
  show ?thesis unfolding e by (rule reach_step, rule r, rule st)
qed

theorem auth_settles_witness:
  "ca_status (ay_client example_waiting) = AUTH_PENDING \<and>
   ca_status (ay_client (turns [AUTH_TIMEOUT, AUTH_TIMEOUT, AUTH_TIMEOUT] 0 example_waiting)) \<noteq> AUTH_PENDING \<and>
   ay_threads (turns [AUTH_TIMEOUT, AUTH_TIMEOUT, AUTH_TIMEOUT] 0 example_waiting) = []"
proof -
  have w: "ay_threads example_waiting = [Polling AUTH_TIMEOUT]" "ca_status (ay_client example_waiting) = AUTH_PENDING"
    by (simp_all add: example_waiting_def request_made_def auth_thread_def loginUser_def runAuthRequest_def Let_def)
  then show ?thesis using auth_settles [OF example_waiting_reachable, of AUTH_TIMEOUT]
    by (simp add: overdue_def Let_def drop_nth_def)
qed

text \<open>The last look and the report of the thread are not one step: a reply that arrives in between is
  overwritten, so that the user is told of a timeout although the token has been stored.\<close>

lemma reply_overwritten:
  "let y = turns [AUTH_TIMEOUT, AUTH_TIMEOUT] 0 example_waiting;
       y = y\<lparr>ay_client := on_login_res example_machine (login_res True ''Login successful!'' ''al'' ''t0k'') (ay_client y)\<rparr>;
       y' = system_turn AUTH_TIMEOUT 0 y
   in ca_status (ay_client y) = AUTH_SUCCESS \<and> ca_status (ay_client y') = AUTH_FAIL \<and> ca_token (ay_client y') = ''t0k''"
  by code_simp

text \<open>The threads share one status: the timeout of an abandoned request ends a newer one as well.\<close>

lemma older_timeout_fails_newer:
  "let y = request_made 5000000000 (snd (loginUser ''a@b.c'' ''new'' (ay_client example_waiting) :: plain_act)) example_waiting;
       y' = turns [AUTH_TIMEOUT, AUTH_TIMEOUT, AUTH_TIMEOUT] 0 y
   in ca_status (ay_client y') = AUTH_FAIL \<and> ay_threads y' = [Polling (5000000000 + AUTH_TIMEOUT)]"
  by code_simp

end
