(* ===== verification/NetworkManager.thy ===== *)
theory NetworkManager
  imports GameBackendRemote ClientAccounts
begin

section \<open>The network manager\<close>

text \<open>
  \<open>NetworkManager.h\<close> and \<open>.cpp\<close> without the account half (\<open>ClientAccounts\<close>): the one backend in use and
  how hosting, joining and leaving replace it, the lobby actions, the voice controls and the
  server queries. A backend is a number; the calls on it are effects, in order, and what it answers is
  a \<open>backend_view\<close>. The handlers of the game are flags, since all the manager looks at is whether
  one is set. The join threads are in the system at the end.
\<close>

definition MASTER_IP :: string where "MASTER_IP = ''martyr.irrl.dev''"
definition MASTER_PORT :: u16 where "MASTER_PORT = 25010"
definition MASTER_RELAY_PORT :: u16 where "MASTER_RELAY_PORT = 25011"
definition MASTER_REFLECTOR2_IP :: string where "MASTER_REFLECTOR2_IP = ''91.98.97.212''"
definition MASTER_REFLECTOR2_PORT :: u16 where "MASTER_REFLECTOR2_PORT = 25011"
definition DEFAULT_GAME_PORT :: u16 where "DEFAULT_GAME_PORT = 25000"

definition secondReflector :: "(string \<times> u16) option" where
  "secondReflector = (if MASTER_REFLECTOR2_IP = [] then None else Some (MASTER_REFLECTOR2_IP, MASTER_REFLECTOR2_PORT))"

definition splitAddress :: "string \<Rightarrow> string \<times> u16" where
  "splitAddress address = (case find_from CHR '':'' address 0 of None \<Rightarrow> (address, DEFAULT_GAME_PORT)
   | Some colon \<Rightarrow> (take colon address,
       (case stoi (drop (colon + 1) address) of None \<Rightarrow> DEFAULT_GAME_PORT
        | Some parsed \<Rightarrow> if parsed > 0 \<and> parsed \<le> 65535 then word_of_int parsed else DEFAULT_GAME_PORT)))"

definition formatTeams :: "u32 \<Rightarrow> string" where
  "formatTeams maxPlayers = to_string (unat (maxPlayers div 2)) @ ''v'' @ to_string (unat (maxPlayers div 2))"

definition formatSize :: "u32 \<Rightarrow> u32 \<Rightarrow> string" where
  "formatSize current most = to_string (unat current) @ ''/'' @ to_string (unat most)"

subsection \<open>State and effects\<close>

datatype VoiceChatMode = VOICE_MODE_OFF | VOICE_MODE_TOGGLE | VOICE_MODE_PUSH_TO_TALK

record QueryResult =
  qr_name :: string
  qr_format :: string
  qr_sizeStr :: string
  qr_ip :: string
  qr_realIp :: string
  qr_isDedicated :: bool
  qr_useP2P :: bool
  qr_matchInProgress :: bool

datatype backend_kind = HostBackend u16 | DialedBackend string u16 | PunchedBackend

datatype 'f backend_call =
  CallStart | CallUpdate 'f | CallEnqueue "'f game_packet" | CallSend "'f game_packet" | CallKick u32
| CallRegister string bool string
| CallStartVoice | CallStopVoice | CallVoiceEnabled bool | CallHearEnemies bool
| CallSpeakerMuted u32 bool | CallSpeakerVolume u32 'f | CallMicrophoneVolume int | CallPlaybackVolume int
| CallCaptureDevice int | CallPlaybackDevice int

datatype query_kind = DirectQuery string | RoomQuery string | ListQuery

datatype 'f manager_effect =
  Create nat backend_kind | Call nat "'f backend_call" | Release nat
| ChatClear | ChatUpdate 'f | RegenerateNodeId
| NotifyDisconnected | NotifyLobby "RoomPlayerInfo list" bool bool | NotifyMatchStarted | NotifyKicked string
| NotifyQueried QueryResult
| OpenQuery nat query_kind string u16 | DropQuery nat

record 'f backend_view =
  bv_roomPlayers :: "RoomPlayerInfo list"
  bv_ping :: int
  bv_localTeam :: u8
  bv_transmitting :: bool
  bv_talking :: "u32 \<Rightarrow> bool"
  bv_microphoneVolume :: int
  bv_playbackVolume :: int
  bv_captureDevice :: int
  bv_playbackDevice :: int

record ManagerState =
  nm_joinGeneration :: u64
  nm_backend :: "nat option"
  nm_currentLobbyState :: "LobbyStatePacket option"
  nm_wantsDisconnect :: bool
  nm_disconnectPending :: bool
  nm_pendingQueries :: "QueryResult list"
  nm_queryClients :: "nat list"
  nm_hostMode :: bool
  nm_lobbyTeamSize :: u8
  nm_lobbyName :: string
  nm_localPlayerName :: string
  nm_voiceMode :: VoiceChatMode
  nm_hearEnemiesVoice :: bool
  nm_proximityChatEnabled :: bool
  nm_onDisconnected :: bool
  nm_onLobbyStateUpdated :: bool
  nm_onMatchStarted :: bool
  nm_onKicked :: bool
  nm_onServerQueried :: bool

definition manager_state :: ManagerState where
  "manager_state = \<lparr>nm_joinGeneration = 0, nm_backend = None, nm_currentLobbyState = None,
     nm_wantsDisconnect = False, nm_disconnectPending = False, nm_pendingQueries = [], nm_queryClients = [],
     nm_hostMode = False, nm_lobbyTeamSize = 2, nm_lobbyName = [], nm_localPlayerName = [],
     nm_voiceMode = VOICE_MODE_PUSH_TO_TALK, nm_hearEnemiesVoice = False, nm_proximityChatEnabled = True,
     nm_onDisconnected = False, nm_onLobbyStateUpdated = False, nm_onMatchStarted = False, nm_onKicked = False,
     nm_onServerQueried = False\<rparr>"

type_synonym 'f manager_act = "'f manager_effect list \<times> ManagerState"

subsection \<open>The backend in use\<close>

text \<open>What leaves the pointer is released outside the lock.\<close>

definition release :: "nat option \<Rightarrow> 'f manager_effect list" where
  "release previous = (case previous of None \<Rightarrow> [] | Some h \<Rightarrow> [Release h])"

definition setBackend :: "nat option \<Rightarrow> ManagerState \<Rightarrow> 'f manager_act" where
  "setBackend backend s = (release (nm_backend s), s\<lparr>nm_backend := backend\<rparr>)"

definition beginJoin :: "ManagerState \<Rightarrow> 'f manager_act" where
  "beginJoin s =
     (let previous = nm_backend s;
          s = s\<lparr>nm_disconnectPending := False, nm_backend := None, nm_joinGeneration := nm_joinGeneration s + 1\<rparr>
      in (ChatClear # release previous, s))"

definition installBackend :: "nat \<Rightarrow> u64 \<Rightarrow> ManagerState \<Rightarrow> bool \<times> 'f manager_act" where
  "installBackend h generation s =
     (if generation \<noteq> nm_joinGeneration s then (False, [Release h], s)
      else (True, release (nm_backend s), s\<lparr>nm_backend := Some h\<rparr>))"

definition useBackend :: "nat \<Rightarrow> ManagerState \<Rightarrow> 'f manager_act" where
  "useBackend h s =
     (let (begun, s) = beginJoin s;
          s = s\<lparr>nm_wantsDisconnect := False, nm_disconnectPending := False\<rparr>;
          (put, s) = setBackend (Some h) s
      in (begun @ put, s))"

text \<open>The calls \<open>wireBackend\<close> makes on the backend; the callbacks it registers are \<open>on_backend_event\<close>.\<close>

definition wireBackend :: "nat \<Rightarrow> ManagerState \<Rightarrow> 'f manager_effect list" where
  "wireBackend h s = [Call h (CallVoiceEnabled (nm_voiceMode s \<noteq> VOICE_MODE_OFF)),
     Call h (CallHearEnemies (nm_hearEnemiesVoice s))]"

datatype backend_event = LobbyUpdated LobbyStatePacket | MatchStarted | ConnectionLost | PlayerKicked string

definition on_backend_event :: "backend_event \<Rightarrow> ManagerState \<Rightarrow> 'f manager_act" where
  "on_backend_event ev s = (case ev of
     LobbyUpdated p \<Rightarrow>
       (let s = s\<lparr>nm_currentLobbyState := Some p\<rparr>;
            players = lobby_players (ls_playerIds p) (ls_playerNames p) (ls_playerTeams p) (ls_playerReadys p)
        in (if nm_onLobbyStateUpdated s then [NotifyLobby players (ls_isGlobalServer p) (ls_matchInProgress p)] else [], s))
   | MatchStarted \<Rightarrow> (if nm_onMatchStarted s then [NotifyMatchStarted] else [], s)
   | ConnectionLost \<Rightarrow> if nm_onDisconnected s then ([NotifyDisconnected], s) else ([], s\<lparr>nm_disconnectPending := True\<rparr>)
   | PlayerKicked reason \<Rightarrow> (if nm_onKicked s then [NotifyKicked reason] else [], s))"

definition setOnDisconnected :: "bool \<Rightarrow> ManagerState \<Rightarrow> 'f manager_act" where
  "setOnDisconnected handler s =
     (let s = s\<lparr>nm_onDisconnected := handler\<rparr> in
      if handler \<and> nm_disconnectPending s then ([NotifyDisconnected], s\<lparr>nm_disconnectPending := False\<rparr>) else ([], s))"

definition disconnect :: "ManagerState \<Rightarrow> ManagerState" where
  "disconnect s = s\<lparr>nm_wantsDisconnect := True\<rparr>"

text \<open>The events the backend raises while its frame runs are \<open>events\<close>, in order.\<close>

fun on_backend_events :: "backend_event list \<Rightarrow> ManagerState \<Rightarrow> 'f manager_act" where
  "on_backend_events [] s = ([], s)"
| "on_backend_events (ev # evs) s = (case on_backend_event ev s of (e, s) \<Rightarrow>
     (case on_backend_events evs s of (f, s) \<Rightarrow> (e @ f, s)))"

definition leave_if_asked :: "ManagerState \<Rightarrow> 'f manager_act" where
  "leave_if_asked s =
     (if nm_wantsDisconnect s
      then (let (released, s) = setBackend None s; s = s\<lparr>nm_wantsDisconnect := False\<rparr>
            in (released @ [ChatClear] @ (if nm_onDisconnected s then [NotifyDisconnected] else []), s))
      else ([], s))"

definition deliver_queries :: "ManagerState \<Rightarrow> 'f manager_act" where
  "deliver_queries s =
     (let batch = nm_pendingQueries s; s = s\<lparr>nm_pendingQueries := []\<rparr>
      in (if nm_onServerQueried s then map NotifyQueried batch else [], s))"

definition manager_update :: "'f \<Rightarrow> backend_event list \<Rightarrow> ManagerState \<Rightarrow> 'f manager_act" where
  "manager_update deltaTime events s =
     (let (left, s) = leave_if_asked s;
          (frame, s) = (case nm_backend s of None \<Rightarrow> ([], s)
            | Some h \<Rightarrow> (let (raised, s) = on_backend_events events s in (Call h (CallUpdate deltaTime) # raised, s)));
          (queried, s) = deliver_queries s
      in (ChatUpdate deltaTime # left @ frame @ queried, s))"

subsection \<open>Hosting and joining\<close>

definition hostLobby ::
  "nat \<Rightarrow> u32 \<Rightarrow> string \<Rightarrow> string \<Rightarrow> u8 \<Rightarrow> bool \<Rightarrow> string \<Rightarrow> ManagerState \<Rightarrow> 'f manager_act" where
  "hostLobby h nodeId playerName name teamSize isPrivate password s =
     (let (begun, s) = beginJoin s;
          s = s\<lparr>nm_wantsDisconnect := False, nm_hostMode := True, nm_localPlayerName := playerName,
                nm_lobbyName := name, nm_lobbyTeamSize := teamSize\<rparr>;
          wired = wireBackend h s;
          (put, s) = setBackend (Some h) s
      in (begun @ [RegenerateNodeId, Create h (HostBackend DEFAULT_GAME_PORT)] @ wired @ put @
          [Call h CallStart, Call h (CallRegister name isPrivate password),
           Call h (CallEnqueue (LobbyJoin \<lparr>lj_senderId = nodeId, lj_playerName = nm_localPlayerName s, lj_password = []\<rparr>))], s))"

text \<open>The part of \<open>joinLobby\<close> before its thread; the generation is what the thread is given.\<close>

definition joinLobby :: "string \<Rightarrow> ManagerState \<Rightarrow> u64 \<times> 'f manager_act" where
  "joinLobby playerName s =
     (let (begun, s) = beginJoin s; generation = nm_joinGeneration s;
          s = s\<lparr>nm_wantsDisconnect := False, nm_hostMode := False, nm_localPlayerName := playerName\<rparr>
      in (generation, begun @ [RegenerateNodeId], s))"

text \<open>The thread: \<open>None\<close> ends it, when nothing was punched and a room code is all there is.\<close>

definition join_backend :: "bool \<Rightarrow> string \<Rightarrow> bool \<Rightarrow> backend_kind option" where
  "join_backend punched ipOrCode forceDirect =
     (if \<not> forceDirect \<and> punched then Some PunchedBackend
      else if CHR ''.'' \<notin> set ipOrCode then None
      else (case splitAddress ipOrCode of (ip, port) \<Rightarrow> Some (DialedBackend ip port)))"

definition join_request :: "u32 \<Rightarrow> string \<Rightarrow> ManagerState \<Rightarrow> 'f game_packet" where
  "join_request nodeId password s =
     LobbyJoin \<lparr>lj_senderId = nodeId, lj_playerName = nm_localPlayerName s, lj_password = password\<rparr>"

subsection \<open>Lobby actions\<close>

definition to_host :: "'f game_packet \<Rightarrow> ManagerState \<Rightarrow> 'f manager_effect list" where
  "to_host p s = (case nm_backend s of None \<Rightarrow> []
   | Some h \<Rightarrow> if nm_hostMode s then [Call h (CallEnqueue p)] else [Call h (CallSend p)])"

definition toggleReady :: "u32 \<Rightarrow> ManagerState \<Rightarrow> 'f manager_effect list" where
  "toggleReady nodeId s = to_host (ToggleReady \<lparr>tr_senderId = nodeId\<rparr>) s"

definition switchTeam :: "u32 \<Rightarrow> u8 \<Rightarrow> ManagerState \<Rightarrow> 'f manager_effect list" where
  "switchTeam nodeId teamId s = to_host (SwitchTeam \<lparr>sw_senderId = nodeId, sw_teamId = teamId\<rparr>) s"

definition startMatch :: "(nat \<Rightarrow> 'f backend_view) \<Rightarrow> ManagerState \<Rightarrow> 'f manager_effect list" where
  "startMatch view s = (case nm_backend s of None \<Rightarrow> []
   | Some h \<Rightarrow>
      (let players = bv_roomPlayers (view h) in
       if \<not> nm_hostMode s \<or> players = [] then []
       else let ready = length (filter rp_isReady players) in
         if ready < length players - 1 then []
         else [Call h (CallEnqueue StartMatch), Call h (CallSend StartMatch)]))"

definition manager_kickPlayer :: "u32 \<Rightarrow> ManagerState \<Rightarrow> 'f manager_effect list" where
  "manager_kickPlayer playerId s = (case nm_backend s of None \<Rightarrow> []
   | Some h \<Rightarrow> if nm_hostMode s then [Call h (CallKick playerId)] else [])"

definition enterMatchInProgress :: "ManagerState \<Rightarrow> 'f manager_effect list" where
  "enterMatchInProgress s = (case nm_backend s of None \<Rightarrow> [] | Some h \<Rightarrow> [Call h (CallEnqueue StartMatch)])"

definition setLobbyTeamSize :: "u8 \<Rightarrow> ManagerState \<Rightarrow> ManagerState" where
  "setLobbyTeamSize teamSize s = s\<lparr>nm_lobbyTeamSize := teamSize\<rparr>"

definition of_backend :: "(nat \<Rightarrow> 'f backend_view) \<Rightarrow> ('f backend_view \<Rightarrow> 'a) \<Rightarrow> 'a \<Rightarrow> ManagerState \<Rightarrow> 'a" where
  "of_backend view get otherwise s = (case nm_backend s of None \<Rightarrow> otherwise | Some h \<Rightarrow> get (view h))"

definition getPing :: "(nat \<Rightarrow> 'f backend_view) \<Rightarrow> ManagerState \<Rightarrow> int" where
  "getPing view s = of_backend view bv_ping 0 s"

definition getLocalTeam :: "(nat \<Rightarrow> 'f backend_view) \<Rightarrow> ManagerState \<Rightarrow> u8" where
  "getLocalTeam view s = of_backend view bv_localTeam 1 s"

definition getRoomPlayers :: "(nat \<Rightarrow> 'f backend_view) \<Rightarrow> ManagerState \<Rightarrow> RoomPlayerInfo list" where
  "getRoomPlayers view s = of_backend view bv_roomPlayers [] s"

definition isConnected :: "ManagerState \<Rightarrow> bool" where
  "isConnected s = (nm_backend s \<noteq> None)"

text \<open>The lobby packet is searched first. Its vectors have equal lengths (\<open>vectors_parallel\<close>).\<close>

fun name_in :: "u32 \<Rightarrow> u32 list \<Rightarrow> string list \<Rightarrow> string option" where
  "name_in netId (i # ids) (name # names) = (if i = netId then Some name else name_in netId ids names)"
| "name_in netId _ _ = None"

definition getPlayerName :: "(nat \<Rightarrow> 'f backend_view) \<Rightarrow> u32 \<Rightarrow> ManagerState \<Rightarrow> string" where
  "getPlayerName view netId s =
     (case (case nm_currentLobbyState s of None \<Rightarrow> None | Some p \<Rightarrow> name_in netId (ls_playerIds p) (ls_playerNames p)) of
        Some name \<Rightarrow> name
      | None \<Rightarrow> (case find_player netId (getRoomPlayers view s) of Some rp \<Rightarrow> rp_name rp | None \<Rightarrow> []))"

definition findPlayerIdByName :: "(nat \<Rightarrow> 'f backend_view) \<Rightarrow> string \<Rightarrow> ManagerState \<Rightarrow> u32" where
  "findPlayerIdByName view name s =
     (case List.find (\<lambda>rp. rp_name rp = name) (getRoomPlayers view s) of Some rp \<Rightarrow> rp_id rp | None \<Rightarrow> 0)"

subsection \<open>Voice\<close>

definition on_backend :: "'f backend_call list \<Rightarrow> ManagerState \<Rightarrow> 'f manager_effect list" where
  "on_backend calls s = (case nm_backend s of None \<Rightarrow> [] | Some h \<Rightarrow> map (Call h) calls)"

definition setVoiceMode :: "VoiceChatMode \<Rightarrow> ManagerState \<Rightarrow> 'f manager_act" where
  "setVoiceMode mode s =
     (let s = s\<lparr>nm_voiceMode := mode\<rparr> in
      (on_backend (if mode = VOICE_MODE_OFF then [CallStopVoice, CallVoiceEnabled False] else [CallVoiceEnabled True]) s, s))"

definition manager_setHearEnemiesVoice :: "bool \<Rightarrow> ManagerState \<Rightarrow> 'f manager_act" where
  "manager_setHearEnemiesVoice hear s =
     (let s = s\<lparr>nm_hearEnemiesVoice := hear\<rparr> in (on_backend [CallHearEnemies hear] s, s))"

definition setProximityChatEnabled :: "bool \<Rightarrow> ManagerState \<Rightarrow> 'f manager_act" where
  "setProximityChatEnabled enabled s =
     manager_setHearEnemiesVoice enabled (s\<lparr>nm_proximityChatEnabled := enabled\<rparr>)"

definition calculateProximityVolume :: "'f fops \<Rightarrow> 'f \<Rightarrow> ManagerState \<Rightarrow> 'f" where
  "calculateProximityVolume fl distance s =
     (if \<not> nm_proximityChatEnabled s then flit fl 1
      else let fullDist = flit fl (12 / 10); maxDist = flit fl 12 in
        if fle fl distance fullDist then flit fl 1
        else if fle fl maxDist distance then flit fl 0
        else let t = fdiv fl (fsub fl distance fullDist) (fsub fl maxDist fullDist);
                 factor = fsub fl (flit fl 1) t
             in fmul fl factor factor)"

definition manager_isVoiceTransmitting :: "(nat \<Rightarrow> 'f backend_view) \<Rightarrow> ManagerState \<Rightarrow> bool" where
  "manager_isVoiceTransmitting view s = of_backend view bv_transmitting False s"

definition manager_isPlayerTalking :: "(nat \<Rightarrow> 'f backend_view) \<Rightarrow> u32 \<Rightarrow> ManagerState \<Rightarrow> bool" where
  "manager_isPlayerTalking view playerId s = of_backend view (\<lambda>v. bv_talking v playerId) False s"

definition manager_startVoiceTransmission :: "ManagerState \<Rightarrow> 'f manager_effect list" where
  "manager_startVoiceTransmission s = on_backend [CallStartVoice] s"

definition manager_stopVoiceTransmission :: "ManagerState \<Rightarrow> 'f manager_effect list" where
  "manager_stopVoiceTransmission s = on_backend [CallStopVoice] s"

definition handleVoiceKeyDown :: "(nat \<Rightarrow> 'f backend_view) \<Rightarrow> ManagerState \<Rightarrow> 'f manager_effect list" where
  "handleVoiceKeyDown view s = (case nm_voiceMode s of
     VOICE_MODE_OFF \<Rightarrow> []
   | VOICE_MODE_PUSH_TO_TALK \<Rightarrow> if \<not> manager_isVoiceTransmitting view s then manager_startVoiceTransmission s else []
   | VOICE_MODE_TOGGLE \<Rightarrow> if manager_isVoiceTransmitting view s then manager_stopVoiceTransmission s
       else manager_startVoiceTransmission s)"

definition handleVoiceKeyUp :: "(nat \<Rightarrow> 'f backend_view) \<Rightarrow> ManagerState \<Rightarrow> 'f manager_effect list" where
  "handleVoiceKeyUp view s =
     (if nm_voiceMode s = VOICE_MODE_PUSH_TO_TALK \<and> manager_isVoiceTransmitting view s
      then manager_stopVoiceTransmission s else [])"

definition setPlayerVoiceMuted :: "u32 \<Rightarrow> bool \<Rightarrow> ManagerState \<Rightarrow> 'f manager_effect list" where
  "setPlayerVoiceMuted playerId muted s = on_backend [CallSpeakerMuted playerId muted] s"

definition setPlayerVoiceVolume :: "u32 \<Rightarrow> 'f \<Rightarrow> ManagerState \<Rightarrow> 'f manager_effect list" where
  "setPlayerVoiceVolume playerId volume s = on_backend [CallSpeakerVolume playerId volume] s"

definition manager_setMicrophoneVolume :: "int \<Rightarrow> ManagerState \<Rightarrow> 'f manager_effect list" where
  "manager_setMicrophoneVolume volume s = on_backend [CallMicrophoneVolume volume] s"

definition manager_getMicrophoneVolume :: "(nat \<Rightarrow> 'f backend_view) \<Rightarrow> ManagerState \<Rightarrow> int" where
  "manager_getMicrophoneVolume view s = of_backend view bv_microphoneVolume 100 s"

definition setVoicePlaybackVolume :: "int \<Rightarrow> ManagerState \<Rightarrow> 'f manager_effect list" where
  "setVoicePlaybackVolume volume s = on_backend [CallPlaybackVolume volume] s"

definition getVoicePlaybackVolume :: "(nat \<Rightarrow> 'f backend_view) \<Rightarrow> ManagerState \<Rightarrow> int" where
  "getVoicePlaybackVolume view s = of_backend view bv_playbackVolume 100 s"

definition manager_getCaptureDeviceIndex :: "(nat \<Rightarrow> 'f backend_view) \<Rightarrow> ManagerState \<Rightarrow> int" where
  "manager_getCaptureDeviceIndex view s = of_backend view bv_captureDevice 0 s"

definition manager_setCaptureDeviceIndex :: "int \<Rightarrow> ManagerState \<Rightarrow> 'f manager_effect list" where
  "manager_setCaptureDeviceIndex index s = on_backend [CallCaptureDevice index] s"

definition manager_getPlaybackDeviceIndex :: "(nat \<Rightarrow> 'f backend_view) \<Rightarrow> ManagerState \<Rightarrow> int" where
  "manager_getPlaybackDeviceIndex view s = of_backend view bv_playbackDevice 0 s"

definition manager_setPlaybackDeviceIndex :: "int \<Rightarrow> ManagerState \<Rightarrow> 'f manager_effect list" where
  "manager_setPlaybackDeviceIndex index s = on_backend [CallPlaybackDevice index] s"

subsection \<open>Server queries\<close>

definition pushQueryResult :: "QueryResult \<Rightarrow> ManagerState \<Rightarrow> ManagerState" where
  "pushQueryResult q s = s\<lparr>nm_pendingQueries := nm_pendingQueries s @ [q]\<rparr>"

definition trackQueryClient :: "nat \<Rightarrow> ManagerState \<Rightarrow> ManagerState" where
  "trackQueryClient client s = s\<lparr>nm_queryClients := nm_queryClients s @ [client]\<rparr>"

definition clearQueries :: "ManagerState \<Rightarrow> 'f manager_act" where
  "clearQueries s = (map DropQuery (nm_queryClients s), s\<lparr>nm_queryClients := [], nm_pendingQueries := []\<rparr>)"

text \<open>A server is asked on the port after its game port, which wraps after 65535.\<close>

definition queryServer :: "nat \<Rightarrow> string \<Rightarrow> ManagerState \<Rightarrow> 'f manager_act" where
  "queryServer client ip s = (case splitAddress ip of (actualIp, actualPort) \<Rightarrow>
     ([OpenQuery client (DirectQuery ip) actualIp (actualPort + 1)], trackQueryClient client s))"

definition queryRoomCode :: "nat \<Rightarrow> string \<Rightarrow> ManagerState \<Rightarrow> 'f manager_act" where
  "queryRoomCode client roomCode s =
     ([OpenQuery client (RoomQuery roomCode) MASTER_IP MASTER_PORT], trackQueryClient client s)"

definition refreshGlobalServers :: "nat \<Rightarrow> ManagerState \<Rightarrow> 'f manager_act" where
  "refreshGlobalServers client s = ([OpenQuery client ListQuery MASTER_IP MASTER_PORT], trackQueryClient client s)"

text \<open>What a query sends once it is connected, and what its answer adds to the queue; the session is
  closed after an answer.\<close>

definition query_request :: "query_kind \<Rightarrow> 'f game_packet + ('f, 'c, 's) master_packet" where
  "query_request kind = (case kind of DirectQuery ip \<Rightarrow> Inl ServerQueryReq
   | RoomQuery roomCode \<Rightarrow> Inr (MQueryRoom \<lparr>mq_roomCode = roomCode\<rparr>)
   | ListQuery \<Rightarrow> Inr (MGetList \<lparr>mg_matchStateFilter = - 1\<rparr>))"

definition on_server_answer :: "string \<Rightarrow> ServerQueryResPacket \<Rightarrow> ManagerState \<Rightarrow> ManagerState" where
  "on_server_answer ip p s = pushQueryResult \<lparr>qr_name = sq_lobbyName p, qr_format = sq_format p,
     qr_sizeStr = sq_sizeStr p, qr_ip = ip, qr_realIp = ip, qr_isDedicated = sq_isDedicated p, qr_useP2P = False,
     qr_matchInProgress = sq_matchInProgress p\<rparr> s"

definition on_room_answer :: "MasterQueryRoomRes \<Rightarrow> ManagerState \<Rightarrow> ManagerState" where
  "on_room_answer p s =
     (if mv_found p
      then pushQueryResult \<lparr>qr_name = mv_name p, qr_format = formatTeams (mv_maxPlayers p),
             qr_sizeStr = formatSize (mv_currentPlayers p) (mv_maxPlayers p), qr_ip = mv_roomCode p, qr_realIp = mv_ip p,
             qr_isDedicated = mv_isDedicated p, qr_useP2P = mv_useP2P p, qr_matchInProgress = False\<rparr> s
      else s)"

definition list_row :: "('f, 'c, 's) gServerInfo \<Rightarrow> QueryResult" where
  "list_row v = \<lparr>qr_name = si_name v, qr_format = formatTeams (si_maxPlayers v),
     qr_sizeStr = formatSize (si_currentPlayers v) (si_maxPlayers v),
     qr_ip = (if si_roomCode v = [] then si_ip v else si_roomCode v), qr_realIp = si_ip v,
     qr_isDedicated = si_isDedicated v, qr_useP2P = si_useP2P v, qr_matchInProgress = (si_matchState v \<noteq> 0)\<rparr>"

definition on_list_answer :: "('f, 'c, 's) gServerInfo list \<Rightarrow> ManagerState \<Rightarrow> ManagerState" where
  "on_list_answer servers s = fold (\<lambda>v. pushQueryResult (list_row v)) servers s"

subsection \<open>The manager and its join threads\<close>

text \<open>
  Each join runs on a detached thread: it builds a backend and wires it, installs it if no newer
  attempt has begun, starts it and asks to be let in. The steps of the threads and the calls of
  the main thread interleave. Two ghost fields say which attempt a backend and a thread belong to;
  \<open>my_next\<close> numbers the backends.
\<close>

datatype join_phase = Trying | Ready nat | Installed nat

record join_thread =
  jt_generation :: u64
  jt_target :: string
  jt_password :: string
  jt_direct :: bool
  jt_phase :: join_phase
  jt_attempt :: nat

record manager_system =
  my_manager :: ManagerState
  my_joins :: "join_thread list"
  my_next :: nat
  my_owner :: "nat \<Rightarrow> nat"
  my_attempts :: nat

definition manager_start :: manager_system where
  "manager_start = \<lparr>my_manager = manager_state, my_joins = [], my_next = 0, my_owner = (\<lambda>_. 0), my_attempts = 0\<rparr>"

text \<open>An attempt by the main thread puts the next backend in place at once, a join starts a thread.\<close>

definition attempt_done :: "ManagerState \<Rightarrow> manager_system \<Rightarrow> manager_system" where
  "attempt_done m y = y\<lparr>my_manager := m, my_owner := (my_owner y)(my_next y := my_attempts y + 1),
     my_next := my_next y + 1, my_attempts := my_attempts y + 1\<rparr>"

definition join_begun :: "string \<Rightarrow> string \<Rightarrow> bool \<Rightarrow> u64 \<Rightarrow> ManagerState \<Rightarrow> manager_system \<Rightarrow> manager_system" where
  "join_begun target password direct generation m y = y\<lparr>my_manager := m,
     my_joins := my_joins y @ [\<lparr>jt_generation = generation, jt_target = target, jt_password = password, jt_direct = direct,
       jt_phase = Trying, jt_attempt = my_attempts y + 1\<rparr>],
     my_attempts := my_attempts y + 1\<rparr>"

definition join_built :: "nat \<Rightarrow> manager_system \<Rightarrow> manager_system" where
  "join_built i y = y\<lparr>my_joins := (my_joins y)[i := (my_joins y ! i)\<lparr>jt_phase := Ready (my_next y)\<rparr>],
     my_owner := (my_owner y)(my_next y := jt_attempt (my_joins y ! i)), my_next := my_next y + 1\<rparr>"

definition join_ended :: "nat \<Rightarrow> manager_system \<Rightarrow> manager_system" where
  "join_ended i y = y\<lparr>my_joins := drop_nth i (my_joins y)\<rparr>"

definition join_installed :: "nat \<Rightarrow> nat \<Rightarrow> bool \<Rightarrow> ManagerState \<Rightarrow> manager_system \<Rightarrow> manager_system" where
  "join_installed i h ok m y =
     (let y = y\<lparr>my_manager := m\<rparr>
      in if ok then y\<lparr>my_joins := (my_joins y)[i := (my_joins y ! i)\<lparr>jt_phase := Installed h\<rparr>]\<rparr> else join_ended i y)"

inductive manager_step :: "manager_system \<Rightarrow> 'f manager_effect list \<Rightarrow> manager_system \<Rightarrow> bool" where
  ms_host: "hostLobby (my_next y) nodeId player name teamSize priv pw (my_manager y) = (e, m) \<Longrightarrow>
    manager_step y e (attempt_done m y)"
| ms_use: "useBackend (my_next y) (my_manager y) = (e, m) \<Longrightarrow> manager_step y e (attempt_done m y)"
| ms_join: "joinLobby player (my_manager y) = (g, e, m) \<Longrightarrow> manager_step y e (join_begun target pw direct g m y)"
| ms_build: "i < length (my_joins y) \<Longrightarrow> jt_phase (my_joins y ! i) = Trying \<Longrightarrow>
    join_backend punched (jt_target (my_joins y ! i)) (jt_direct (my_joins y ! i)) = Some kind \<Longrightarrow>
    manager_step y (Create (my_next y) kind # wireBackend (my_next y) (my_manager y)) (join_built i y)"
| ms_give_up: "i < length (my_joins y) \<Longrightarrow> jt_phase (my_joins y ! i) = Trying \<Longrightarrow>
    join_backend punched (jt_target (my_joins y ! i)) (jt_direct (my_joins y ! i)) = None \<Longrightarrow>
    manager_step y [] (join_ended i y)"
| ms_install: "i < length (my_joins y) \<Longrightarrow> jt_phase (my_joins y ! i) = Ready h \<Longrightarrow>
    installBackend h (jt_generation (my_joins y ! i)) (my_manager y) = (ok, e, m) \<Longrightarrow>
    manager_step y e (join_installed i h ok m y)"
| ms_finish: "i < length (my_joins y) \<Longrightarrow> jt_phase (my_joins y ! i) = Installed h \<Longrightarrow>
    manager_step y [Call h CallStart, Call h (CallSend (join_request nodeId (jt_password (my_joins y ! i)) (my_manager y)))]
      (join_ended i y)"
| ms_update: "manager_update dt events (my_manager y) = (e, m) \<Longrightarrow> manager_step y e (y\<lparr>my_manager := m\<rparr>)"
| ms_handler: "setOnDisconnected b (my_manager y) = (e, m) \<Longrightarrow> manager_step y e (y\<lparr>my_manager := m\<rparr>)"
| ms_disconnect: "manager_step y [] (y\<lparr>my_manager := disconnect (my_manager y)\<rparr>)"
| ms_other_handlers: "manager_step y [] (y\<lparr>my_manager := (my_manager y)\<lparr>nm_onLobbyStateUpdated := b1, nm_onMatchStarted := b2,
    nm_onKicked := b3, nm_onServerQueried := b4\<rparr>\<rparr>)"
| ms_voice: "setVoiceMode mode (my_manager y) = (e, m) \<Longrightarrow> manager_step y e (y\<lparr>my_manager := m\<rparr>)"
| ms_hear: "manager_setHearEnemiesVoice b (my_manager y) = (e, m) \<Longrightarrow> manager_step y e (y\<lparr>my_manager := m\<rparr>)"
| ms_proximity: "setProximityChatEnabled b (my_manager y) = (e, m) \<Longrightarrow> manager_step y e (y\<lparr>my_manager := m\<rparr>)"
| ms_team_size: "manager_step y [] (y\<lparr>my_manager := setLobbyTeamSize n (my_manager y)\<rparr>)"
| ms_answer: "manager_step y [] (y\<lparr>my_manager := pushQueryResult q (my_manager y)\<rparr>)"
| ms_query: "queryServer c ip (my_manager y) = (e, m) \<Longrightarrow> manager_step y e (y\<lparr>my_manager := m\<rparr>)"
| ms_room: "queryRoomCode c code (my_manager y) = (e, m) \<Longrightarrow> manager_step y e (y\<lparr>my_manager := m\<rparr>)"
| ms_list: "refreshGlobalServers c (my_manager y) = (e, m) \<Longrightarrow> manager_step y e (y\<lparr>my_manager := m\<rparr>)"
| ms_clear: "clearQueries (my_manager y) = (e, m) \<Longrightarrow> manager_step y e (y\<lparr>my_manager := m\<rparr>)"
| ms_lobby_action: "manager_step y (toggleReady n m @ switchTeam n t m @ startMatch view m @ manager_kickPlayer p m @
    enterMatchInProgress m @ handleVoiceKeyDown view m @ handleVoiceKeyUp view m) y"

inductive manager_steps :: "manager_system \<Rightarrow> 'f manager_effect list \<Rightarrow> manager_system \<Rightarrow> bool" for y where
  manager_none: "manager_steps y [] y"
| manager_more: "manager_steps y seen y1 \<Longrightarrow> manager_step y1 e y2 \<Longrightarrow> manager_steps y (seen @ e) y2"

text \<open>What no operation other than an attempt and an installation touches.\<close>

definition same_backend :: "ManagerState \<Rightarrow> ManagerState \<Rightarrow> bool" where
  "same_backend m m' \<longleftrightarrow> nm_joinGeneration m' = nm_joinGeneration m \<and> (nm_backend m' = nm_backend m \<or> nm_backend m' = None)"

definition handler_inv :: "ManagerState \<Rightarrow> bool" where
  "handler_inv m \<longleftrightarrow> (nm_onDisconnected m \<longrightarrow> \<not> nm_disconnectPending m)"

text \<open>A lost connection is kept: nothing but telling the game clears it, and a handler clears it.\<close>

definition keeps_loss :: "ManagerState \<Rightarrow> 'f manager_act \<Rightarrow> bool" where
  "keeps_loss m r \<longleftrightarrow> (nm_disconnectPending m \<longrightarrow> nm_disconnectPending (snd r) \<or> NotifyDisconnected \<in> set (fst r)) \<and>
     (handler_inv m \<longrightarrow> handler_inv (snd r))"

lemma keeps_loss_trans:
  fixes e f :: "'f manager_effect list"
  shows "keeps_loss m (e, m1) \<Longrightarrow> keeps_loss m1 (f, m2) \<Longrightarrow> keeps_loss m (e @ f, m2)"
  by (auto simp: keeps_loss_def)

lemma event_keeps:
  "keeps_loss m (on_backend_event ev m)" "same_backend m (snd (on_backend_event ev m))"
  "ev = ConnectionLost \<Longrightarrow> nm_disconnectPending (snd (on_backend_event ev m)) \<or> NotifyDisconnected \<in> set (fst (on_backend_event ev m))"
  by (cases ev; auto simp: on_backend_event_def keeps_loss_def handler_inv_def same_backend_def Let_def)+

lemma events_keep:
  fixes r :: "'f manager_act"
  shows "on_backend_events evs m = r \<Longrightarrow> keeps_loss m r \<and> same_backend m (snd r) \<and>
   (ConnectionLost \<in> set evs \<longrightarrow> nm_disconnectPending (snd r) \<or> NotifyDisconnected \<in> set (fst r))"
proof (induction evs arbitrary: m r)
  case Nil
  then show ?case by (auto simp: keeps_loss_def same_backend_def)
next
  case (Cons ev evs)
  obtain e :: "'f manager_effect list" and m1 where e: "on_backend_event ev m = (e, m1)" by fastforce
  obtain f :: "'f manager_effect list" and m2 where f: "on_backend_events evs m1 = (f, m2)" by fastforce
  have r: "r = (e @ f, m2)" using Cons.prems e f by simp
  have ek: "keeps_loss m (e, m1)" "same_backend m m1"
      "ev = ConnectionLost \<Longrightarrow> nm_disconnectPending m1 \<or> NotifyDisconnected \<in> set e"
    using event_keeps(1) [of m ev] event_keeps(2) [of m ev] event_keeps(3) [of ev m] e by (metis, metis snd_conv, metis fst_conv snd_conv)
  note fk = Cons.IH [OF f, unfolded fst_conv snd_conv]
  have "keeps_loss m (e @ f, m2)" using keeps_loss_trans [OF ek(1)] fk by blast
  moreover have "same_backend m m2" using ek(2) fk by (auto simp: same_backend_def)
  moreover have "nm_disconnectPending m2 \<or> NotifyDisconnected \<in> set (e @ f)" if "ConnectionLost \<in> set (ev # evs)"
  proof (cases "ev = ConnectionLost")
    case True
    then show ?thesis using ek(3) fk by (auto simp: keeps_loss_def)
  qed (use that fk in auto)
  ultimately show ?case using r by simp
qed

lemma leave_keeps:
  "keeps_loss m (leave_if_asked m)" "same_backend m (snd (leave_if_asked m))"
  "\<not> nm_wantsDisconnect m \<Longrightarrow> leave_if_asked m = ([], m)"
  by (auto simp: leave_if_asked_def setBackend_def keeps_loss_def handler_inv_def same_backend_def Let_def)

lemma deliver_keeps: "keeps_loss m (deliver_queries m)" "same_backend m (snd (deliver_queries m))"
  by (auto simp: deliver_queries_def keeps_loss_def handler_inv_def same_backend_def Let_def)

lemma update_keeps:
  fixes e :: "'f manager_effect list"
  assumes "manager_update dt evs m = (e, m')"
  shows "keeps_loss m (e, m')" "same_backend m m'"
    "nm_backend m \<noteq> None \<Longrightarrow> \<not> nm_wantsDisconnect m \<Longrightarrow> ConnectionLost \<in> set evs \<Longrightarrow>
      nm_disconnectPending m' \<or> NotifyDisconnected \<in> set e"
proof -
  obtain l :: "'f manager_effect list" and m1 where l: "leave_if_asked m = (l, m1)" by fastforce
  define frame :: "'f manager_act" where "frame = (case nm_backend m1 of None \<Rightarrow> ([], m1)
    | Some h \<Rightarrow> (let (raised, s) = on_backend_events evs m1 in (Call h (CallUpdate dt) # raised, s)))"
  obtain f m2 where f: "frame = (f, m2)" by fastforce
  obtain q where q: "deliver_queries m2 = (q, m')" "e = ChatUpdate dt # l @ f @ q"
    using assms l f by (auto simp: manager_update_def frame_def Let_def split: prod.splits)
  have fk: "keeps_loss m1 (f, m2) \<and> same_backend m1 m2 \<and> (nm_backend m1 \<noteq> None \<and> ConnectionLost \<in> set evs \<longrightarrow>
      nm_disconnectPending m2 \<or> NotifyDisconnected \<in> set f)"
  proof (cases "nm_backend m1")
    case None
    then show ?thesis using f by (auto simp: frame_def keeps_loss_def same_backend_def)
  next
    case (Some h)
    obtain raised where r: "on_backend_events evs m1 = (raised, m2)" "f = Call h (CallUpdate dt) # raised"
      using f Some by (auto simp: frame_def split: prod.splits)
    show ?thesis using events_keep [OF r(1)] r(2) by (auto simp: keeps_loss_def)
  qed
  have lk: "keeps_loss m (l, m1)" "same_backend m m1" "\<not> nm_wantsDisconnect m \<Longrightarrow> m1 = m"
    using leave_keeps [of m] l by (metis prod.collapse, metis snd_conv, metis prod.inject)
  have qk: "keeps_loss m2 (q, m')" "same_backend m2 m'"
    using deliver_keeps [of m2] q(1) by (metis prod.collapse, metis snd_conv)
  have "keeps_loss m ((l @ f) @ q, m')"
    by (rule keeps_loss_trans [OF keeps_loss_trans [OF lk(1) conjunct1 [OF fk]] qk(1)])
  then show "keeps_loss m (e, m')" using q(2) by (simp add: keeps_loss_def)
  show "same_backend m m'" using lk(2) fk qk(2) by (auto simp: same_backend_def)
  show "nm_disconnectPending m' \<or> NotifyDisconnected \<in> set e"
    if "nm_backend m \<noteq> None" "\<not> nm_wantsDisconnect m" "ConnectionLost \<in> set evs"
    using that lk(3) fk qk(1) q(2) by (auto simp: keeps_loss_def)
qed

definition join_ok :: "manager_system \<Rightarrow> join_thread \<Rightarrow> bool" where
  "join_ok y j \<longleftrightarrow> jt_generation j = of_nat (jt_attempt j) \<and> jt_attempt j \<le> my_attempts y \<and>
     (\<forall>h. jt_phase j = Ready h \<or> jt_phase j = Installed h \<longrightarrow> h < my_next y \<and> my_owner y h = jt_attempt j)"

definition owner_inv :: "manager_system \<Rightarrow> bool" where
  "owner_inv y \<longleftrightarrow> nm_joinGeneration (my_manager y) = of_nat (my_attempts y) \<and>
     (\<forall>h. nm_backend (my_manager y) = Some h \<longrightarrow> h < my_next y \<and> my_owner y h = my_attempts y) \<and>
     (\<forall>j \<in> set (my_joins y). join_ok y j)"

definition manager_inv :: "manager_system \<Rightarrow> bool" where
  "manager_inv y \<longleftrightarrow> (my_attempts y < 2 ^ 64 \<longrightarrow> owner_inv y) \<and> handler_inv (my_manager y)"

lemma set_drop_nth: "set (drop_nth i xs) \<subseteq> set xs"
  by (auto simp: drop_nth_def dest: in_set_takeD in_set_dropD)

lemma owner_inv_manager:
  "owner_inv y \<Longrightarrow> same_backend (my_manager y) m \<Longrightarrow> owner_inv (y\<lparr>my_manager := m\<rparr>)"
  by (auto simp: owner_inv_def same_backend_def join_ok_def)

lemma owner_inv_ended: "owner_inv y \<Longrightarrow> owner_inv (join_ended i y)"
  using set_drop_nth [of i "my_joins y"] by (auto simp: owner_inv_def join_ended_def join_ok_def)

lemma owner_inv_attempt:
  assumes "owner_inv y" "nm_joinGeneration m = nm_joinGeneration (my_manager y) + 1" "nm_backend m = Some (my_next y)"
  shows "owner_inv (attempt_done m y)"
  using assms by (fastforce simp: owner_inv_def attempt_done_def join_ok_def)

lemma owner_inv_begun:
  assumes "owner_inv y" "nm_joinGeneration m = nm_joinGeneration (my_manager y) + 1" "nm_backend m = None"
  shows "owner_inv (join_begun target pw direct (nm_joinGeneration m) m y)"
  using assms by (auto simp: owner_inv_def join_begun_def join_ok_def)

lemma owner_inv_built:
  assumes "owner_inv y" "i < length (my_joins y)"
  shows "owner_inv (join_built i y)"
proof -
  have "join_ok y (my_joins y ! i)" using assms by (simp add: owner_inv_def)
  moreover have "j \<in> set ((my_joins y)[i := x]) \<Longrightarrow> j \<in> set (my_joins y) \<or> j = x" for j x
    using set_update_subset_insert [of "my_joins y" i x] by auto
  ultimately show ?thesis using assms(1)
    by (fastforce simp: owner_inv_def join_built_def join_ok_def)
qed

lemma install_current:
  assumes "owner_inv y" "my_attempts y < 2 ^ 64" "j \<in> set (my_joins y)"
  shows "jt_generation j = nm_joinGeneration (my_manager y) \<longleftrightarrow> jt_attempt j = my_attempts y"
proof -
  have "jt_generation j = of_nat (jt_attempt j)" "jt_attempt j \<le> my_attempts y"
      "nm_joinGeneration (my_manager y) = of_nat (my_attempts y)"
    using assms(1,3) by (auto simp: owner_inv_def join_ok_def)
  then show ?thesis using assms(2) by (auto simp: word_of_nat_eq_iff take_bit_nat_eq_self)
qed

lemma owner_inv_installed:
  fixes e :: "'f manager_effect list"
  assumes "owner_inv y" "my_attempts y < 2 ^ 64" "i < length (my_joins y)" "jt_phase (my_joins y ! i) = Ready h"
    "installBackend h (jt_generation (my_joins y ! i)) (my_manager y) = (ok, e, m)"
  shows "owner_inv (join_installed i h ok m y)"
proof -
  let ?j = "my_joins y ! i"
  have j: "?j \<in> set (my_joins y)" "join_ok y ?j" using assms(1,3) by (auto simp: owner_inv_def)
  show ?thesis
  proof (cases ok)
    case True
    then have eq: "jt_attempt ?j = my_attempts y"
      using assms(5) install_current [OF assms(1,2) j(1)] by (auto simp: installBackend_def split: if_splits)
    have m: "m = (my_manager y)\<lparr>nm_backend := Some h\<rparr>"
      using assms(5) True by (auto simp: installBackend_def split: if_splits)
    have h: "h < my_next y" "my_owner y h = my_attempts y"
      using j(2) assms(4) eq by (simp_all add: join_ok_def)
    have "join_ok y (?j\<lparr>jt_phase := Installed h\<rparr>)"
      using j(2) h eq by (auto simp: join_ok_def)
    then have all: "\<forall>k \<in> set ((my_joins y)[i := ?j\<lparr>jt_phase := Installed h\<rparr>]). join_ok y k"
      using assms(1) set_update_subset_insert [of "my_joins y" i] by (fastforce simp: owner_inv_def)
    have y': "join_installed i h ok m y = y\<lparr>my_manager := m, my_joins := (my_joins y)[i := ?j\<lparr>jt_phase := Installed h\<rparr>]\<rparr>"
      using True by (simp add: join_installed_def)
    have same: "join_ok (y\<lparr>my_manager := m, my_joins := js\<rparr>) = join_ok y" for js by (simp add: join_ok_def fun_eq_iff)
    show ?thesis unfolding y' owner_inv_def same using assms(1) all h by (simp add: m owner_inv_def)
  next
    case False
    then have "m = my_manager y" using assms(5) by (auto simp: installBackend_def split: if_splits)
    then show ?thesis using False owner_inv_ended [OF assms(1)] by (simp add: join_installed_def)
  qed
qed

text \<open>Everything else leaves the backend, the generation and what is known of a lost connection alone.\<close>

lemma quiet_calls:
  "setVoiceMode mode m = (e, m') \<Longrightarrow> same_backend m m' \<and> keeps_loss m (e, m')"
  "manager_setHearEnemiesVoice b m = (e, m') \<Longrightarrow> same_backend m m' \<and> keeps_loss m (e, m')"
  "setProximityChatEnabled b m = (e, m') \<Longrightarrow> same_backend m m' \<and> keeps_loss m (e, m')"
  "queryServer c ip m = (e, m') \<Longrightarrow> same_backend m m' \<and> keeps_loss m (e, m')"
  "queryRoomCode c code m = (e, m') \<Longrightarrow> same_backend m m' \<and> keeps_loss m (e, m')"
  "refreshGlobalServers c m = (e, m') \<Longrightarrow> same_backend m m' \<and> keeps_loss m (e, m')"
  "clearQueries m = (e, m') \<Longrightarrow> same_backend m m' \<and> keeps_loss m (e, m')"
  "setOnDisconnected b m = (e, m') \<Longrightarrow> same_backend m m' \<and> keeps_loss m (e, m')"
  by (auto simp: setVoiceMode_def manager_setHearEnemiesVoice_def setProximityChatEnabled_def queryServer_def
      queryRoomCode_def refreshGlobalServers_def clearQueries_def trackQueryClient_def setOnDisconnected_def
      same_backend_def keeps_loss_def handler_inv_def Let_def split: prod.splits if_splits)

lemma attempts_begin:
  "hostLobby h nodeId player name teamSize priv pw m = (e, m') \<Longrightarrow>
     nm_joinGeneration m' = nm_joinGeneration m + 1 \<and> nm_backend m' = Some h \<and> \<not> nm_disconnectPending m'"
  "useBackend h m = (e, m') \<Longrightarrow>
     nm_joinGeneration m' = nm_joinGeneration m + 1 \<and> nm_backend m' = Some h \<and> \<not> nm_disconnectPending m'"
  "joinLobby player m = (g, e, m') \<Longrightarrow> g = nm_joinGeneration m' \<and>
     nm_joinGeneration m' = nm_joinGeneration m + 1 \<and> nm_backend m' = None \<and> \<not> nm_disconnectPending m'"
  by (auto simp: hostLobby_def useBackend_def joinLobby_def beginJoin_def setBackend_def Let_def)

lemma manager_step_manager:
  "manager_step y e y' \<Longrightarrow> my_attempts y \<le> my_attempts y' \<and>
    (my_attempts y' = my_attempts y \<longrightarrow> keeps_loss (my_manager y) (e, my_manager y')) \<and>
    (handler_inv (my_manager y) \<longrightarrow> handler_inv (my_manager y'))"
proof (induction rule: manager_step.induct)
  case (ms_install i y h ok e m)
  then show ?case
    by (auto simp: join_installed_def join_ended_def installBackend_def keeps_loss_def handler_inv_def Let_def split: if_splits)
next
  case (ms_host y nodeId player name teamSize priv pw e m)
  then show ?case using attempts_begin(1) [OF ms_host] by (simp add: attempt_done_def handler_inv_def)
next
  case (ms_use y e m)
  then show ?case using attempts_begin(2) [OF ms_use] by (simp add: attempt_done_def handler_inv_def)
next
  case (ms_join player y g e m target pw direct)
  then show ?case using attempts_begin(3) [OF ms_join] by (simp add: join_begun_def handler_inv_def)
next
  case (ms_update dt events y e m)
  then show ?case using update_keeps(1) [OF ms_update] by (simp add: keeps_loss_def)
next
  case (ms_voice mode y e m)
  then show ?case using quiet_calls(1) [OF ms_voice] by (simp add: keeps_loss_def)
next
  case (ms_hear b y e m)
  then show ?case using quiet_calls(2) [OF ms_hear] by (simp add: keeps_loss_def)
next
  case (ms_proximity b y e m)
  then show ?case using quiet_calls(3) [OF ms_proximity] by (simp add: keeps_loss_def)
next
  case (ms_query c ip y e m)
  then show ?case using quiet_calls(4) [OF ms_query] by (simp add: keeps_loss_def)
next
  case (ms_room c code y e m)
  then show ?case using quiet_calls(5) [OF ms_room] by (simp add: keeps_loss_def)
next
  case (ms_list c y e m)
  then show ?case using quiet_calls(6) [OF ms_list] by (simp add: keeps_loss_def)
next
  case (ms_clear y e m)
  then show ?case using quiet_calls(7) [OF ms_clear] by (simp add: keeps_loss_def)
next
  case (ms_handler b y e m)
  then show ?case using quiet_calls(8) [OF ms_handler] by (simp add: keeps_loss_def)
qed (simp_all add: keeps_loss_def handler_inv_def join_built_def join_ended_def disconnect_def setLobbyTeamSize_def
     pushQueryResult_def)

lemma manager_step_inv:
  assumes "manager_step y e y'" "manager_inv y"
  shows "manager_inv y'"
proof -
  have "owner_inv y'" if "owner_inv y" "my_attempts y < 2 ^ 64"
    using assms(1) that
  proof (induction rule: manager_step.induct)
    case (ms_host y nodeId player name teamSize priv pw e m)
    then show ?case using attempts_begin(1) [OF ms_host(1)] by (intro owner_inv_attempt) auto
  next
    case (ms_use y e m)
    then show ?case using attempts_begin(2) [OF ms_use(1)] by (intro owner_inv_attempt) auto
  next
    case (ms_join player y g e m target pw direct)
    then show ?case using attempts_begin(3) [OF ms_join(1)] owner_inv_begun by metis
  next
    case (ms_update dt events y e m)
    then show ?case using update_keeps(2) [OF ms_update(1)] by (intro owner_inv_manager)
  next
    case (ms_voice mode y e m)
    then show ?case using quiet_calls(1) [OF ms_voice(1)] by (intro owner_inv_manager) auto
  next
    case (ms_hear b y e m)
    then show ?case using quiet_calls(2) [OF ms_hear(1)] by (intro owner_inv_manager) auto
  next
    case (ms_proximity b y e m)
    then show ?case using quiet_calls(3) [OF ms_proximity(1)] by (intro owner_inv_manager) auto
  next
    case (ms_query c ip y e m)
    then show ?case using quiet_calls(4) [OF ms_query(1)] by (intro owner_inv_manager) auto
  next
    case (ms_room c code y e m)
    then show ?case using quiet_calls(5) [OF ms_room(1)] by (intro owner_inv_manager) auto
  next
    case (ms_list c y e m)
    then show ?case using quiet_calls(6) [OF ms_list(1)] by (intro owner_inv_manager) auto
  next
    case (ms_clear y e m)
    then show ?case using quiet_calls(7) [OF ms_clear(1)] by (intro owner_inv_manager) auto
  next
    case (ms_handler b y e m)
    then show ?case using quiet_calls(8) [OF ms_handler(1)] by (intro owner_inv_manager) auto
  next
    case (ms_install i y h ok e m)
    then show ?case by (intro owner_inv_installed)
  qed (auto intro!: owner_inv_manager owner_inv_built owner_inv_ended simp: same_backend_def disconnect_def
       setLobbyTeamSize_def pushQueryResult_def)
  then show ?thesis using manager_step_manager [OF assms(1)] assms(2) by (auto simp: manager_inv_def)
qed

lemma manager_steps_inv: "manager_steps y seen y' \<Longrightarrow> manager_inv y \<Longrightarrow> manager_inv y'"
  by (induction rule: manager_steps.induct) (auto intro: manager_step_inv)

lemma manager_steps_loss:
  assumes "manager_steps y seen y'"
  shows "my_attempts y \<le> my_attempts y' \<and> (my_attempts y' = my_attempts y \<longrightarrow> keeps_loss (my_manager y) (seen, my_manager y'))"
  using assms
proof (induction rule: manager_steps.induct)
  case manager_none
  then show ?case by (simp add: keeps_loss_def)
next
  case (manager_more seen y1 e y2)
  then show ?case
    using manager_step_manager [OF manager_more.hyps(2)] keeps_loss_trans [of "my_manager y" seen "my_manager y1" e "my_manager y2"]
    by auto
qed

lemma manager_start_inv: "manager_inv manager_start"
  by (simp add: manager_inv_def owner_inv_def handler_inv_def manager_start_def manager_state_def)

text \<open>C37. However hosting, joining and the steps of the join threads interleave, the backend in place is always
  one of the newest attempt, or none: a thread installs its backend exactly if no host, join or
  replacement has begun since it started, and otherwise its backend is let go and nothing changes. (The
  generation has 64 bits, so fewer than $2^{64}$ attempts are assumed.)\<close>

theorem newest_attempt_in_place:
  fixes seen e :: "'f manager_effect list"
  assumes "manager_steps manager_start seen y" "my_attempts y < 2 ^ 64"
    "i < length (my_joins y)" "jt_phase (my_joins y ! i) = Ready h"
    "installBackend h (jt_generation (my_joins y ! i)) (my_manager y) = (ok, e, m)"
  shows "(case nm_backend (my_manager y) of None \<Rightarrow> True | Some current \<Rightarrow> my_owner y current = my_attempts y) \<and>
    (ok \<longleftrightarrow> jt_attempt (my_joins y ! i) = my_attempts y) \<and>
    (if ok then nm_backend m = Some h else m = my_manager y \<and> e = [Release h])"
proof -
  have inv: "owner_inv y"
    using manager_steps_inv [OF assms(1) manager_start_inv] assms(2) by (simp add: manager_inv_def)
  have "my_joins y ! i \<in> set (my_joins y)" using assms(3) by simp
  from install_current [OF inv assms(2) this] show ?thesis
    using inv assms(5) by (auto simp: owner_inv_def installBackend_def split: option.split if_splits)
qed

text \<open>C38. A lost connection reaches the game: when the backend in use reports it during a frame, then, as long as no
  new attempt begins and whatever else happens, the game has been told by the time it has a handler
  set; while it has none, the report is kept.\<close>

theorem lost_connection_kept:
  fixes e0 e1 e2 :: "'f manager_effect list"
  assumes "manager_steps manager_start e0 y" "nm_backend (my_manager y) = Some h" "\<not> nm_wantsDisconnect (my_manager y)"
    "manager_update dt events (my_manager y) = (e1, m)" "ConnectionLost \<in> set events"
    "manager_steps (y\<lparr>my_manager := m\<rparr>) e2 y'" "my_attempts y' = my_attempts y"
  shows "NotifyDisconnected \<in> set (e1 @ e2) \<or>
    nm_disconnectPending (my_manager y') \<and> \<not> nm_onDisconnected (my_manager y')"
proof -
  have inv: "manager_inv y" by (rule manager_steps_inv [OF assms(1) manager_start_inv])
  have "nm_disconnectPending m \<or> NotifyDisconnected \<in> set e1"
    using update_keeps(3) [OF assms(4)] assms(2,3,5) by simp
  moreover have "keeps_loss m (e2, my_manager y')" using manager_steps_loss [OF assms(6)] assms(7) by simp
  moreover have "handler_inv m" using inv update_keeps(1) [OF assms(4)] by (simp add: manager_inv_def keeps_loss_def)
  ultimately show ?thesis by (auto simp: keeps_loss_def handler_inv_def)
qed

subsection \<open>What the interleavings allow\<close>

text \<open>One join thread, from its start to the point where it may install.\<close>

definition example_joining :: manager_system where
  "example_joining = (case (joinLobby ''al'' manager_state :: u64 \<times> rat manager_act) of (g, e, m) \<Rightarrow> join_begun ''1.2.3.4'' [] True g m manager_start)"

definition example_built :: manager_system where
  "example_built = join_built 0 example_joining"

lemma example_joining:
  "manager_steps manager_start [ChatClear, RegenerateNodeId :: rat manager_effect] example_joining"
proof -
  have "joinLobby ''al'' (my_manager manager_start) =
      (1, [ChatClear, RegenerateNodeId :: rat manager_effect], snd (snd (joinLobby ''al'' manager_state :: u64 \<times> rat manager_act)))"
    by (simp add: joinLobby_def beginJoin_def release_def manager_start_def manager_state_def Let_def)
  from manager_more [OF manager_none ms_join [OF this, where target = "''1.2.3.4''" and pw = "[]" and direct = True]]
  show ?thesis
    by (simp add: example_joining_def joinLobby_def beginJoin_def release_def manager_state_def Let_def)
qed

lemma example_facts:
  "my_joins example_joining = [\<lparr>jt_generation = 1, jt_target = ''1.2.3.4'', jt_password = [], jt_direct = True,
     jt_phase = Trying, jt_attempt = 1\<rparr>]"
  "my_next example_joining = 0" "my_attempts example_joining = 1"
  "nm_joinGeneration (my_manager example_joining) = 1" "nm_backend (my_manager example_joining) = None"
  "nm_voiceMode (my_manager example_joining) = VOICE_MODE_PUSH_TO_TALK" "\<not> nm_hearEnemiesVoice (my_manager example_joining)"
  "\<not> nm_wantsDisconnect (my_manager example_joining)" "\<not> nm_onDisconnected (my_manager example_joining)"
  by (simp_all add: example_joining_def joinLobby_def beginJoin_def join_begun_def manager_start_def manager_state_def Let_def)

lemma example_target: "join_backend False ''1.2.3.4'' True = Some (DialedBackend ''1.2.3.4'' 25000)"
  by code_simp

lemma example_built_facts:
  "my_joins example_built = [\<lparr>jt_generation = 1, jt_target = ''1.2.3.4'', jt_password = [], jt_direct = True,
     jt_phase = Ready 0, jt_attempt = 1\<rparr>]"
  "my_next example_built = 1" "my_attempts example_built = 1" "my_manager example_built = my_manager example_joining"
  by (simp_all add: example_built_def join_built_def example_facts)

lemma build_step:
  assumes "my_joins y = my_joins example_joining" "my_next y = 0"
  shows "manager_step y (Create 0 (DialedBackend ''1.2.3.4'' 25000) # wireBackend 0 (my_manager y)) (join_built 0 y)"
  using ms_build [of 0 y False] example_target assms by (simp add: example_facts)

lemma example_built:
  "manager_steps manager_start [ChatClear, RegenerateNodeId, Create 0 (DialedBackend ''1.2.3.4'' 25000),
     Call 0 (CallVoiceEnabled True), Call 0 (CallHearEnemies False) :: rat manager_effect] example_built"
  using manager_more [OF example_joining build_step [of example_joining]]
  by (simp add: example_built_def example_facts wireBackend_def)

lemma install_step:
  assumes "my_joins y = my_joins example_built" "nm_joinGeneration (my_manager y) = 1" "nm_backend (my_manager y) = None"
  shows "manager_step y [] (join_installed 0 0 True ((my_manager y)\<lparr>nm_backend := Some 0\<rparr>) y)"
  using ms_install [of 0 y 0 True "[]" "(my_manager y)\<lparr>nm_backend := Some 0\<rparr>"] assms
  by (simp add: example_built_facts installBackend_def release_def)

theorem newest_attempt_in_place_witness:
  "\<exists>(seen :: rat manager_effect list) y m. manager_steps manager_start seen y \<and> jt_phase (my_joins y ! 0) = Ready 0 \<and>
     installBackend 0 (jt_generation (my_joins y ! 0)) (my_manager y) = (True, [] :: rat manager_effect list, m) \<and>
     jt_attempt (my_joins y ! 0) = my_attempts y \<and> nm_backend m = Some 0"
proof -
  let ?m = "(my_manager example_built)\<lparr>nm_backend := Some 0\<rparr>"
  have a: "my_attempts example_built < 2 ^ 64" "0 < length (my_joins example_built)" "jt_phase (my_joins example_built ! 0) = Ready 0"
    by (simp_all add: example_built_facts)
  have i: "installBackend 0 (jt_generation (my_joins example_built ! 0)) (my_manager example_built) =
      (True, [] :: rat manager_effect list, ?m)"
    by (simp add: example_built_facts installBackend_def example_facts release_def)
  note all = newest_attempt_in_place [OF example_built a i]
  show ?thesis by (intro exI conjI) (rule example_built, rule a(3), rule i, use all in simp_all)
qed

lemma example_installed:
  "\<exists>(seen :: rat manager_effect list) y. manager_steps manager_start seen y \<and> nm_backend (my_manager y) = Some 0 \<and>
     \<not> nm_wantsDisconnect (my_manager y) \<and> \<not> nm_onDisconnected (my_manager y)"
proof -
  define y where "y = join_installed 0 0 True ((my_manager example_built)\<lparr>nm_backend := Some 0\<rparr>) example_built"
  have y: "nm_backend (my_manager y) = Some 0" "\<not> nm_wantsDisconnect (my_manager y)" "\<not> nm_onDisconnected (my_manager y)"
    by (simp_all add: y_def join_installed_def Let_def example_built_facts example_facts)
  have "manager_step example_built ([] :: rat manager_effect list) y"
    unfolding y_def by (rule install_step) (simp_all add: example_built_facts example_facts)
  from manager_more [OF example_built this] y show ?thesis by blast
qed

theorem lost_connection_kept_witness:
  "\<exists>(y :: manager_system) m e1 m2. manager_update 0 [ConnectionLost] (my_manager y) = (e1 :: rat manager_effect list, m) \<and>
     NotifyDisconnected \<notin> set e1 \<and> setOnDisconnected True m = ([NotifyDisconnected :: rat manager_effect], m2)"
proof -
  obtain seen :: "rat manager_effect list" and y where y: "manager_steps manager_start seen y" "nm_backend (my_manager y) = Some 0"
      "\<not> nm_wantsDisconnect (my_manager y)" "\<not> nm_onDisconnected (my_manager y)"
    using example_installed by blast
  obtain e1 :: "rat manager_effect list" and m where u: "manager_update 0 [ConnectionLost] (my_manager y) = (e1, m)" by fastforce
  have e1: "NotifyDisconnected \<notin> set e1" "nm_onDisconnected m = False"
    using u y(2-4) by (auto simp: manager_update_def leave_if_asked_def on_backend_event_def deliver_queries_def Let_def
        split: if_splits)
  obtain e2 :: "rat manager_effect list" and m2 where h: "setOnDisconnected True m = (e2, m2)" by fastforce
  have "manager_steps (y\<lparr>my_manager := m\<rparr>) ([] @ e2) (y\<lparr>my_manager := m\<rparr>\<lparr>my_manager := m2\<rparr>)"
    by (rule manager_more [OF manager_none ms_handler [of True]]) (simp add: h)
  from lost_connection_kept [OF y(1,2,3) u _ this] e1
  have "NotifyDisconnected \<in> set e2"
    using h by (auto simp: setOnDisconnected_def Let_def split: if_splits)
  then have "e2 = [NotifyDisconnected]" using h by (auto simp: setOnDisconnected_def Let_def split: if_splits)
  with u e1(1) h show ?thesis by blast
qed

text \<open>Leaving does not begin an attempt, so a join still in flight is not abandoned by it: the game is told
  that it has left, and the thread then connects it after all.\<close>

lemma join_survives_disconnect:
  "\<exists>seen y. manager_steps manager_start (seen :: rat manager_effect list) y \<and> NotifyDisconnected \<in> set seen \<and>
     isConnected (my_manager y)"
proof -
  define y1 where "y1 = example_joining\<lparr>my_manager := (my_manager example_joining)\<lparr>nm_onDisconnected := True\<rparr>\<rparr>"
  define y2 where "y2 = y1\<lparr>my_manager := disconnect (my_manager y1)\<rparr>"
  define m3 where "m3 = (my_manager y1)\<lparr>nm_wantsDisconnect := False\<rparr>"
  define y3 where "y3 = y2\<lparr>my_manager := m3\<rparr>"
  define y4 where "y4 = join_built 0 y3"
  define y5 where "y5 = join_installed 0 0 True ((my_manager y4)\<lparr>nm_backend := Some 0\<rparr>) y4"
  have p: "nm_disconnectPending (my_manager example_joining) = False" "nm_onServerQueried (my_manager example_joining) = False"
      "nm_pendingQueries (my_manager example_joining) = []"
    by (simp_all add: example_joining_def joinLobby_def beginJoin_def join_begun_def manager_start_def manager_state_def Let_def)
  have 1: "manager_step example_joining ([] :: rat manager_effect list) y1"
    unfolding y1_def by (rule ms_handler [of True]) (simp add: setOnDisconnected_def p)
  have 2: "manager_step y1 ([] :: rat manager_effect list) y2" unfolding y2_def by (rule ms_disconnect)
  have 3: "manager_step y2 [ChatUpdate (0 :: rat), ChatClear, NotifyDisconnected] y3"
    unfolding y3_def
    by (rule ms_update [of 0 "[]"]) (simp add: manager_update_def leave_if_asked_def setBackend_def deliver_queries_def
        release_def y2_def y1_def disconnect_def m3_def example_facts p Let_def)
  have 4: "manager_step y3 (Create 0 (DialedBackend ''1.2.3.4'' 25000) # wireBackend 0 (my_manager y3) :: rat manager_effect list) y4"
    unfolding y4_def by (rule build_step) (simp_all add: y3_def y2_def y1_def example_facts)
  have 5: "manager_step y4 ([] :: rat manager_effect list) y5"
    unfolding y5_def
    by (rule install_step) (simp_all add: y4_def y3_def y2_def y1_def m3_def join_built_def example_built_facts example_facts)
  have "isConnected (my_manager y5)" by (simp add: y5_def join_installed_def isConnected_def Let_def)
  with manager_more [OF manager_more [OF manager_more [OF manager_more [OF manager_more [OF example_joining 1] 2] 3] 4] 5]
  show ?thesis by fastforce
qed

text \<open>A backend is wired before it is installed: a voice mode set in between reaches no backend.\<close>

lemma voice_mode_lost:
  "\<exists>seen y. manager_steps manager_start (seen :: rat manager_effect list) y \<and> nm_voiceMode (my_manager y) = VOICE_MODE_OFF \<and>
     nm_backend (my_manager y) = Some 0 \<and> Call 0 (CallVoiceEnabled True) \<in> set seen \<and> Call 0 (CallVoiceEnabled False) \<notin> set seen"
proof -
  define y1 where "y1 = example_built\<lparr>my_manager := (my_manager example_built)\<lparr>nm_voiceMode := VOICE_MODE_OFF\<rparr>\<rparr>"
  define y2 where "y2 = join_installed 0 0 True ((my_manager y1)\<lparr>nm_backend := Some 0\<rparr>) y1"
  have 1: "manager_step example_built ([] :: rat manager_effect list) y1"
    unfolding y1_def by (rule ms_voice [of VOICE_MODE_OFF])
      (simp add: setVoiceMode_def on_backend_def example_built_facts example_facts)
  have 2: "manager_step y1 ([] :: rat manager_effect list) y2"
    unfolding y2_def by (rule install_step) (simp_all add: y1_def example_built_facts example_facts)
  have "nm_voiceMode (my_manager y2) = VOICE_MODE_OFF" "nm_backend (my_manager y2) = Some 0"
    by (simp_all add: y2_def y1_def join_installed_def Let_def)
  with manager_more [OF manager_more [OF example_built 1] 2] show ?thesis by fastforce
qed

subsection \<open>Addresses, volumes and results\<close>

lemma to_string_digits: "list_all isdigit (to_string n) \<and> to_string n \<noteq> []"
proof (induction n rule: to_string.induct)
  case (1 n)
  have d: "isdigit (char_of (48 + k))" if "k < 10" for k :: nat
    using that by (simp add: isdigit_def)
  show ?case
  proof (cases "n < 10")
    case True
    then show ?thesis using d [of n] by (simp add: to_string.simps [of n])
  next
    case False
    then show ?thesis using d [of "n mod 10"] 1 by (simp add: to_string.simps [of n])
  qed
qed

lemma decimal_to_string: "decimal (to_string n) = int n"
proof (induction n rule: to_string.induct)
  case (1 n)
  have d: "int (of_char (char_of (48 + k) :: char)) = 48 + int k" if "k < 10" for k :: nat
    using that by simp
  show ?case
  proof (cases "n < 10")
    case True
    then show ?thesis using d [of n] by (simp add: to_string.simps [of n] decimal_def)
  next
    case False
    have "decimal (to_string n) = decimal (to_string (n div 10)) * 10 + int (n mod 10)"
      using False d [of "n mod 10"] by (simp add: to_string.simps [of n] decimal_def)
    moreover have "int n = int (n div 10) * 10 + int (n mod 10)" by presburger
    ultimately show ?thesis using 1 [OF False] by simp
  qed
qed

lemma stoi_to_string: "n < 2 ^ 31 \<Longrightarrow> stoi (to_string n) = Some (int n)"
proof -
  assume n: "n < 2 ^ 31"
  obtain c cs where c: "to_string n = c # cs" "isdigit c"
    using to_string_digits [of n] by (cases "to_string n") auto
  have ns: "\<not> isspace c" "c \<noteq> CHR ''-''" "c \<noteq> CHR ''+''"
    using c(2) by (auto simp: isdigit_def isspace_def)
  then have sign: "sign_of (dropWhile isspace (to_string n)) = (False, to_string n)"
    by (simp add: c(1) sign_of_def)
  have all: "takeWhile isdigit (to_string n) = to_string n"
    using to_string_digits [of n] by (simp add: takeWhile_eq_all_conv list_all_iff)
  show ?thesis
    unfolding stoi_def sign Let_def prod.case all using n to_string_digits [of n] by (simp add: decimal_to_string)
qed

text \<open>The address of a server as the game shows it is read back: a host with a port from 1 to 65535 gives that
  host and port, a bare host gives the default port, and the status of a server is asked for on the
  port after its game port.\<close>

theorem address_read_back:
  assumes "CHR '':'' \<notin> set host" "0 < port" "port \<le> 65535"
  shows "splitAddress (host @ '':'' @ to_string port) = (host, word_of_nat port) \<and> splitAddress host = (host, 25000) \<and>
    (fst (queryServer c (host @ '':'' @ to_string port) s) :: 'f manager_effect list) =
      [OpenQuery c (DirectQuery (host @ '':'' @ to_string port)) host (word_of_nat (port + 1))]"
proof -
  have find: "find_from CHR '':'' (host @ CHR '':'' # rest) 0 = Some (length host)" for rest
    using find_first [OF assms(1)] by blast
  have "stoi (to_string port) = Some (int port)" using assms(3) by (intro stoi_to_string) simp
  then have split: "splitAddress (host @ '':'' @ to_string port) = (host, word_of_nat port)"
    using assms(2,3) find [of "to_string port"] by (simp add: splitAddress_def)
  have "takeWhile (\<lambda>d. d \<noteq> CHR '':'') host = host"
    unfolding takeWhile_eq_all_conv using assms(1) by blast
  then have "index_of CHR '':'' host = None" unfolding index_of_def Let_def by (simp only: less_irrefl if_False)
  then have "find_from CHR '':'' host 0 = None" by (simp add: find_from_def)
  then have "splitAddress host = (host, 25000)" by (simp add: splitAddress_def DEFAULT_GAME_PORT_def)
  moreover have "fst (queryServer c (host @ '':'' @ to_string port) s) =
      [OpenQuery c (DirectQuery (host @ '':'' @ to_string port)) host (word_of_nat port + 1) :: 'f manager_effect]"
    unfolding queryServer_def split by simp
  moreover have "(word_of_nat (port + 1) :: u16) = word_of_nat port + 1" by simp
  ultimately show ?thesis using split by simp
qed

theorem address_read_back_witness:
  "splitAddress (''10.0.0.7'' @ '':'' @ to_string 25010) = (''10.0.0.7'', 25010) \<and>
   splitAddress ''10.0.0.7'' = (''10.0.0.7'', 25000) \<and> to_string 25010 = ''25010''"
proof -
  have host: "CHR '':'' \<notin> set ''10.0.0.7''" by simp
  have "to_string 25010 = ''25010''" by (simp add: to_string.simps char_of_def bit_Suc_0_iff)
  moreover note conjunct1 [OF address_read_back [OF host, of 25010]]
    conjunct1 [OF conjunct2 [OF address_read_back [OF host, of 25010]]]
  ultimately show ?thesis by simp
qed

text \<open>With proximity chat on, the volume of a speaker lies between 0 and 1, is full up to 1.2 units and silent
  from 12 on, and never grows with the distance; with it off it is full everywhere.\<close>

theorem proximity_volume:
  assumes "d \<le> d'"
  shows "let v = calculateProximityVolume rat_fops in
    0 \<le> v d s \<and> v d s \<le> 1 \<and> v d' s \<le> v d s \<and>
    (nm_proximityChatEnabled s \<and> 12 \<le> d \<longrightarrow> v d s = 0) \<and>
    (\<not> nm_proximityChatEnabled s \<or> d \<le> 12 / 10 \<longrightarrow> v d s = 1)"
proof -
  define f where "f x = (if x \<le> 12 / 10 then 1 else if 12 \<le> x then 0 else 1 - (x - 12 / 10) / (12 - 12 / 10))" for x :: rat
  have f: "0 \<le> f x" "f x \<le> 1" for x by (auto simp: f_def field_simps)
  have "f d' \<le> f d" using assms by (auto simp: f_def field_simps)
  then have "f d' * f d' \<le> f d * f d" using f by (intro mult_mono) auto
  moreover have "f x * f x \<le> 1" for x using mult_mono [OF f(2) f(2), of x x] f by simp
  moreover have v: "nm_proximityChatEnabled s \<Longrightarrow> calculateProximityVolume rat_fops x s = f x * f x" for x
    by (simp add: calculateProximityVolume_def f_def Let_def)
  moreover have "\<not> nm_proximityChatEnabled s \<Longrightarrow> calculateProximityVolume rat_fops x s = 1" for x
    by (simp add: calculateProximityVolume_def)
  ultimately show ?thesis using f by (cases "nm_proximityChatEnabled s") (auto simp: f_def Let_def)
qed

theorem proximity_volume_witness:
  "calculateProximityVolume rat_fops 12 manager_state \<le> calculateProximityVolume rat_fops 6 manager_state \<and>
   calculateProximityVolume rat_fops 6 manager_state = 25 / 81"
  using proximity_volume [of 6 12 manager_state]
  by (simp add: Let_def) (simp add: calculateProximityVolume_def manager_state_def Let_def power2_eq_square)

text \<open>A list from the master is shown row by row at the next frame, after what was waiting.\<close>

lemma list_answer_queued:
  "nm_pendingQueries (on_list_answer servers s) = nm_pendingQueries s @ map list_row servers"
proof (induction servers arbitrary: s)
  case (Cons v servers)
  show ?case using Cons [of "pushQueryResult (list_row v) s"] by (simp add: on_list_answer_def pushQueryResult_def)
qed (simp add: on_list_answer_def)

lemma list_answer_shown:
  "nm_onServerQueried s \<Longrightarrow> fst (deliver_queries (on_list_answer servers s)) =
     map NotifyQueried (nm_pendingQueries s @ map list_row servers)"
proof -
  have "nm_onServerQueried (on_list_answer servers s) = nm_onServerQueried s"
    unfolding on_list_answer_def by (induction servers arbitrary: s) (simp_all add: pushQueryResult_def)
  then show "nm_onServerQueried s \<Longrightarrow> ?thesis" by (simp add: deliver_queries_def list_answer_queued Let_def)
qed

text \<open>The host starts a match only when at most one player of its lobby, itself, is not ready.\<close>

lemma ready_gate:
  "length (filter rp_isReady ps) < length ps - Suc 0 \<longleftrightarrow> \<not> length (filter (\<lambda>rp. \<not> rp_isReady rp) ps) \<le> Suc 0"
  using sum_length_filter_compl [of rp_isReady ps] by linarith

lemma startMatch_gate:
  "startMatch view s = (case nm_backend s of
     Some h \<Rightarrow> if nm_hostMode s \<and> bv_roomPlayers (view h) \<noteq> [] \<and>
         length (filter (\<lambda>rp. \<not> rp_isReady rp) (bv_roomPlayers (view h))) \<le> 1
       then [Call h (CallEnqueue StartMatch), Call h (CallSend StartMatch)] else []
   | None \<Rightarrow> [])"
  unfolding startMatch_def Let_def by (simp add: ready_gate split: option.split)

end
