(* ===== verification/NetworkSynchronizer.thy ===== *)
theory NetworkSynchronizer
  imports NetworkManager
begin

section \<open>The network synchronizer\<close>

text \<open>
  \<open>NetworkSynchronizer.h\<close> and \<open>.cpp\<close>: the boxes that stand for the players of a match, their teams, and the
  snapshot other threads read. The backend is the one of \<open>GameBackend\<close>, and its callbacks are run here
  packet by packet (\<open>synced_packet\<close>, \<open>synced_frame\<close>), since \<open>onLeave\<close> takes a node out of the table the next
  packet is looked up in. A box is the engine's node, which the backend holds too and moves: a
  remote box is its position, brought up to date after the easing (\<open>share_positions\<close>), and the one local
  box is written through to the local nodes (\<open>move_local\<close>). Random ids are arguments.
\<close>

record 'f RemotePlayerState =
  rs_id :: u32
  rs_pos :: "'f \<times> 'f \<times> 'f"
  rs_yaw :: 'f
  rs_animState :: u8
  rs_team :: u8

record 'f SyncState =
  sy_localId :: u32
  sy_localPos :: "'f \<times> 'f \<times> 'f"
  sy_boxes :: "(u32, 'f \<times> 'f \<times> 'f) umap"
  sy_teams :: "(u32, u8) umap"
  sy_snapshot :: "'f RemotePlayerState list"
  sy_timer :: 'f
  sy_onRemoteFire :: bool
  sy_onRemoteHit :: bool
  sy_onRemoteKilled :: bool

definition synchronizer :: "'f fops \<Rightarrow> u32 \<Rightarrow> 'f SyncState" where
  "synchronizer fl nodeId = \<lparr>sy_localId = nodeId, sy_localPos = (flit fl 0, flit fl 0, flit fl 0), sy_boxes = [],
     sy_teams = [], sy_snapshot = [], sy_timer = flit fl 0, sy_onRemoteFire = False, sy_onRemoteHit = False,
     sy_onRemoteKilled = False\<rparr>"

datatype 'f sync_effect =
  RemoteFire "'f PlayerFirePacket" | RemoteHit "'f PlayerHitPacket" | RemoteKilled PlayerKilledPacket

type_synonym 'f synced = "'f BackendState \<times> 'f SyncState"

definition regenerateLocalNodeId :: "u32 \<Rightarrow> 'f SyncState \<Rightarrow> 'f SyncState" where
  "regenerateLocalNodeId drawn y = y\<lparr>sy_localId := drawn\<rparr>"

definition spawn :: "'f fops \<Rightarrow> 'f \<times> 'f \<times> 'f" where
  "spawn fl = (flit fl (3 / 2), flit fl (1 / 4), flit fl (3 / 2))"

text \<open>A player the room list does not have is taken to be in team 1.\<close>

definition listed_team :: "u32 \<Rightarrow> RoomPlayerInfo list \<Rightarrow> u8" where
  "listed_team netId players = (case find_player netId players of Some rp \<Rightarrow> rp_team rp | None \<Rightarrow> 1)"

fun seed_teams :: "u32 \<Rightarrow> RoomPlayerInfo list \<Rightarrow> (u32, u8) umap \<Rightarrow> (u32, u8) umap" where
  "seed_teams me [] teams = teams"
| "seed_teams me (rp # players) teams =
     seed_teams me players (if rp_id rp \<noteq> me then um_put (rp_id rp) (rp_team rp) teams else teams)"

definition move_local :: "'f \<times> 'f \<times> 'f \<Rightarrow> 'f BackendState \<Rightarrow> 'f BackendState" where
  "move_local pos s = s\<lparr>gb_nodes := map (\<lambda>(netId, n). (netId, if nn_local n then n\<lparr>nn_pos := pos\<rparr> else n)) (gb_nodes s)\<rparr>"

definition sync_setup :: "'f fops \<Rightarrow> 'f synced \<Rightarrow> 'f synced" where
  "sync_setup fl sy = (case sy of (s, y) \<Rightarrow>
     (let y = y\<lparr>sy_boxes := [], sy_teams := [], sy_snapshot := [], sy_timer := flit fl 0, sy_localPos := spawn fl\<rparr>;
          s = move_local (sy_localPos y) s;
          s = attachNode fl (sy_localId y) (Some (sy_localPos y)) True s;
          s = s\<lparr>gb_localTeam := listed_team (sy_localId y) (gb_roomPlayers s)\<rparr>;
          y = y\<lparr>sy_teams := seed_teams (sy_localId y) (gb_roomPlayers s) (sy_teams y)\<rparr>
      in (s, y)))"

subsection \<open>The callbacks of the backend\<close>

text \<open>\<open>onJoin\<close>: what it does to the node table, and what it keeps.\<close>

definition onjoin_nodes :: "'f fops \<Rightarrow> u32 \<Rightarrow> u32 \<Rightarrow> (u32, 'f NetNode) umap \<Rightarrow> (u32, 'f NetNode) umap" where
  "onjoin_nodes fl me netId nodes =
     (if netId = me then nodes
      else gb_nodes (attachNode fl netId (Some (spawn fl)) False ((backend_state fl)\<lparr>gb_nodes := nodes\<rparr>)))"

definition sync_onJoin :: "'f fops \<Rightarrow> u32 \<Rightarrow> RoomPlayerInfo list \<Rightarrow> 'f SyncState \<Rightarrow> 'f SyncState" where
  "sync_onJoin fl netId players y =
     (if netId = sy_localId y then y
      else y\<lparr>sy_boxes := um_put netId (spawn fl) (sy_boxes y),
             sy_teams := um_put netId (listed_team netId players) (sy_teams y)\<rparr>)"

definition sync_onLeave :: "u32 \<Rightarrow> 'f synced \<Rightarrow> 'f synced" where
  "sync_onLeave netId sy = (case sy of (s, y) \<Rightarrow>
     (detachNode netId s, y\<lparr>sy_boxes := um_erase netId (sy_boxes y), sy_teams := um_erase netId (sy_teams y)\<rparr>))"

definition sync_onTeamChanged :: "u32 \<Rightarrow> u8 \<Rightarrow> 'f SyncState \<Rightarrow> 'f SyncState" where
  "sync_onTeamChanged netId teamId y = y\<lparr>sy_teams := um_put netId teamId (sy_teams y)\<rparr>"

fun sync_callback :: "'f fops \<Rightarrow> 'f backend_effect \<Rightarrow> 'f synced \<Rightarrow> 'f sync_effect list \<times> 'f synced" where
  "sync_callback fl (OnJoin netId) (s, y) = ([], s, sync_onJoin fl netId (gb_roomPlayers s) y)"
| "sync_callback fl (OnLeave netId) sy = ([], sync_onLeave netId sy)"
| "sync_callback fl (OnTeamChanged netId teamId) (s, y) = ([], s, sync_onTeamChanged netId teamId y)"
| "sync_callback fl (OnPlayerFired p) (s, y) = (if sy_onRemoteFire y then [RemoteFire p] else [], s, y)"
| "sync_callback fl (OnPlayerHit p) (s, y) = (if sy_onRemoteHit y then [RemoteHit p] else [], s, y)"
| "sync_callback fl (OnPlayerKilled p) (s, y) = (if sy_onRemoteKilled y then [RemoteKilled p] else [], s, y)"
| "sync_callback fl _ sy = ([], sy)"

fun sync_callbacks :: "'f fops \<Rightarrow> 'f backend_effect list \<Rightarrow> 'f synced \<Rightarrow> 'f sync_effect list \<times> 'f synced" where
  "sync_callbacks fl [] sy = ([], sy)"
| "sync_callbacks fl (e # es) sy = (case sync_callback fl e sy of (told, sy) \<Rightarrow>
     (case sync_callbacks fl es sy of (others, sy) \<Rightarrow> (told @ others, sy)))"

definition sync_env :: "'f fops \<Rightarrow> 'f SyncState \<Rightarrow> 'f backend_env \<Rightarrow> 'f backend_env" where
  "sync_env fl y env = env\<lparr>be_localNodeId := sy_localId y, be_onjoin := onjoin_nodes fl (sy_localId y)\<rparr>"

definition synced_packet ::
  "'f fops \<Rightarrow> 'f backend_env \<Rightarrow> 'f \<Rightarrow> 'f game_packet \<Rightarrow> 'f synced \<Rightarrow> 'f sync_effect list \<times> 'f synced" where
  "synced_packet fl env now p sy = (case sy of (s, y) \<Rightarrow>
     (case onPacketReceived fl (sync_env fl y env) now p s of (effects, s) \<Rightarrow> sync_callbacks fl effects (s, y)))"

fun synced_receive ::
  "'f fops \<Rightarrow> 'f backend_env \<Rightarrow> ('f game_packet \<times> 'f) list \<Rightarrow> 'f synced \<Rightarrow> 'f sync_effect list \<times> 'f synced" where
  "synced_receive fl env [] sy = ([], sy)"
| "synced_receive fl env ((p, now) # batch) sy = (case synced_packet fl env now p sy of (told, sy) \<Rightarrow>
     (case synced_receive fl env batch sy of (others, sy) \<Rightarrow> (told @ others, sy)))"

text \<open>The boxes are the nodes the backend moved.\<close>

definition share_positions :: "'f synced \<Rightarrow> 'f synced" where
  "share_positions sy = (case sy of (s, y) \<Rightarrow>
     (s, y\<lparr>sy_boxes := map (\<lambda>(netId, pos). (netId, case um_find (gb_nodes s) netId of
          Some n \<Rightarrow> if nn_local n then pos else nn_pos n | None \<Rightarrow> pos)) (sy_boxes y)\<rparr>))"

definition synced_frame ::
  "'f fops \<Rightarrow> 'f backend_env \<Rightarrow> (nat \<Rightarrow> 'f) \<Rightarrow> u64 \<Rightarrow> 'f \<Rightarrow> 'f synced \<Rightarrow> 'f sync_effect list \<times> 'f synced" where
  "synced_frame fl env clock now_ms deltaTime sy = (case sy of (s, y) \<Rightarrow>
     (let batch = gb_packetQueue s; tasks = gb_tasks s; s = s\<lparr>gb_packetQueue := [], gb_tasks := []\<rparr>;
          (told, s, y) = synced_receive fl env (zip batch (map clock [0..<length batch])) (s, y);
          (run, s) = run_tasks tasks s;
          (sent, s) = frame_tail fl (sync_env fl y env) now_ms deltaTime s
      in (told, share_positions (s, y))))"

subsection \<open>The operations of the game\<close>

definition getRemoteTeam :: "u32 \<Rightarrow> 'f SyncState \<Rightarrow> u8" where
  "getRemoteTeam netId y = (case um_find (sy_teams y) netId of Some team \<Rightarrow> team | None \<Rightarrow> 1)"

definition publishSnapshot :: "'f fops \<Rightarrow> 'f synced \<Rightarrow> 'f synced" where
  "publishSnapshot fl sy = (case sy of (s, y) \<Rightarrow>
     (s, y\<lparr>sy_snapshot := map (\<lambda>(netId, pos). \<lparr>rs_id = netId, rs_pos = pos, rs_yaw = getRemoteYaw fl netId s,
        rs_animState = getRemoteAnimState netId s, rs_team = getRemoteTeam netId y\<rparr>) (sy_boxes y)\<rparr>))"

definition sync_update :: "'f fops \<Rightarrow> 'f \<Rightarrow> 'f \<times> 'f \<times> 'f \<Rightarrow> 'f \<Rightarrow> u8 \<Rightarrow> 'f synced \<Rightarrow> 'f synced" where
  "sync_update fl deltaTime camera cameraYaw animState sy = (case sy of (s, y) \<Rightarrow>
     (let y = y\<lparr>sy_timer := fadd fl (sy_timer y) deltaTime\<rparr>;
          (s, y) = (if fle fl (flit fl (1 / 20)) (sy_timer y)
            then (let y = y\<lparr>sy_timer := flit fl 0,
                        sy_localPos := (case camera of (cx, cy, cz) \<Rightarrow> (cx, fsub fl cy (flit fl (7 / 40)), cz))\<rparr>;
                      s = move_local (sy_localPos y) s;
                      s = setLocalYaw (sy_localId y) cameraYaw s;
                      s = setLocalAnimState (sy_localId y) animState s
                  in (s, y))
            else (s, y))
      in publishSnapshot fl (s, y)))"

definition sync_switchTeam :: "ManagerState \<Rightarrow> 'f synced \<Rightarrow> 'f manager_effect list \<times> 'f synced" where
  "sync_switchTeam manager sy = (case sy of (s, y) \<Rightarrow>
     (let newTeam = (if gb_localTeam s = 1 then 2 else 1);
          s = s\<lparr>gb_localTeam := newTeam\<rparr>
      in (switchTeam (sy_localId y) newTeam manager, s, y)))"

definition sync_cleanup :: "'f synced \<Rightarrow> 'f synced" where
  "sync_cleanup sy = (case sy of (s, y) \<Rightarrow>
     (let s = detachNode (sy_localId y) s; detachids = map fst (sy_boxes y);
          y = y\<lparr>sy_boxes := [], sy_teams := [], sy_snapshot := []\<rparr>
      in (fold detachNode detachids s, y)))"

definition sync_sendFireEvent :: "'f PlayerFirePacket \<Rightarrow> 'f SyncState \<Rightarrow> 'f backend_effect" where
  "sync_sendFireEvent p y = sendFireEvent (p\<lparr>pf_shooterId := sy_localId y\<rparr>)"

definition sync_sendHitEvent :: "u32 \<Rightarrow> 'f \<Rightarrow> 'f SyncState \<Rightarrow> 'f backend_effect" where
  "sync_sendHitEvent victimId damage y = sendHitEvent (sy_localId y) victimId damage"

definition sync_sendKillEvent :: "u32 \<Rightarrow> u32 \<Rightarrow> 'f backend_effect" where
  "sync_sendKillEvent killerId victimId = sendKillEvent killerId victimId"

text \<open>Without a backend \<open>setup\<close>, \<open>update\<close>, \<open>cleanup\<close>, \<open>switchTeam\<close> and the events do nothing.\<close>

definition with_backend :: "('f synced \<Rightarrow> 'f synced) \<Rightarrow> 'f BackendState option \<times> 'f SyncState \<Rightarrow> 'f BackendState option \<times> 'f SyncState" where
  "with_backend f sy = (case sy of (None, y) \<Rightarrow> (None, y) | (Some s, y) \<Rightarrow> (case f (s, y) of (s, y) \<Rightarrow> (Some s, y)))"

subsection \<open>Boxes and nodes agree\<close>

definition box_of :: "'f NetNode option \<Rightarrow> ('f \<times> 'f \<times> 'f) option" where
  "box_of n = (case n of Some n \<Rightarrow> if nn_local n then None else Some (nn_pos n) | None \<Rightarrow> None)"

definition team_known :: "'f NetNode option \<Rightarrow> u8 option \<Rightarrow> bool" where
  "team_known n team = (case n of Some n \<Rightarrow> nn_local n \<or> nn_team n = 0 \<or> team = Some (nn_team n) | None \<Rightarrow> True)"

definition synced_inv :: "'f synced \<Rightarrow> bool" where
  "synced_inv sy \<longleftrightarrow> um_wf (gb_nodes (fst sy)) \<and> um_wf (sy_boxes (snd sy)) \<and>
     (\<forall>netId. um_find (sy_boxes (snd sy)) netId = box_of (um_find (gb_nodes (fst sy)) netId) \<and>
       team_known (um_find (gb_nodes (fst sy)) netId) (um_find (sy_teams (snd sy)) netId))"

text \<open>Only node states and departures concern the boxes.\<close>

fun boxless :: "'f backend_effect \<Rightarrow> bool" where
  "boxless (OnJoin _) = False" | "boxless (OnLeave _) = False" | "boxless (OnTeamChanged _ _) = False" | "boxless _ = True"

lemma boxless_callback: "boxless e \<Longrightarrow> snd (sync_callback fl e sy) = sy"
  by (cases sy; cases e) simp_all

lemma snd_sync_callbacks:
  "snd (sync_callbacks fl (e # es) sy) = snd (sync_callbacks fl es (snd (sync_callback fl e sy)))"
  by (simp split: prod.split)

lemma boxless_callbacks: "list_all boxless es \<Longrightarrow> snd (sync_callbacks fl es sy) = sy"
proof (induction es)
  case (Cons e es)
  then show ?case unfolding snd_sync_callbacks by (simp add: boxless_callback)
qed simp

fun moves_boxes :: "'f game_packet \<Rightarrow> bool" where
  "moves_boxes (NodeState _) = True" | "moves_boxes (NodeLeave _) = True" | "moves_boxes _ = False"

lemma lobby_steps_boxless:
  "list_all boxless (fst (on_lobby_state ls s)) \<and> gb_nodes (snd (on_lobby_state ls s)) = gb_nodes s"
  "list_all boxless (fst (on_start_match env s)) \<and> gb_nodes (snd (on_start_match env s)) = gb_nodes s"
  "list_all boxless (fst (on_lobby_join env lj s)) \<and> gb_nodes (snd (on_lobby_join env lj s)) = gb_nodes s"
  "list_all boxless (fst (on_toggle_ready tr s)) \<and> gb_nodes (snd (on_toggle_ready tr s)) = gb_nodes s"
  "list_all boxless (fst (on_switch_team sw s)) \<and> gb_nodes (snd (on_switch_team sw s)) = gb_nodes s"
  by (auto simp: on_lobby_state_def on_start_match_def on_lobby_join_def on_toggle_ready_def on_switch_team_def
      broadcast_lobby_def publishPlayerCount_def Let_def split: option.splits)

lemma route_nodes: "gb_nodes (snd (host_route_chat fl now p s)) = gb_nodes s"
  by (auto simp: host_route_chat_def allowChatRate_def Let_def split: option.splits prod.splits bool.splits if_splits)

lemma chat_boxless:
  "list_all boxless (fst (on_chat fl env now p s)) \<and> gb_nodes (snd (on_chat fl env now p s)) = gb_nodes s"
  using route_nodes [of fl now "p\<lparr>ch_text := clean_text (ch_text p)\<rparr>" s]
  by (auto simp: on_chat_def Let_def split: prod.splits option.splits)

lemma dispatch_boxless:
  "\<not> moves_boxes p \<Longrightarrow> list_all boxless (fst (dispatch_packet fl env now p s)) \<and>
     gb_nodes (snd (dispatch_packet fl env now p s)) = gb_nodes s"
  by (cases p) (simp_all add: lobby_steps_boxless chat_boxless on_ping_snapshot_def)

lemma inv_same_nodes: "synced_inv (s, y) \<Longrightarrow> gb_nodes s' = gb_nodes s \<Longrightarrow> synced_inv (s', y)"
  by (simp add: synced_inv_def)

lemma onjoin_nodes_found [simp]:
  "um_find (onjoin_nodes fl me netId nodes) k = (if netId \<noteq> me \<and> k = netId
     then Some \<lparr>nn_pos = spawn fl, nn_local = False, nn_team = 0, nn_target = spawn fl, nn_targetYaw = flit fl 0,
       nn_localYaw = flit fl 0, nn_targetAnimState = 0, nn_localAnimState = 0\<rparr> else um_find nodes k)"
  by (simp add: onjoin_nodes_def attachNode_def)

lemma onjoin_nodes_wf [simp]: "um_wf nodes \<Longrightarrow> um_wf (onjoin_nodes fl me netId nodes)"
  by (simp add: onjoin_nodes_def attachNode_def)

lemma leave_inv: "synced_inv (s, y) \<Longrightarrow> synced_inv (sync_onLeave netId (s, y))"
  by (auto simp: synced_inv_def sync_onLeave_def detachNode_def box_of_def team_known_def)

text \<open>A node state of a player the table does not have is one after \<open>onJoin\<close>, of one it has.\<close>

lemma joined_inv:
  assumes "synced_inv (s, y)" "netId \<noteq> sy_localId y" "um_find (gb_nodes s) netId = None"
  shows "synced_inv (s\<lparr>gb_nodes := onjoin_nodes fl (sy_localId y) netId (gb_nodes s)\<rparr>, sync_onJoin fl netId players y)"
  using assms by (auto simp: synced_inv_def sync_onJoin_def box_of_def team_known_def)

lemma known_state_inv:
  assumes "synced_inv (s, y)" "um_find (gb_nodes s) (ns_netid p) = Some n"
  shows "synced_inv (snd (sync_callbacks fl (fst (on_node_state env p s)) (snd (on_node_state env p s), y)))"
proof -
  have "team_known (um_find (gb_nodes s) (ns_netid p)) (um_find (sy_teams y) (ns_netid p))"
    using assms(1) by (simp add: synced_inv_def)
  then show ?thesis using assms by (cases "nn_local n"; cases "nn_team n = ns_team p")
    (auto simp: on_node_state_def synced_inv_def sync_onTeamChanged_def box_of_def team_known_def)
qed

lemma node_state_joins:
  assumes "um_find (gb_nodes s) (ns_netid p) = None" "ns_netid p \<noteq> sy_localId y"
  shows "on_node_state (sync_env fl y env) p s = (case on_node_state env' p
     (s\<lparr>gb_nodes := onjoin_nodes fl (sy_localId y) (ns_netid p) (gb_nodes s)\<rparr>) of (es, s) \<Rightarrow> (OnJoin (ns_netid p) # es, s))"
  using assms by (simp add: on_node_state_def sync_env_def Let_def)

subsection \<open>The frame, the operations and every reachable state\<close>

lemma snd_synced_receive:
  "snd (synced_receive fl env ((p, now) # batch) sy) = snd (synced_receive fl env batch (snd (synced_packet fl env now p sy)))"
  by (simp split: prod.split)

lemma tasks_nodes: "gb_nodes (snd (run_tasks tasks s)) = gb_nodes s"
proof (induction tasks arbitrary: s)
  case (Cons t tasks)
  have "gb_nodes (snd (run_task t s)) = gb_nodes s" by (cases t) (simp_all add: Let_def)
  then show ?case using Cons by (simp split: prod.split) (metis snd_conv)
qed simp

text \<open>The easing moves remote nodes and nothing else; the boxes are brought up to date after it.\<close>

definition same_but_moved :: "'f BackendState \<Rightarrow> 'f BackendState \<Rightarrow> bool" where
  "same_but_moved s s' \<longleftrightarrow> map fst (gb_nodes s') = map fst (gb_nodes s) \<and>
     (\<forall>netId. rel_option (\<lambda>n n'. nn_local n' = nn_local n \<and> nn_team n' = nn_team n)
        (um_find (gb_nodes s) netId) (um_find (gb_nodes s') netId))"

lemma um_find_map [simp]: "um_find (map (\<lambda>(k, v). (k, f k v)) m) k = map_option (f k) (um_find m k)"
  unfolding um_find_def by (induction m) auto

lemma fst_map_pairs [simp]: "map fst (map (\<lambda>(k, v). (k, f k v)) m) = map fst m"
  by (induction m) auto

lemma um_wf_map [simp]: "um_wf (map (\<lambda>(k, v). (k, f k v)) m) = um_wf m"
  by (simp only: um_wf_def fst_map_pairs)

lemma moved_refl: "gb_nodes s' = gb_nodes s \<Longrightarrow> same_but_moved s s'"
  by (simp add: same_but_moved_def option.rel_refl)

lemma ease_moved: "same_but_moved s (ease_nodes fl dt s)"
  by (auto simp: same_but_moved_def ease_nodes_def ease_node_def option.rel_map Let_def split: prod.split intro!: option.rel_refl)

lemma frame_tail_moved: "same_but_moved s (snd (frame_tail fl env ms dt s))"
proof -
  obtain a s1 where a: "keep_alive fl dt s = (a, s1)" by fastforce
  then have 1: "gb_nodes s1 = gb_nodes s" by (auto simp: keep_alive_def Let_def split: if_splits)
  obtain b w s2 where b: "watch_connection fl env ms dt s1 = (b, w, s2)" by (metis prod.exhaust)
  then have 2: "gb_nodes s2 = gb_nodes s1"
    by (auto simp: watch_connection_def send_ping_def Let_def split: if_splits)
  have 3: "gb_nodes (snd (network_tick fl dt s')) = gb_nodes s'" for s' by (simp add: network_tick_def Let_def)
  have "same_but_moved s (snd (network_tick fl dt (ease_nodes fl dt s2)))"
    using ease_moved [of s2 fl dt] 1 2 3 by (simp add: same_but_moved_def)
  then show ?thesis using a b 1 2 by (auto simp: frame_tail_def moved_refl split: prod.split)
qed

lemma share_inv:
  assumes "synced_inv (s, y)" "same_but_moved s s'"
  shows "synced_inv (share_positions (s', y))"
proof -
  have "box_of (um_find (gb_nodes s') i) = map_option (\<lambda>pos. case um_find (gb_nodes s') i of
      Some n \<Rightarrow> if nn_local n then pos else nn_pos n | None \<Rightarrow> pos) (um_find (sy_boxes y) i) \<and>
    team_known (um_find (gb_nodes s') i) (um_find (sy_teams y) i)" for i
  proof -
    have "rel_option (\<lambda>n n'. nn_local n' = nn_local n \<and> nn_team n' = nn_team n) (um_find (gb_nodes s) i) (um_find (gb_nodes s') i)"
      using assms(2) by (simp add: same_but_moved_def)
    moreover have "um_find (sy_boxes y) i = box_of (um_find (gb_nodes s) i)"
        "team_known (um_find (gb_nodes s) i) (um_find (sy_teams y) i)"
      using assms(1) by (simp_all add: synced_inv_def)
    ultimately show ?thesis
      by (cases "um_find (gb_nodes s) i"; cases "um_find (gb_nodes s') i") (auto simp: box_of_def team_known_def)
  qed
  then show ?thesis using assms by (simp add: synced_inv_def share_positions_def same_but_moved_def um_wf_def [of "gb_nodes _"])
qed

lemma move_local_find [simp]:
  "um_find (gb_nodes (move_local pos s)) i = map_option (\<lambda>n. if nn_local n then n\<lparr>nn_pos := pos\<rparr> else n) (um_find (gb_nodes s) i)"
  by (simp add: move_local_def)

lemma move_local_inv: "synced_inv (s, y) \<Longrightarrow> synced_inv (move_local pos s, y)"
  by (auto simp: synced_inv_def move_local_def box_of_def team_known_def split: option.splits)

lemma local_state_inv:
  "synced_inv (s, y) \<Longrightarrow> synced_inv (setLocalYaw netId yaw s, y)"
  "synced_inv (s, y) \<Longrightarrow> synced_inv (setLocalAnimState netId anim s, y)"
  by (auto simp: synced_inv_def setLocalYaw_def setLocalAnimState_def box_of_def team_known_def split: option.splits)

lemma inv_boxes_teams:
  "synced_inv (s, y) \<Longrightarrow> sy_boxes y' = sy_boxes y \<Longrightarrow> sy_teams y' = sy_teams y \<Longrightarrow> synced_inv (s, y')"
  by (simp add: synced_inv_def)

lemma publish_inv: "synced_inv sy \<Longrightarrow> synced_inv (publishSnapshot fl sy)"
  by (cases sy) (simp add: publishSnapshot_def inv_boxes_teams)

lemma sync_update_inv: "synced_inv sy \<Longrightarrow> synced_inv (sync_update fl dt camera yaw anim sy)"
  by (cases sy) (auto simp: sync_update_def Let_def intro!: publish_inv local_state_inv move_local_inv intro: inv_boxes_teams)

lemma detach_all:
  "um_find (gb_nodes (fold detachNode ids s)) i = (if i \<in> set ids then None else um_find (gb_nodes s) i)"
  by (induction ids arbitrary: s) (auto simp: detachNode_def)

lemma detach_all_wf: "um_wf (gb_nodes s) \<Longrightarrow> um_wf (gb_nodes (fold detachNode ids s))"
  by (induction ids arbitrary: s) (auto simp: detachNode_def)

text \<open>\<open>own_node\<close>: the local node, if attached, is the one under the own id. \<open>boxed\<close>: who has a box.\<close>

definition own_node :: "'f synced \<Rightarrow> bool" where
  "own_node sy \<longleftrightarrow> (\<forall>i n. um_find (gb_nodes (fst sy)) i = Some n \<longrightarrow> nn_local n = (i = sy_localId (snd sy)))"

definition boxed :: "'f synced \<Rightarrow> u32 set" where
  "boxed sy = {i. \<not> Option.is_none (um_find (sy_boxes (snd sy)) i)}"

text \<open>Who is in the match after a packet, by the packet alone.\<close>

fun after_packet :: "u32 \<Rightarrow> 'f game_packet \<Rightarrow> u32 set \<Rightarrow> u32 set" where
  "after_packet me (NodeState p) ids = (if ns_netid p = me then ids else insert (ns_netid p) ids)"
| "after_packet me (NodeLeave p) ids = ids - {nl_netid p}"
| "after_packet me _ ids = ids"

definition in_step :: "u32 \<Rightarrow> u32 set \<Rightarrow> 'f synced \<Rightarrow> bool" where
  "in_step me ids sy \<longleftrightarrow> synced_inv sy \<and> own_node sy \<and> sy_localId (snd sy) = me \<and> boxed sy = ids"

lemma setup_in_step: "gb_nodes s = [] \<Longrightarrow> in_step (sy_localId y) {} (sync_setup fl (s, y))"
  by (simp add: in_step_def synced_inv_def own_node_def boxed_def sync_setup_def attachNode_def move_local_def box_of_def
      team_known_def Let_def)

lemma in_step_same_nodes: "in_step me ids (s, y) \<Longrightarrow> gb_nodes s' = gb_nodes s \<Longrightarrow> in_step me ids (s', y)"
  by (auto simp: in_step_def own_node_def boxed_def intro: inv_same_nodes)

lemma known_state_in_step:
  assumes "in_step me ids (s, y)" "um_find (gb_nodes s) (ns_netid p) = Some n"
  shows "in_step me ids (snd (sync_callbacks fl (fst (on_node_state env p s)) (snd (on_node_state env p s), y)))"
  using assms known_state_inv [of s y p n fl env]
  by (cases "nn_local n"; cases "nn_team n = ns_team p")
    (auto simp: in_step_def own_node_def boxed_def on_node_state_def sync_onTeamChanged_def)

lemma joined_in_step:
  assumes "in_step me ids (s, y)" "netId \<noteq> me" "um_find (gb_nodes s) netId = None"
  shows "in_step me (insert netId ids)
    (s\<lparr>gb_nodes := onjoin_nodes fl me netId (gb_nodes s)\<rparr>, sync_onJoin fl netId players y)"
  using assms joined_inv [of s y netId fl players]
  by (auto simp: in_step_def own_node_def boxed_def sync_onJoin_def)

lemma node_state_in_step:
  assumes step: "in_step me ids (s, y)"
  shows "in_step me (after_packet me (NodeState p) ids)
    (snd (sync_callbacks fl (fst (on_node_state (sync_env fl y env) p s)) (snd (on_node_state (sync_env fl y env) p s), y)))"
proof (cases "um_find (gb_nodes s) (ns_netid p)")
  case (Some n)
  have "ns_netid p = me \<or> ns_netid p \<in> ids"
    using Some step by (auto simp: in_step_def synced_inv_def own_node_def boxed_def box_of_def)
  then have "after_packet me (NodeState p) ids = ids" by auto
  then show ?thesis using known_state_in_step [OF step Some] by simp
next
  case None
  have me: "sy_localId y = me" using step by (simp add: in_step_def)
  show ?thesis
  proof (cases "ns_netid p = me")
    case True
    then have "on_node_state (sync_env fl y env) p s = ([OnJoin (ns_netid p)], s)"
      using None me by (simp add: on_node_state_def sync_env_def Let_def onjoin_nodes_def)
    then show ?thesis using step True me by (simp add: sync_onJoin_def)
  next
    case False
    let ?s = "s\<lparr>gb_nodes := onjoin_nodes fl me (ns_netid p) (gb_nodes s)\<rparr>"
    let ?y = "sync_onJoin fl (ns_netid p) (gb_roomPlayers s) y"
    have "in_step me (insert (ns_netid p) ids)
        (snd (sync_callbacks fl (fst (on_node_state env p ?s)) (snd (on_node_state env p ?s), ?y)))"
      using known_state_in_step [OF joined_in_step [OF step False None]] False by simp
    moreover have "gb_roomPlayers (snd (on_node_state env p ?s)) = gb_roomPlayers s"
      by (simp add: on_node_state_def Let_def split: option.split)
    ultimately show ?thesis using False me
      unfolding node_state_joins [where y = y and env' = env, OF None False [folded me]] by (simp add: case_prod_beta)
  qed
qed

lemma node_leave_in_step:
  assumes "in_step me ids (s, y)"
  shows "in_step me (ids - {nl_netid p}) (snd (sync_callbacks fl (fst (on_leave p s)) (snd (on_leave p s), y)))"
proof -
  have "gb_nodes (snd (on_leave p s)) = gb_nodes s" by (simp add: on_leave_def publishPlayerCount_def Let_def)
  then have "in_step me ids (snd (on_leave p s), y)" using assms in_step_same_nodes by blast
  then have "in_step me (ids - {nl_netid p}) (sync_onLeave (nl_netid p) (snd (on_leave p s), y))"
    using leave_inv [of "snd (on_leave p s)" y "nl_netid p"]
    by (auto simp: in_step_def own_node_def boxed_def sync_onLeave_def detachNode_def)
  then show ?thesis by (auto simp: on_leave_def broadcast_lobby_def Let_def split: prod.splits)
qed

lemma packet_in_step: "in_step me ids sy \<Longrightarrow> in_step me (after_packet me p ids) (snd (synced_packet fl env now p sy))"
proof (cases sy)
  case (Pair s y)
  assume step: "in_step me ids sy"
  let ?s = "s\<lparr>gb_timeSinceLastKeepAlive := flit fl 0\<rparr>"
  have step': "in_step me ids (?s, y)" using step Pair in_step_same_nodes [of me ids s y ?s] by simp
  show ?thesis
  proof (cases "moves_boxes p")
    case False
    let ?r = "dispatch_packet fl (sync_env fl y env) now p ?s"
    have "snd (sync_callbacks fl (fst ?r) (snd ?r, y)) = (snd ?r, y)"
      using dispatch_boxless [OF False] boxless_callbacks by blast
    moreover have "in_step me ids (snd ?r, y)" using dispatch_boxless [OF False] step' in_step_same_nodes by blast
    moreover have "after_packet me p ids = ids" using False by (cases p) simp_all
    ultimately show ?thesis by (simp add: Pair synced_packet_def onPacketReceived_def case_prod_beta)
  next
    case True
    then show ?thesis using node_state_in_step [OF step', of _ fl env] node_leave_in_step [OF step', of _ fl]
      by (cases p) (simp_all add: Pair synced_packet_def onPacketReceived_def case_prod_beta)
  qed
qed

lemma receive_in_step:
  "in_step me ids sy \<Longrightarrow>
     in_step me (fold (after_packet me) (map fst batch) ids) (snd (synced_receive fl env batch sy))"
proof (induction batch arbitrary: ids sy)
  case (Cons q batch)
  obtain p now where q: "q = (p, now)" by fastforce
  show ?case unfolding q snd_synced_receive list.map fold.simps comp_apply fst_conv
    by (intro Cons.IH packet_in_step Cons.prems)
qed simp

lemma share_in_step: "in_step me ids (s, y) \<Longrightarrow> same_but_moved s s' \<Longrightarrow> in_step me ids (share_positions (s', y))"
proof -
  assume step: "in_step me ids (s, y)" and moved: "same_but_moved s s'"
  have "own_node (s', y)" unfolding own_node_def
  proof (intro allI impI)
    fix i n'
    assume "um_find (gb_nodes (fst (s', y))) i = Some n'"
    moreover have "rel_option (\<lambda>n n'. nn_local n' = nn_local n \<and> nn_team n' = nn_team n) (um_find (gb_nodes s) i) (um_find (gb_nodes s') i)"
      using moved by (simp add: same_but_moved_def)
    ultimately obtain n where "um_find (gb_nodes s) i = Some n" "nn_local n' = nn_local n"
      by (auto simp: option_rel_Some2)
    then show "nn_local n' = (i = sy_localId (snd (s', y)))" using step by (auto simp: in_step_def own_node_def)
  qed
  then show ?thesis using step share_inv [of s y s'] moved
    by (auto simp: in_step_def own_node_def boxed_def share_positions_def Option.is_none_def)
qed

lemma frame_in_step:
  assumes "in_step me ids (s, y)"
  shows "in_step me (fold (after_packet me) (gb_packetQueue s) ids) (snd (synced_frame fl env clock ms dt (s, y)))"
proof -
  let ?s = "s\<lparr>gb_packetQueue := [], gb_tasks := []\<rparr>"
  let ?batch = "zip (gb_packetQueue s) (map clock [0..<length (gb_packetQueue s)])"
  obtain told s1 y1 where r: "synced_receive fl env ?batch (?s, y) = (told, s1, y1)" by (metis prod.exhaust)
  have "map fst ?batch = gb_packetQueue s" by simp
  then have "in_step me (fold (after_packet me) (gb_packetQueue s) ids) (s1, y1)"
    using receive_in_step [of me ids "(?s, y)" ?batch fl env] in_step_same_nodes [OF assms, of ?s] r by simp
  then have "in_step me (fold (after_packet me) (gb_packetQueue s) ids) (snd (run_tasks (gb_tasks s) s1), y1)"
    using in_step_same_nodes tasks_nodes by blast
  from share_in_step [OF this frame_tail_moved] show ?thesis
    by (simp add: synced_frame_def Let_def r case_prod_beta)
qed

lemma local_own:
  "own_node (s, y) \<Longrightarrow> own_node (move_local pos s, y)"
  "own_node (s, y) \<Longrightarrow> own_node (setLocalYaw i yaw s, y)"
  "own_node (s, y) \<Longrightarrow> own_node (setLocalAnimState i anim s, y)"
  by (auto simp: own_node_def setLocalYaw_def setLocalAnimState_def split: option.splits if_splits)

lemma own_cong: "own_node (s, y) \<Longrightarrow> sy_localId y' = sy_localId y \<Longrightarrow> own_node (s, y')"
  by (simp add: own_node_def)

lemma sync_update_in_step: "in_step me ids sy \<Longrightarrow> in_step me ids (sync_update fl dt camera yaw anim sy)"
proof -
  assume step: "in_step me ids sy"
  obtain s y where sy: "sy = (s, y)" by fastforce
  have "own_node (sync_update fl dt camera yaw anim sy)"
    using step by (auto simp: sy in_step_def sync_update_def publishSnapshot_def Let_def intro!: local_own intro: own_cong)
  moreover have "boxed (sync_update fl dt camera yaw anim sy) = ids"
      "sy_localId (snd (sync_update fl dt camera yaw anim sy)) = me"
    using step by (simp_all add: sy in_step_def sync_update_def publishSnapshot_def boxed_def Let_def)
  ultimately show ?thesis using step sync_update_inv [of sy fl dt camera yaw anim] by (simp add: in_step_def)
qed

lemma cleanup_leaves_nothing:
  assumes "in_step me ids sy"
  shows "gb_nodes (fst (sync_cleanup sy)) = []"
proof (cases sy)
  case (Pair s y)
  let ?s = "fst (sync_cleanup sy)"
  have "um_find (gb_nodes ?s) i = None" for i
  proof (rule ccontr)
    assume "um_find (gb_nodes ?s) i \<noteq> None"
    then obtain n where n: "um_find (gb_nodes s) i = Some n" "i \<notin> fst ` set (sy_boxes y)" "i \<noteq> sy_localId y"
      by (auto simp: Pair sync_cleanup_def Let_def detach_all detachNode_def split: if_splits)
    then have "um_find (sy_boxes y) i = None" by (simp add: um_find_None)
    then show False using n assms by (auto simp: Pair in_step_def synced_inv_def own_node_def box_of_def)
  qed
  then show ?thesis by (metis list.exhaust list.set_intros(1) prod.exhaust um_find_None image_eqI fst_conv)
qed

text \<open>A match: it is set up on a backend without nodes, that is a new one or one that has been cleaned up, and
  then frames and the game's calls follow in any order. What else happens to the backend leaves its
  nodes alone.\<close>

inductive in_match :: "'f fops \<Rightarrow> u32 set \<Rightarrow> 'f synced \<Rightarrow> bool" for fl where
  match_setup: "gb_nodes s = [] \<Longrightarrow> in_match fl {} (sync_setup fl (s, y))"
| match_frame: "in_match fl ids (s, y) \<Longrightarrow> in_match fl (fold (after_packet (sy_localId y)) (gb_packetQueue s) ids)
    (snd (synced_frame fl env clock ms dt (s, y)))"
| match_update: "in_match fl ids sy \<Longrightarrow> in_match fl ids (sync_update fl dt camera yaw anim sy)"
| match_switch: "in_match fl ids sy \<Longrightarrow> in_match fl ids (snd (sync_switchTeam manager sy))"
| match_backend: "in_match fl ids (s, y) \<Longrightarrow> gb_nodes s' = gb_nodes s \<Longrightarrow> in_match fl ids (s', y)"
| match_handlers: "in_match fl ids (s, y) \<Longrightarrow>
    in_match fl ids (s, y\<lparr>sy_onRemoteFire := f, sy_onRemoteHit := h, sy_onRemoteKilled := k\<rparr>)"

lemma in_match_in_step: "in_match fl ids sy \<Longrightarrow> in_step (sy_localId (snd sy)) ids sy"
proof (induction rule: in_match.induct)
  case (match_setup s y)
  then show ?case using setup_in_step [of s y fl] by (simp add: sync_setup_def Let_def)
next
  case (match_frame ids s y env clock ms dt)
  then show ?case using frame_in_step [of "sy_localId y" ids s y fl env clock ms dt] by (simp add: in_step_def)
next
  case (match_update ids sy dt camera yaw anim)
  then show ?case using sync_update_in_step [of "sy_localId (snd sy)" ids sy fl dt camera yaw anim] by (simp add: in_step_def)
next
  case (match_switch ids sy manager)
  then show ?case by (cases sy) (auto simp: sync_switchTeam_def Let_def intro: in_step_same_nodes)
next
  case (match_backend ids s y s')
  then show ?case by (auto intro: in_step_same_nodes)
next
  case (match_handlers ids s y f h k)
  then show ?case by (auto simp: in_step_def own_node_def boxed_def intro: inv_boxes_teams)
qed

text \<open>C39. During a match the snapshot other threads read has, after every update, exactly one entry for each player
  whose states have arrived since its last departure, with the position, yaw and animation of its
  node in the backend, and the team its last state named (a state that names team 0 aside).\<close>

theorem snapshot_faithful:
  assumes "in_match fl ids sy" "sync_update fl dt camera yaw anim sy = (s, y)"
  shows "distinct (map rs_id (sy_snapshot y)) \<and> rs_id ` set (sy_snapshot y) = ids \<and>
    (\<forall>r\<in>set (sy_snapshot y). \<exists>n. um_find (gb_nodes s) (rs_id r) = Some n \<and> \<not> nn_local n \<and>
       rs_pos r = nn_pos n \<and> rs_yaw r = nn_targetYaw n \<and> rs_animState r = nn_targetAnimState n \<and>
       (nn_team n \<noteq> 0 \<longrightarrow> rs_team r = nn_team n))"
proof -
  have step: "in_step (sy_localId (snd sy)) ids (s, y)"
    using sync_update_in_step [OF in_match_in_step [OF assms(1)], of fl dt camera yaw anim] assms(2) by simp
  have snap: "sy_snapshot y = map (\<lambda>(netId, pos). \<lparr>rs_id = netId, rs_pos = pos, rs_yaw = getRemoteYaw fl netId s,
      rs_animState = getRemoteAnimState netId s, rs_team = getRemoteTeam netId y\<rparr>) (sy_boxes y)"
    using assms(2) by (cases sy) (auto simp: sync_update_def publishSnapshot_def getRemoteTeam_def Let_def split: prod.splits)
  then have ids: "map rs_id (sy_snapshot y) = map fst (sy_boxes y)" by (simp add: case_prod_beta)
  have "rs_id ` set (sy_snapshot y) = fst ` set (sy_boxes y)" using ids by (metis set_map)
  also have "\<dots> = ids" using step um_find_None by (fastforce simp: in_step_def boxed_def Option.is_none_def)
  finally have known: "rs_id ` set (sy_snapshot y) = ids" .
  have entry: "\<exists>n. um_find (gb_nodes s) (rs_id r) = Some n \<and> \<not> nn_local n \<and> rs_pos r = nn_pos n \<and>
      rs_yaw r = nn_targetYaw n \<and> rs_animState r = nn_targetAnimState n \<and> (nn_team n \<noteq> 0 \<longrightarrow> rs_team r = nn_team n)"
    if "r \<in> set (sy_snapshot y)" for r
  proof -
    obtain i pos where box: "(i, pos) \<in> set (sy_boxes y)" and
      r: "r = \<lparr>rs_id = i, rs_pos = pos, rs_yaw = getRemoteYaw fl i s, rs_animState = getRemoteAnimState i s, rs_team = getRemoteTeam i y\<rparr>"
      using \<open>r \<in> set (sy_snapshot y)\<close> by (auto simp: snap)
    have "um_wf (sy_boxes y)" using step by (simp add: in_step_def synced_inv_def)
    then have "um_find (sy_boxes y) i = Some pos" using box by (rule um_in_find)
    then have "box_of (um_find (gb_nodes s) i) = Some pos" "team_known (um_find (gb_nodes s) i) (um_find (sy_teams y) i)"
      using step by (simp_all add: in_step_def synced_inv_def)
    then show ?thesis
      by (cases "um_find (gb_nodes s) i")
        (auto simp: r box_of_def team_known_def getRemoteYaw_def getRemoteAnimState_def getRemoteTeam_def split: if_splits)
  qed
  have "distinct (map rs_id (sy_snapshot y))" using step by (simp add: ids in_step_def synced_inv_def um_wf_def)
  then show ?thesis using known entry by blast
qed

definition example_synchronizer :: "rat SyncState" where
  "example_synchronizer = synchronizer rat_fops 1"

definition example_node_state :: "rat NodeStatePacket" where
  "example_node_state = \<lparr>ns_netid = 7, ns_x = 4, ns_y = 0, ns_z = 2, ns_yaw = 90, ns_team = 2, ns_animState = 3\<rparr>"

definition example_match :: "rat synced" where
  "example_match = snd (synced_frame rat_fops example_env (\<lambda>_. 0) 0 1
     (case sync_setup rat_fops (backend_state rat_fops, example_synchronizer) of
        (s, y) \<Rightarrow> (s\<lparr>gb_packetQueue := [NodeState example_node_state]\<rparr>, y)))"

theorem snapshot_faithful_witness:
  "rs_id ` set (sy_snapshot (snd (sync_update rat_fops 1 (0, 0, 0) 0 0 example_match))) = {7}"
proof -
  obtain s y where set: "sync_setup rat_fops (backend_state rat_fops, example_synchronizer) = (s, y)" by fastforce
  have "in_match rat_fops {} (s, y)"
    using match_setup [of "backend_state rat_fops" rat_fops example_synchronizer] set by (simp add: backend_state_def)
  then have "in_match rat_fops {} (s\<lparr>gb_packetQueue := [NodeState example_node_state]\<rparr>, y)" by (rule match_backend) simp
  from match_frame [OF this] have "in_match rat_fops (after_packet (sy_localId y) (NodeState example_node_state) {}) example_match"
    by (simp add: example_match_def set)
  moreover have "sy_localId y = 1"
    using set by (auto simp: sync_setup_def example_synchronizer_def synchronizer_def Let_def)
  ultimately have "in_match rat_fops {7} example_match" by (simp add: example_node_state_def)
  from snapshot_faithful [OF this prod.collapse [symmetric]] show ?thesis by blast
qed

text \<open>The callbacks outlive \<open>cleanup\<close>: a state that arrives after it puts its player's node back into the table, and
  a \<open>setup\<close> on the same backend, which clears the boxes only, then never shows that player.\<close>

lemma state_after_cleanup:
  assumes "in_step me ids sy" "ns_netid p \<noteq> me"
  shows "\<exists>n. um_find (gb_nodes (fst (snd (synced_packet fl env now (NodeState p) (sync_cleanup sy))))) (ns_netid p) = Some n \<and> \<not> nn_local n"
proof -
  obtain s y where sy: "sync_cleanup sy = (s, y)" by fastforce
  have "gb_nodes s = []" using cleanup_leaves_nothing [OF assms(1)] sy by simp
  moreover have "sy_localId y = me" using assms(1) sy by (cases sy) (auto simp: in_step_def sync_cleanup_def Let_def)
  ultimately show ?thesis using assms(2)
    by (auto simp: sy synced_packet_def onPacketReceived_def on_node_state_def sync_env_def Let_def)
qed

lemma second_setup_misses:
  assumes "um_find (gb_nodes s) (ns_netid p) = Some n" "\<not> nn_local n" "ns_netid p \<noteq> sy_localId y"
  shows "boxed (snd (synced_packet fl env now (NodeState p) (sync_setup fl (s, y)))) = {}"
  using assms by (auto simp: sync_setup_def synced_packet_def onPacketReceived_def on_node_state_def sync_env_def
      attachNode_def boxed_def sync_onTeamChanged_def Let_def)

text \<open>The host's team and its entry in the room list agree again once the packet of \<open>switchTeam\<close> is handled.\<close>

lemma host_team_agrees:
  assumes "nm_backend manager = Some h" "nm_hostMode manager"
    "find_player (sy_localId y) (gb_roomPlayers s) = Some rp" "sync_switchTeam manager (s, y) = (e, s', y')"
  obtains p where "e = [Call h (CallEnqueue p)]"
    "listed_team (sy_localId y) (gb_roomPlayers (snd (onPacketReceived fl env now p s'))) = gb_localTeam s'"
proof -
  let ?p = "SwitchTeam \<lparr>sw_senderId = sy_localId y, sw_teamId = gb_localTeam s'\<rparr>"
  have e: "e = [Call h (CallEnqueue ?p)]" "gb_roomPlayers s' = gb_roomPlayers s"
    using assms by (auto simp: sync_switchTeam_def switchTeam_def to_host_def Let_def)
  have "find_player i (update_first (\<lambda>rp. rp_id rp = i) (\<lambda>rp. rp\<lparr>rp_team := t\<rparr>) ps) = Some (rp\<lparr>rp_team := t\<rparr>)"
    if "find_player i ps = Some rp" for i t ps
    using that by (induction ps) (auto simp: find_player_def split: if_splits)
  then have "listed_team (sy_localId y) (gb_roomPlayers (snd (onPacketReceived fl env now ?p s'))) = gb_localTeam s'"
    using assms(3) e(2) by (simp add: onPacketReceived_def on_switch_team_def listed_team_def Let_def)
  then show thesis using that e by blast
qed

end
