(* ===== verification/Spec2Isabelle.thy ===== *)
theory Spec2Isabelle
  imports HostVoice VoiceLoopback P2PClient NetworkSynchronizer
begin

text \<open>
  This library models gipMultiplayer, the multiplayer plugin of GlistEngine, and proves what makes it
  correct. All paths are below \<open>src/src/\<close>.

  The program. A game holds one \<open>NetworkManager\<close>, which holds one backend: \<open>GameBackendLocal\<close> on the host,
  its subclass \<open>GameBackendServer\<close> on a dedicated server, \<open>GameBackendRemote\<close> on a client, all over the
  shared \<open>GameBackend\<close> with the lobby, the chat routing and the players' nodes. The packets between them are
  those of \<open>GamePackets.h\<close>. The host owns a voice router (\<open>voice/gTeamVoiceServer\<close>); every player that
  is heard or hears owns a voice client (\<open>audio/gTeamVoice\<close>) around an audio worker
  (\<open>audio/gVoiceAudioProcessor\<close>). \<open>NetworkSynchronizer\<close> keeps the boxes of a match on top of the backend and
  \<open>chat/ChatManager\<close> the chat history. A master server (\<open>master/MasterMain.cpp\<close>, packets in
  \<open>master/gMasterPackets.h\<close>) lists hosts, brokers punches and keeps accounts; \<open>gipP2PClient\<close>,
  \<open>master/gServerBrowser\<close> and the account half of \<open>NetworkManager\<close> are its clients.

  Theories, in the order they build on each other.
  \<^item> \<open>Mp_Prelude\<close>: types, hash maps as association lists, floats as a parameter, the rule collections,
    reachability and the locale \<open>step_system\<close> every invariant is proved through.
  \<^item> \<open>Znet_Buffer\<close>: what the serializers use of znet's buffer (locale \<open>znet_buffer\<close>, interpreted by a buffer in
    memory) and the vectors of entries (\<open>entry_codec\<close>).
  \<^item> \<open>VoicePackets\<close>, \<open>GamePackets\<close>, \<open>MasterPackets\<close>: \<open>voice/gTeamVoicePackets\<close>, \<open>GamePackets.h\<close>,
    \<open>master/gMasterPackets.h\<close>; a record per packet, a function per serializer, round trips.
  \<^item> \<open>RingBuffers\<close>: \<open>SpscQueue\<close> and \<open>SampleRingBuffer\<close> of the audio worker and \<open>AudioRingBuffer\<close> of the
    loopback; all three meet \<open>bounded_fifo\<close>, and the queue is linearizable with its two threads interleaved.
  \<^item> \<open>AudioProcessor\<close>, \<open>AudioInvariants\<close>: the worker of \<open>audio/gVoiceAudioProcessor.cpp\<close> (capture, encoding,
    jitter buffers, playout, mixing, sessions) and what holds in all its reachable states.
  \<^item> \<open>TeamVoice\<close>: \<open>audio/gTeamVoice.cpp\<close>, which moves the worker along the worker's own steps only.
  \<^item> \<open>VoiceLoopback\<close>: \<open>audio/gVoiceLoopback.cpp\<close>, the delayed microphone.
  \<^item> \<open>VoiceServer\<close>: \<open>voice/gTeamVoiceServer.cpp\<close>, with the sends outside its lock as steps of their own;
    isolation, completeness, credentials and rates.
  \<^item> \<open>ChatManager\<close>, \<open>GameBackend\<close>: \<open>chat/ChatManager.cpp\<close>, and \<open>GameBackend.h\<close> and \<open>.cpp\<close>: admission, names,
    teams, chat, node states, the frame.
  \<^item> \<open>GameBackendLocal\<close>, \<open>HostInvariants\<close>, \<open>HostVoice\<close>: \<open>GameBackendLocal.cpp\<close> and \<open>GameBackendServer.cpp\<close>:
    sessions and their packets, routing, kicks, the link to the master, the host's own voice; its frame refines the
    frame of \<open>GameBackend\<close>, its lobby stays consistent, chat and voice reach whom the lobby says.
  \<^item> \<open>GameBackendRemote\<close>: \<open>GameBackendRemote.cpp\<close>: the backlog before a session is adopted, adoption on a
    network thread in three parts, the loss of the session.
  \<^item> \<open>MasterAccounts\<close>, \<open>MasterRegistry\<close>, \<open>MasterServer\<close>: the accounts with their SQL tables, the list of hosts with
    room codes and offers, and the whole server of \<open>MasterMain.cpp\<close>.
  \<^item> \<open>P2PClient\<close>: \<open>gipP2PClient.cpp\<close>, the punching half of the host and \<open>gServerBrowser.cpp\<close>, joined with the
    broker of \<open>MasterRegistry\<close>.
  \<^item> \<open>ClientAccounts\<close>, \<open>NetworkManager\<close>: \<open>NetworkManager.cpp\<close>: the saved login and the requests with their
    threads; the backend in use with the join threads, lobby and voice controls, queries.
  \<^item> \<open>NetworkSynchronizer\<close>: \<open>NetworkSynchronizer.cpp\<close> over \<open>GameBackend\<close>, its callbacks run packet by packet.

  Conventions. A class is a record with a field per member and a prefix of its own; an operation is a function on
  it that returns what it does to the outside (packets sent, callbacks, calls of virtual functions) as a list of
  effects in order. Where the code holds a lock, the section is one step; where it lets go of it, or works on
  another thread, the parts are separate steps of an inductive relation, and the theorems are about every
  interleaving. Counters, ids and positions keep their width as words; \<open>size_t\<close> counts that stay small are naturals.
  Hash maps keep the order of insertion; the theorems speak of lookups and sets where the order is not defined.
  Times and random numbers are arguments. Floats are a type with the operations of \<open>fops\<close>; where a theorem
  needs their laws it is about rationals.

  Parameters, for code that is not in the repository: znet's buffer, sessions, codec and punching agent, the
  candidates of a punch, Opus (\<open>opus\<close>), miniaudio (device results), OpenSSL's digests (\<open>crypto\<close>) and ciphers
  (\<open>cipher\<close>), the file system, SQLite's faults, the engine's nodes (positions) and the game's callbacks. What
  is assumed of them is stated in the theorem that needs it, each with an instance.

  Loops and fuel. Loops over data are structural recursion. \<open>free_name\<close> has as much fuel as there are players
  plus one, and a free name is always found within it (\<open>resolve_name_Some\<close>); \<open>send_loop\<close> and \<open>flush_turns\<close>
  one more than their queue holds, which drains it (\<open>send_loop_done\<close>, \<open>flush_turns_all\<close>); \<open>capture_loop\<close>
  the length of its input, of which each turn takes a sample at least (\<open>capture_loop_core\<close>); \<open>try_codes\<close> the 32 attempts of the code.
  The loops of worker threads and waits are steps, and what ends them is proved of the steps: a pending request
  settles by its deadline (\<open>auth_settles\<close>), a join returns within 39 seconds of waiting (\<open>join_settles\<close>).

  The theorems. Every manifest property stands right below its statement in words. Lemmas near the operations give
  their behaviour branch by branch, the invariants go through \<open>step_system\<close>, and each theory ends
  with examples on concrete states. Lemmas named in the findings show where the code does not do what it means to.

  Not modelled: \<open>MultiplayerLog\<close> (formatting and files), the plugin object, the demo applications below
  \<open>examples/\<close>, the start of listening sockets and the command line of the master, the relay and reflector the
  master starts from znet, registration of codecs on query and master links, and accessors that return one
  field. The calls of the game's callbacks back into the library while they run are not modelled either, except
  \<open>onJoin\<close> and \<open>onLeave\<close>, which the synchronizer answers. A backend is replaced under a running frame in the code
  by a join thread; the synchronizer's model assumes the frame's backend is the manager's.
\<close>

end
